(* ===== verification/Prelude.thy ===== *)
theory Prelude
  imports Main "HOL-Library.AList"
begin

text \<open>
  Shared vocabulary of the development: the result type of fallible Rust functions and its
  combinators, the list idioms the code repeats (pushing a name once, collecting results),
  association lists for Rust's maps and SQLite's keyed tables, and the collections of facts
  the component proofs draw on.
\<close>

named_theorems model_defs "definitions unfolded by the component proofs"
named_theorems order_facts "facts on first positions and duplicates in lists"

subsection \<open>Results\<close>

text \<open>
  Rust's \<open>Result<T, E>\<close> is the sum type \<open>'e + 'a\<close>: \<open>Inl\<close> the error, \<open>Inr\<close> the value.
  \<open>and_then\<close> is the \<open>?\<close> operator followed by the rest of the function, \<open>map_err\<close> the
  method of that name and \<open>collect_res\<close> is \<open>iter().map(f).collect::<Result<Vec<_>, _>>()\<close>,
  which stops at the first error.
\<close>

type_synonym ('e, 'a) res = "'e + 'a"

abbreviation (input) Err :: "'e \<Rightarrow> 'e + 'a" where "Err \<equiv> Inl"
abbreviation (input) Ok :: "'a \<Rightarrow> 'e + 'a" where "Ok \<equiv> Inr"

fun and_then :: "'e + 'a \<Rightarrow> ('a \<Rightarrow> 'e + 'b) \<Rightarrow> 'e + 'b" where
  "and_then (Inl e) f = Inl e"
| "and_then (Inr x) f = f x"

fun map_err :: "('e \<Rightarrow> 'f) \<Rightarrow> 'e + 'a \<Rightarrow> 'f + 'a" where
  "map_err f (Inl e) = Inl (f e)"
| "map_err f (Inr x) = Inr x"

definition is_ok :: "'e + 'a \<Rightarrow> bool" where
  "is_ok r = (case r of Inl _ \<Rightarrow> False | Inr _ \<Rightarrow> True)"

definition ok_or :: "'e \<Rightarrow> 'a option \<Rightarrow> 'e + 'a" where
  "ok_or e x = (case x of None \<Rightarrow> Inl e | Some v \<Rightarrow> Inr v)"

fun collect_res :: "('a \<Rightarrow> 'e + 'b) \<Rightarrow> 'a list \<Rightarrow> 'e + 'b list" where
  "collect_res f [] = Inr []"
| "collect_res f (x # xs) =
     (case f x of
        Inl e \<Rightarrow> Inl e
      | Inr y \<Rightarrow> (case collect_res f xs of Inl e \<Rightarrow> Inl e | Inr ys \<Rightarrow> Inr (y # ys)))"

lemma is_ok_simps [simp]: "\<not> is_ok (Inl e)" "is_ok (Inr x)"
  by (simp_all add: is_ok_def)

lemma is_ok_iff: "is_ok r \<longleftrightarrow> (\<exists>x. r = Inr x)"
  by (cases r) auto

lemma and_then_Inr_iff: "and_then r f = Inr y \<longleftrightarrow> (\<exists>x. r = Inr x \<and> f x = Inr y)"
  by (cases r) auto

lemma map_err_Inr_iff [simp]: "map_err f r = Inr y \<longleftrightarrow> r = Inr y"
  by (cases r) auto

lemma ok_or_Inr_iff [simp]: "ok_or e x = Inr y \<longleftrightarrow> x = Some y"
  by (cases x) (auto simp: ok_or_def)

lemma collect_res_Inr_iff:
  "collect_res f xs = Inr ys \<longleftrightarrow> list_all2 (\<lambda>x y. f x = Inr y) xs ys"
proof (induction xs arbitrary: ys)
  case Nil
  then show ?case by auto
next
  case (Cons x xs)
  show ?case
  proof (cases "f x")
    case (Inl e)
    then show ?thesis by (auto simp: list_all2_Cons1)
  next
    case (Inr y)
    then show ?thesis
      using Cons.IH by (cases "collect_res f xs") (auto simp: list_all2_Cons1)
  qed
qed

lemma collect_res_length: "collect_res f xs = Inr ys \<Longrightarrow> length ys = length xs"
  by (simp add: collect_res_Inr_iff list_all2_lengthD)

lemma collect_res_set:
  "collect_res f xs = Inr ys \<Longrightarrow> y \<in> set ys \<Longrightarrow> \<exists>x \<in> set xs. f x = Inr y"
  unfolding collect_res_Inr_iff list_all2_conv_all_nth by (metis in_set_conv_nth)

subsection \<open>Pushing each name once\<close>

text \<open>
  The loop \<open>for x in xs { if !out.contains(&x) { out.push(x) } }\<close>, which the routing code
  writes in several places: each element is kept at its first position.
\<close>

fun push_new :: "'a list \<Rightarrow> 'a list \<Rightarrow> 'a list" where
  "push_new out [] = out"
| "push_new out (x # xs) = (if x \<in> set out then push_new out xs else push_new (out @ [x]) xs)"

lemma set_push_new [simp]: "set (push_new out xs) = set out \<union> set xs"
  by (induction out xs rule: push_new.induct) auto

lemma distinct_push_new [simp]: "distinct (push_new out xs) \<longleftrightarrow> distinct out"
  by (induction out xs rule: push_new.induct) auto

lemma push_new_append: "push_new out (xs @ ys) = push_new (push_new out xs) ys"
  by (induction out xs rule: push_new.induct) auto

lemma push_new_filter: "push_new out xs = out @ push_new [] (filter (\<lambda>x. x \<notin> set out) xs)"
proof (induction xs arbitrary: out rule: length_induct)
  case (1 xs)
  show ?case
  proof (cases xs)
    case Nil
    then show ?thesis by simp
  next
    case (Cons x ys)
    have "push_new (out @ [x]) ys = (out @ [x]) @ push_new [] (filter (\<lambda>y. y \<notin> set (out @ [x])) ys)"
      using 1 Cons by (metis impossible_Cons linorder_not_le)
    moreover have "push_new [x] (filter (\<lambda>y. y \<notin> set out) ys)
        = [x] @ push_new [] (filter (\<lambda>y. y \<notin> set [x]) (filter (\<lambda>y. y \<notin> set out) ys))"
      using 1 Cons by (metis length_Cons length_filter_le le_imp_less_Suc)
    moreover have "filter (\<lambda>y. y \<notin> set [x]) (filter (\<lambda>y. y \<notin> set out) ys)
        = filter (\<lambda>y. y \<notin> set (out @ [x])) ys"
      by (auto intro: filter_cong)
    moreover have "push_new out ys = out @ push_new [] (filter (\<lambda>y. y \<notin> set out) ys)"
      using 1 Cons by simp
    ultimately show ?thesis by (simp add: Cons)
  qed
qed

lemma push_new_prefix: "\<exists>zs. push_new out xs = out @ zs"
  by (metis push_new_filter)

lemma push_new_idem: "distinct xs \<Longrightarrow> push_new [] xs = xs"
proof -
  have "distinct (out @ xs) \<Longrightarrow> push_new out xs = out @ xs" for out
    by (induction out xs rule: push_new.induct) auto
  from this [of "[]"] show "distinct xs \<Longrightarrow> push_new [] xs = xs" by simp
qed

subsection \<open>Association lists\<close>

text \<open>
  A \<open>HashMap\<close>, or an SQLite table with a primary key, is an association list with distinct
  keys: \<open>AList.update\<close> replaces a value in place and adds a new key at the end, which is the
  effect of \<open>insert\<close> on a map and of \<open>INSERT ... ON CONFLICT DO UPDATE\<close> on a table read in
  \<open>rowid\<close> order. Where the order of a \<open>HashMap\<close> is not specified the properties hold for
  every order of the list.
\<close>

definition wf_alist :: "('k \<times> 'v) list \<Rightarrow> bool" where
  "wf_alist al \<longleftrightarrow> distinct (map fst al)"

lemma wf_alist_Nil [simp]: "wf_alist []"
  by (simp add: wf_alist_def)

lemma wf_alist_update [simp]: "wf_alist al \<Longrightarrow> wf_alist (AList.update k v al)"
  by (simp add: wf_alist_def distinct_update)

lemma wf_alist_delete [simp]: "wf_alist al \<Longrightarrow> wf_alist (AList.delete k al)"
  by (simp add: wf_alist_def distinct_delete)

lemma wf_alist_map_of: "wf_alist al \<Longrightarrow> (k, v) \<in> set al \<longleftrightarrow> map_of al k = Some v"
  by (auto simp: wf_alist_def map_of_eq_Some_iff)

lemma map_of_update: "map_of (AList.update k v al) = (map_of al)(k \<mapsto> v)"
  by (rule update_conv')

lemma map_of_delete: "map_of (AList.delete k al) = (map_of al)(k := None)"
  by (rule delete_conv')

lemmas alist_simps = map_of_update map_of_delete

subsection \<open>Options and minima\<close>

definition unwrap_or :: "'a \<Rightarrow> 'a option \<Rightarrow> 'a" where
  "unwrap_or d x = (case x of None \<Rightarrow> d | Some v \<Rightarrow> v)"

lemma unwrap_or_simps [simp]: "unwrap_or d None = d" "unwrap_or d (Some v) = v"
  by (simp_all add: unwrap_or_def)

definition or_opt :: "'a option \<Rightarrow> 'a option \<Rightarrow> 'a option" where
  "or_opt x y = (case x of None \<Rightarrow> y | Some v \<Rightarrow> Some v)"

lemma or_opt_simps [simp]: "or_opt None y = y" "or_opt (Some v) y = Some v" "or_opt x None = x"
  by (simp_all add: or_opt_def split: option.splits)

lemma or_opt_assoc: "or_opt (or_opt x y) z = or_opt x (or_opt y z)"
  by (cases x) auto

fun list_max :: "int list \<Rightarrow> int option" where
  "list_max [] = None"
| "list_max (x # xs) = Some (foldl max x xs)"

lemma foldl_max: "foldl max x xs = Max (insert x (set xs))" for x :: "'a :: linorder"
proof (induction xs arbitrary: x)
  case (Cons y ys)
  have "Max (insert (max x y) (set ys)) = Max (insert x (insert y (set ys)))"
    by (cases "set ys = {}") (auto simp: max.assoc)
  with Cons show ?case by simp
qed simp

lemma list_max_Some: "list_max xs = Some m \<longleftrightarrow> xs \<noteq> [] \<and> m = Max (set xs)"
  by (cases xs) (auto simp: foldl_max)

lemma list_max_None [simp]: "list_max xs = None \<longleftrightarrow> xs = []"
  by (cases xs) auto

end
