(* ===== verification/Json.thy ===== *)
theory Json
  imports Prelude
begin

text \<open>
  The JSON values the code builds and reads (the variants of \<open>serde_json::Value\<close>) and the few
  operations it applies to them: lookup of a key, assignment through an index, and the tests on
  the variant. An object is an association list with distinct keys; a number is kept as its JSON
  text. Turning a value into text or back is done by the serde_json crate and is a parameter
  wherever the code needs it.
\<close>

datatype json =
    JNull
  | JBool bool
  | JNum string
  | JStr string
  | JArr "json list"
  | JObj "(string \<times> json) list"

text \<open>\<open>value.get(key)\<close>: only an object has the key.\<close>

definition jget :: "json \<Rightarrow> string \<Rightarrow> json option" where
  "jget v k = (case v of JObj kvs \<Rightarrow> map_of kvs k | _ \<Rightarrow> None)"

text \<open>\<open>value[key]\<close> as an expression: a missing key reads as null.\<close>

definition jindex :: "json \<Rightarrow> string \<Rightarrow> json" where
  "jindex v k = unwrap_or JNull (jget v k)"

text \<open>
  \<open>value[key] = x\<close>: inserts into an object, and turns null into an object first. (On any other
  variant serde_json panics; the code only assigns into objects it has just built.)
\<close>

definition jset :: "string \<Rightarrow> json \<Rightarrow> json \<Rightarrow> json" where
  "jset k x v = (case v of
      JObj kvs \<Rightarrow> JObj (AList.update k x kvs)
    | JNull \<Rightarrow> JObj [(k, x)]
    | _ \<Rightarrow> v)"

definition as_object :: "json \<Rightarrow> (string \<times> json) list option" where
  "as_object v = (case v of JObj kvs \<Rightarrow> Some kvs | _ \<Rightarrow> None)"

definition as_str :: "json \<Rightarrow> string option" where
  "as_str v = (case v of JStr s \<Rightarrow> Some s | _ \<Rightarrow> None)"

definition as_bool :: "json \<Rightarrow> bool option" where
  "as_bool v = (case v of JBool b \<Rightarrow> Some b | _ \<Rightarrow> None)"

definition is_object :: "json \<Rightarrow> bool" where
  "is_object v = (as_object v \<noteq> None)"

text \<open>\<open>Option<String>\<close> and \<open>Option<&str>\<close> as JSON.\<close>

definition jopt :: "string option \<Rightarrow> json" where
  "jopt x = (case x of None \<Rightarrow> JNull | Some s \<Rightarrow> JStr s)"

lemma jget_JObj [simp]: "jget (JObj kvs) k = map_of kvs k"
  by (simp add: jget_def)

lemma jset_JObj [simp]: "jset k x (JObj kvs) = JObj (AList.update k x kvs)"
  by (simp add: jset_def)

lemma is_object_iff: "is_object v \<longleftrightarrow> (\<exists>kvs. v = JObj kvs)"
  by (cases v) (auto simp: is_object_def as_object_def)

lemma is_object_jset [simp]: "is_object v \<Longrightarrow> is_object (jset k x v)"
  by (auto simp: is_object_iff)

lemma jget_jset [simp]: "is_object v \<Longrightarrow> jget (jset k x v) k' = (if k' = k then Some x else jget v k')"
  by (auto simp: is_object_iff map_of_update)

end
