(* ===== verification/Signals.thy ===== *)
theory Signals
  imports Rust_Str Json
begin

text \<open>
  \<^verbatim>\<open>crates/core/src/signal.rs\<close>: the closed enums \<open>Severity\<close> and \<open>Action\<close> with their printing and
  parsing, the caller's \<open>SignalInput\<close>, the core's \<open>Signal\<close>, the error type, validation and the
  dedup key. SHA-256 (the sha2 crate, printed in lower-case hex) is the parameter \<open>sha\<close>; the
  fresh UUID and the clock are arguments of \<open>from_input\<close>.
\<close>

subsection \<open>Severity and action\<close>

datatype severity = Info | Success | Warning | Error | Critical

datatype action = Trigger | Acknowledge | Resolve

fun severity_display :: "severity \<Rightarrow> string" where
  "severity_display Info = ''info''"
| "severity_display Success = ''success''"
| "severity_display Warning = ''warning''"
| "severity_display Error = ''error''"
| "severity_display Critical = ''critical''"

definition severity_from_str :: "string \<Rightarrow> (string, severity) res" where
  "severity_from_str s = (let l = to_lowercase s in
     if l = ''info'' then Ok Info
     else if l = ''success'' then Ok Success
     else if l = ''warning'' then Ok Warning
     else if l = ''error'' then Ok Error
     else if l = ''critical'' then Ok Critical
     else Err (''unknown severity '' @ debug_str l @
       ''; expected one of: info, success, warning, error, critical''))"

definition is_lifecycle :: "action \<Rightarrow> bool" where
  "is_lifecycle a = (a \<noteq> Trigger)"

fun action_label :: "action \<Rightarrow> string option" where
  "action_label Trigger = None"
| "action_label Acknowledge = Some ''Acknowledged''"
| "action_label Resolve = Some ''Resolved''"

fun action_display :: "action \<Rightarrow> string" where
  "action_display Trigger = ''trigger''"
| "action_display Acknowledge = ''acknowledge''"
| "action_display Resolve = ''resolve''"

definition action_from_str :: "string \<Rightarrow> (string, action) res" where
  "action_from_str s = (let l = to_lowercase s in
     if l = ''trigger'' then Ok Trigger
     else if l = ''acknowledge'' \<or> l = ''ack'' then Ok Acknowledge
     else if l = ''resolve'' then Ok Resolve
     else Err (''unknown action '' @ debug_str l @
       ''; expected one of: trigger, acknowledge, resolve''))"

subsection \<open>Errors\<close>

text \<open>The payload of \<open>Timeout\<close>, a \<open>Duration\<close>, is its number of milliseconds.\<close>

datatype signal_error =
    Validation string
  | Config_Error string
  | Delivery_Error string
  | Sink_Error string
  | Timeout nat
  | Internal string

subsection \<open>Signals\<close>

record signal =
  sg_id :: string
  sg_source :: string
  sg_service :: "string option"
  sg_component :: "string option"
  sg_event_type :: string
  sg_severity :: severity
  sg_title :: string
  sg_message :: "string option"
  sg_environment :: "string option"
  sg_team :: "string option"
  sg_run_id :: "string option"
  sg_correlation_id :: "string option"
  sg_trace_id :: "string option"
  sg_log_url :: "string option"
  sg_metadata :: json
  sg_timestamp :: int
  sg_dedup_key :: "string option"
  sg_action :: action

record signal_input =
  in_source :: string
  in_service :: "string option"
  in_component :: "string option"
  in_event_type :: string
  in_severity :: severity
  in_title :: string
  in_message :: "string option"
  in_environment :: "string option"
  in_team :: "string option"
  in_run_id :: "string option"
  in_correlation_id :: "string option"
  in_trace_id :: "string option"
  in_log_url :: "string option"
  in_metadata :: "json option"
  in_dedup_key :: "string option"
  in_action :: action

definition default_metadata :: json where
  "default_metadata = JObj []"

text \<open>\<open>SignalInput::default()\<close>, from the derived \<open>Default\<close> of its fields.\<close>

definition default_input :: signal_input where
  "default_input = \<lparr>in_source = [], in_service = None, in_component = None, in_event_type = [],
     in_severity = Info, in_title = [], in_message = None, in_environment = None, in_team = None,
     in_run_id = None, in_correlation_id = None, in_trace_id = None, in_log_url = None,
     in_metadata = None, in_dedup_key = None, in_action = Trigger\<rparr>"

definition compute_dedup_key :: "(string \<Rightarrow> string) \<Rightarrow> signal_input \<Rightarrow> string" where
  "compute_dedup_key sha i = sha (in_source i @ ''|'' @ in_event_type i @ ''|'' @ in_title i @ ''|'' @
     unwrap_or [] (in_environment i))"

definition effective_dedup_key :: "(string \<Rightarrow> string) \<Rightarrow> signal_input \<Rightarrow> string" where
  "effective_dedup_key sha i =
     (case in_dedup_key i of Some k \<Rightarrow> k | None \<Rightarrow> compute_dedup_key sha i)"

definition from_input :: "(string \<Rightarrow> string) \<Rightarrow> string \<Rightarrow> int \<Rightarrow> signal_input \<Rightarrow> signal" where
  "from_input sha uid now i =
     (let dedup_key = effective_dedup_key sha i in
      \<lparr>sg_id = uid, sg_source = in_source i, sg_service = in_service i,
       sg_component = in_component i, sg_event_type = in_event_type i,
       sg_severity = in_severity i, sg_title = in_title i, sg_message = in_message i,
       sg_environment = in_environment i, sg_team = in_team i, sg_run_id = in_run_id i,
       sg_correlation_id = in_correlation_id i, sg_trace_id = in_trace_id i,
       sg_log_url = in_log_url i, sg_metadata = unwrap_or default_metadata (in_metadata i),
       sg_timestamp = now, sg_dedup_key = Some dedup_key, sg_action = in_action i\<rparr>)"

subsection \<open>Validation\<close>

definition validate_fields :: "signal_input \<Rightarrow> (signal_error, unit) res" where
  "validate_fields i =
     (if is_blank (in_source i) then Err (Validation ''source must not be empty'')
      else if is_blank (in_event_type i) then Err (Validation ''event_type must not be empty'')
      else if is_blank (in_title i) then Err (Validation ''title must not be empty'')
      else Ok ())"

definition validate :: "signal_input \<Rightarrow> (signal_error, unit) res" where
  "validate i =
     (if is_lifecycle (in_action i) then
        (case in_dedup_key i of
           Some key \<Rightarrow>
             (if \<not> is_blank key then Ok ()
              else Err (Validation (''dedup_key must not be blank for '' @
                action_display (in_action i))))
         | None \<Rightarrow> validate_fields i)
      else validate_fields i)"

definition fill_lifecycle_defaults :: "string option \<Rightarrow> signal_input \<Rightarrow> signal_input" where
  "fill_lifecycle_defaults known_title i0 =
     (let i1 = (if is_blank (in_source i0) then i0\<lparr>in_source := ''opssignal''\<rparr> else i0);
          i2 = (if is_blank (in_event_type i1)
                then i1\<lparr>in_event_type := action_display (in_action i1)\<rparr> else i1)
      in (if is_blank (in_title i2)
          then i2\<lparr>in_title := unwrap_or [] (or_opt known_title (in_dedup_key i2))\<rparr> else i2))"

subsection \<open>Facts used by the other components\<close>

lemma is_lifecycle_simps [simp]:
  "\<not> is_lifecycle Trigger" "is_lifecycle Acknowledge" "is_lifecycle Resolve"
  by (simp_all add: is_lifecycle_def)

lemma from_input_simps [simp]:
  "sg_id (from_input sha uid now i) = uid"
  "sg_timestamp (from_input sha uid now i) = now"
  "sg_dedup_key (from_input sha uid now i) = Some (effective_dedup_key sha i)"
  "sg_action (from_input sha uid now i) = in_action i"
  "sg_severity (from_input sha uid now i) = in_severity i"
  "sg_title (from_input sha uid now i) = in_title i"
  "sg_source (from_input sha uid now i) = in_source i"
  "sg_event_type (from_input sha uid now i) = in_event_type i"
  "sg_environment (from_input sha uid now i) = in_environment i"
  by (simp_all add: from_input_def Let_def)

lemma validate_fields_Inr_iff:
  "validate_fields i = Inr () \<longleftrightarrow>
     \<not> is_blank (in_source i) \<and> \<not> is_blank (in_event_type i) \<and> \<not> is_blank (in_title i)"
  by (simp add: validate_fields_def)

lemma action_display_not_blank [simp]: "\<not> is_blank (action_display a)"
  by (cases a) (simp_all add: is_blank_iff is_ws_def)

lemma opssignal_not_blank [simp]: "\<not> is_blank ''opssignal''"
  by (simp add: is_blank_iff is_ws_def)

lemma fill_lifecycle_defaults_frame [simp]:
  "in_dedup_key (fill_lifecycle_defaults t i) = in_dedup_key i"
  "in_action (fill_lifecycle_defaults t i) = in_action i"
  "in_environment (fill_lifecycle_defaults t i) = in_environment i"
  "in_severity (fill_lifecycle_defaults t i) = in_severity i"
  by (simp_all add: fill_lifecycle_defaults_def Let_def)

lemma fill_lifecycle_defaults_id:
  "\<not> is_blank (in_source i) \<Longrightarrow> \<not> is_blank (in_event_type i) \<Longrightarrow> \<not> is_blank (in_title i) \<Longrightarrow>
   fill_lifecycle_defaults t i = i"
  by (simp add: fill_lifecycle_defaults_def)

lemma lowercase_display [simp]:
  "to_lowercase (severity_display s) = severity_display s"
  "to_lowercase (action_display a) = action_display a"
  by (cases s; simp add: to_lowercase_def lower_char_def)
     (cases a; simp add: to_lowercase_def lower_char_def)

lemma severity_display_inj: "severity_display a = severity_display b \<Longrightarrow> a = b"
  by (cases a; cases b) simp_all

subsection \<open>Properties\<close>

text \<open>
  Parsing a severity accepts exactly the five names, in any letter case, and gives back the
  severity whose \<open>Display\<close> is that name; in particular parsing inverts printing.
\<close>

theorem severity_from_str_iff:
  "severity_from_str s = Inr sev \<longleftrightarrow> to_lowercase s = severity_display sev"
  by (cases sev) (auto simp: severity_from_str_def Let_def)

text \<open>
  Validation accepts an input exactly when a lifecycle signal carries a non-blank dedup key, or
  (with no key, or for a trigger) source, event type and title are all non-blank; a blank key on an
  \<open>acknowledge\<close> or \<open>resolve\<close> is rejected whatever else is set.
\<close>

theorem validate_ok_iff:
  "is_ok (validate i) \<longleftrightarrow>
     (if is_lifecycle (in_action i) \<and> in_dedup_key i \<noteq> None
      then \<not> is_blank (unwrap_or [] (in_dedup_key i))
      else \<not> is_blank (in_source i) \<and> \<not> is_blank (in_event_type i) \<and> \<not> is_blank (in_title i))"
  by (auto simp: validate_def validate_fields_def split: option.splits)

lemma validate_fields_if_no_key:
  assumes "is_ok (validate i)" "in_dedup_key i = None"
  shows "\<not> is_blank (in_source i)" "\<not> is_blank (in_event_type i)" "\<not> is_blank (in_title i)"
  using assms by (auto simp: validate_def validate_fields_def split: if_splits)

text \<open>
  Filling in the defaults of a validated lifecycle input never changes the alert it names (its
  effective dedup key, which the client looks up before filling), and leaves source and event type
  non-blank; the title is non-blank too unless a blank title was remembered for the alert.
\<close>

theorem fill_lifecycle_defaults_keeps_key:
  assumes "is_ok (validate i)" and "is_lifecycle (in_action i)"
  shows "effective_dedup_key sha (fill_lifecycle_defaults known i) = effective_dedup_key sha i \<and>
     \<not> is_blank (in_source (fill_lifecycle_defaults known i)) \<and>
     \<not> is_blank (in_event_type (fill_lifecycle_defaults known i)) \<and>
     (\<not> is_blank (in_title (fill_lifecycle_defaults known i)) \<or> (\<exists>t. known = Some t \<and> is_blank t))"
proof (cases "in_dedup_key i")
  case None
  then show ?thesis
    using validate_fields_if_no_key [OF assms(1) None] by (simp add: fill_lifecycle_defaults_id)
next
  case (Some k)
  with assms have "\<not> is_blank k" by (simp add: validate_def split: if_splits)
  with Some show ?thesis
    by (cases known) (simp_all add: effective_dedup_key_def fill_lifecycle_defaults_def Let_def)
qed

definition resolve_by_key :: signal_input where
  "resolve_by_key = default_input\<lparr>in_action := Resolve, in_dedup_key := Some ''etl.load''\<rparr>"

theorem fill_lifecycle_defaults_keeps_key_witness:
  "effective_dedup_key (\<lambda>x. x) (fill_lifecycle_defaults (Some ''Load failed'') resolve_by_key) = ''etl.load'' \<and>
   \<not> is_blank (in_title (fill_lifecycle_defaults (Some ''Load failed'') resolve_by_key))"
proof -
  have v: "is_ok (validate resolve_by_key)" "is_lifecycle (in_action resolve_by_key)"
    by (simp_all add: resolve_by_key_def default_input_def validate_def is_blank_iff is_ws_def)
  have "\<not> is_blank ''Load failed''" by (simp add: is_blank_iff is_ws_def)
  with fill_lifecycle_defaults_keeps_key [OF v, of "\<lambda>x. x" "Some ''Load failed''"]
  show ?thesis by (simp add: effective_dedup_key_def resolve_by_key_def default_input_def)
qed

text \<open>
  The computed dedup key does not separate its fields: moving a \<open>|\<close> from the end of the source
  to the front of the event type gives a different signal with the same key, whatever the hash.
\<close>

theorem compute_dedup_key_collision:
  "compute_dedup_key sha (i\<lparr>in_source := a @ ''|'' @ b, in_event_type := c\<rparr>) =
   compute_dedup_key sha (i\<lparr>in_source := a, in_event_type := b @ ''|'' @ c\<rparr>)"
  by (simp add: compute_dedup_key_def)

end
