(* ===== verification/Deliveries.thy ===== *)
theory Deliveries
  imports Signals
begin

text \<open>
  \<^verbatim>\<open>crates/core/src/delivery.rs\<close>: the outcome types of a delivery and the provider interface. A
  provider is a record of the operations of the trait \<open>Provider\<close>; what the service behind it
  answers is not in the repository, so \<open>send_with_ref\<close> is a function of the signal, of the
  reference to an earlier alert, and of the number of the attempt, which lets the answers of
  successive attempts differ freely.
\<close>

datatype delivery_status = Pending | Delivered | Partial | Failed | Skipped | Grouped

fun status_display :: "delivery_status \<Rightarrow> string" where
  "status_display Pending = ''pending''"
| "status_display Delivered = ''delivered''"
| "status_display Partial = ''partial''"
| "status_display Failed = ''failed''"
| "status_display Skipped = ''skipped''"
| "status_display Grouped = ''grouped''"

record provider_outcome =
  po_provider :: string
  po_status :: delivery_status
  po_error :: "string option"
  po_attempts :: nat

record delivery_result =
  dr_status :: delivery_status
  dr_provider :: "string option"
  dr_error :: "string option"
  dr_attempts :: nat
  dr_deliveries :: "provider_outcome list"
  dr_suppressed :: "string list"
  dr_grouped :: "string list"

definition pending_result :: delivery_result where
  "pending_result = \<lparr>dr_status = Pending, dr_provider = None, dr_error = None, dr_attempts = 0,
     dr_deliveries = [], dr_suppressed = [], dr_grouped = []\<rparr>"

record send_report =
  sr_signal_id :: string
  sr_dedup_key :: "string option"
  sr_result :: delivery_result

record provider =
  pv_name :: string
  pv_send_with_ref :: "signal \<Rightarrow> string option \<Rightarrow> nat \<Rightarrow> (signal_error, string option) res"
  pv_resolves_by_key :: bool
  pv_preview :: "signal \<Rightarrow> json option"

text \<open>
  The default methods of the trait: a provider that implements only \<open>send\<close> returns no reference,
  resolves nothing by key and shows no preview.
\<close>

definition default_send_with_ref ::
    "(signal \<Rightarrow> nat \<Rightarrow> (signal_error, unit) res) \<Rightarrow> signal \<Rightarrow> string option \<Rightarrow> nat \<Rightarrow> (signal_error, string option) res" where
  "default_send_with_ref send sg alert_ref k =
     (case send sg k of Inl e \<Rightarrow> Err e | Inr _ \<Rightarrow> Ok None)"

definition plain_provider :: "string \<Rightarrow> (signal \<Rightarrow> nat \<Rightarrow> (signal_error, unit) res) \<Rightarrow> provider" where
  "plain_provider n send = \<lparr>pv_name = n, pv_send_with_ref = default_send_with_ref send,
     pv_resolves_by_key = False, pv_preview = (\<lambda>_. None)\<rparr>"

text \<open>\<open>SignalError\<close> as text, from its \<open>thiserror\<close> attributes. A \<open>Duration\<close> prints with \<open>{:?}\<close>.\<close>

definition debug_duration :: "nat \<Rightarrow> string" where
  "debug_duration ms =
     (if ms < 1000 then show_nat ms @ ''ms''
      else if ms mod 1000 = 0 then show_nat (ms div 1000) @ ''s''
      else show_nat (ms div 1000) @ ''.'' @
        rev (dropWhile (\<lambda>c. c = CHR ''0'') (rev (drop 1 (show_nat (1000 + ms mod 1000))))) @ ''s'')"

fun error_display :: "signal_error \<Rightarrow> string" where
  "error_display (Validation m) = ''validation failed: '' @ m"
| "error_display (Config_Error m) = ''config error: '' @ m"
| "error_display (Delivery_Error m) = ''delivery failed: '' @ m"
| "error_display (Sink_Error m) = ''sink write failed: '' @ m"
| "error_display (Timeout ms) = ''timeout after '' @ debug_duration ms"
| "error_display (Internal m) = ''internal error (recovered from panic): '' @ m"

lemma status_display_inj: "status_display a = status_display b \<longleftrightarrow> a = b"
  by (cases a; cases b) simp_all

end
