(* ===== verification/Templates.thy ===== *)
theory Templates
  imports Deliveries "HOL-Library.List_Lexorder" "HOL-Library.Char_ord"
begin

text \<open>
  \<^verbatim>\<open>crates/core/src/template.rs\<close>: checking a provider's templates when the config loads and
  rendering them when a signal is sent. The template engine (minijinja) is the parameter \<open>jinja\<close>:
  whether a source parses, the variables it leaves undeclared, the engine's globals, and what it
  renders to in a context.
\<close>

subsection \<open>Signals as JSON\<close>

text \<open>The \<open>Serialize\<close> of \<open>Signal\<close>; \<open>rfc\<close> is the text of a timestamp.\<close>

definition signal_json :: "(int \<Rightarrow> string) \<Rightarrow> signal \<Rightarrow> json" where
  "signal_json rfc sg = JObj
     [(''id'', JStr (sg_id sg)), (''source'', JStr (sg_source sg)), (''service'', jopt (sg_service sg)),
      (''component'', jopt (sg_component sg)), (''event_type'', JStr (sg_event_type sg)),
      (''severity'', JStr (severity_display (sg_severity sg))), (''title'', JStr (sg_title sg)),
      (''message'', jopt (sg_message sg)), (''environment'', jopt (sg_environment sg)),
      (''team'', jopt (sg_team sg)), (''run_id'', jopt (sg_run_id sg)),
      (''correlation_id'', jopt (sg_correlation_id sg)), (''trace_id'', jopt (sg_trace_id sg)),
      (''log_url'', jopt (sg_log_url sg)), (''metadata'', sg_metadata sg),
      (''timestamp'', JStr (rfc (sg_timestamp sg))), (''dedup_key'', jopt (sg_dedup_key sg)),
      (''action'', JStr (action_display (sg_action sg)))]"

subsection \<open>The engine and the template map\<close>

type_synonym template_config = "(string \<times> string) list"

type_synonym render_context = "(string \<times> json) list"

record jinja =
  jj_parse :: "string \<Rightarrow> string option"
  jj_undeclared :: "string \<Rightarrow> string list"
  jj_globals :: "string list"
  jj_render :: "string \<Rightarrow> render_context \<Rightarrow> (string, string) res"

definition SIGNAL_VARIABLES :: "string list" where
  "SIGNAL_VARIABLES = [''id'', ''source'', ''service'', ''component'', ''event_type'', ''severity'', ''title'',
     ''message'', ''environment'', ''team'', ''run_id'', ''correlation_id'', ''trace_id'', ''log_url'',
     ''metadata'', ''timestamp'', ''dedup_key'', ''action'']"

definition PROVIDERS :: "(string \<times> string list \<times> string list) list" where
  "PROVIDERS =
     [(''console'', [''text''], []), (''slack'', [''text''], [''emoji'']), (''webhook'', [''body''], []),
      (''pagerduty'', [''summary''], []), (''teams'', [''title'', ''text''], []),
      (''opsgenie'', [''message'', ''description''], []), (''email'', [''subject'', ''body''], [])]"

definition provider_spec :: "string \<Rightarrow> string list \<times> string list" where
  "provider_spec p = unwrap_or ([], []) (map_of PROVIDERS p)"

record templates =
  tm_provider :: string
  tm_parts :: template_config

subsection \<open>Compiling\<close>

definition unknown_variables :: "jinja \<Rightarrow> string list \<Rightarrow> string \<Rightarrow> string list" where
  "unknown_variables jj extras src =
     filter (\<lambda>n. n \<notin> set SIGNAL_VARIABLES \<and> n \<notin> set extras \<and> n \<notin> set (jj_globals jj)) (jj_undeclared jj src)"

text \<open>One part: it must be one the provider has, parse, and use only variables that exist.\<close>

definition check_part :: "jinja \<Rightarrow> string \<Rightarrow> string \<times> string \<Rightarrow> (signal_error, unit) res" where
  "check_part jj provider = (\<lambda>(part, src).
     let (parts, extras) = provider_spec provider;
         at = ''providers.'' @ provider @ ''.template.'' @ part
     in if part \<notin> set parts then
          Err (Config_Error (at @ '': '' @ provider @ '' has no part '' @ quoted part @ '' (templatable: '' @
            join '', '' parts @ '')''))
        else
          (case jj_parse jj src of
             Some e \<Rightarrow> Err (Config_Error (at @ '': '' @ e))
           | None \<Rightarrow>
               (let unknown = unknown_variables jj extras src in
                if unknown \<noteq> [] then
                  Err (Config_Error (at @ '': unknown variable '' @ join '', '' (sort unknown) @
                    '' (available: '' @ join '', '' (SIGNAL_VARIABLES @ extras) @ '')''))
                else Ok ())))"

definition compile :: "jinja \<Rightarrow> string \<Rightarrow> template_config \<Rightarrow> (signal_error, templates option) res" where
  "compile jj provider cfg =
     (if cfg = [] then Ok None
      else and_then (collect_res (check_part jj provider) cfg)
             (\<lambda>_. Ok (Some \<lparr>tm_provider = provider, tm_parts = cfg\<rparr>)))"

definition load :: "jinja \<Rightarrow> string \<Rightarrow> template_config \<Rightarrow> templates option" where
  "load jj provider cfg = (case compile jj provider cfg of Inr t \<Rightarrow> t | Inl _ \<Rightarrow> None)"

subsection \<open>Rendering\<close>

definition context_of :: "(int \<Rightarrow> string) \<Rightarrow> signal \<Rightarrow> render_context \<Rightarrow> render_context" where
  "context_of rfc sg extras =
     fold (\<lambda>(k, v). AList.update k v) extras
       (case signal_json rfc sg of
          JObj kvs \<Rightarrow> filter (\<lambda>(_, v). v \<noteq> JNull) kvs
        | _ \<Rightarrow> [])"

definition render_part :: "jinja \<Rightarrow> (int \<Rightarrow> string) \<Rightarrow> templates \<Rightarrow> string \<Rightarrow> signal \<Rightarrow> render_context \<Rightarrow> string option" where
  "render_part jj rfc t part sg extras =
     (case map_of (tm_parts t) part of
        None \<Rightarrow> None
      | Some src \<Rightarrow>
          (case jj_render jj src (context_of rfc sg extras) of
             Inr text \<Rightarrow> if \<not> is_blank text then Some text else None
           | Inl _ \<Rightarrow> None))"

definition render :: "jinja \<Rightarrow> (int \<Rightarrow> string) \<Rightarrow> templates option \<Rightarrow> string \<Rightarrow> signal \<Rightarrow> render_context \<Rightarrow> string option" where
  "render jj rfc ts part sg extras =
     (case ts of None \<Rightarrow> None | Some t \<Rightarrow> render_part jj rfc t part sg extras)"

subsection \<open>Facts\<close>

lemma compile_parts:
  assumes "compile jj provider cfg = Inr (Some t)"
  shows "tm_parts t = cfg" "tm_provider t = provider"
    "\<forall>(part, src) \<in> set cfg. part \<in> set (fst (provider_spec provider)) \<and> jj_parse jj src = None \<and>
       set (jj_undeclared jj src) \<subseteq> set SIGNAL_VARIABLES \<union> set (snd (provider_spec provider)) \<union> set (jj_globals jj)"
proof -
  from assms obtain us where us: "collect_res (check_part jj provider) cfg = Inr us"
    and t: "t = \<lparr>tm_provider = provider, tm_parts = cfg\<rparr>"
    by (auto simp: compile_def and_then_Inr_iff split: if_splits)
  show "tm_parts t = cfg" "tm_provider t = provider" by (simp_all add: t)
  have ok: "check_part jj provider x = Inr ()" if "x \<in> set cfg" for x
    using us that unfolding collect_res_Inr_iff by (auto simp: list_all2_conv_all_nth in_set_conv_nth)
  show "\<forall>(part, src) \<in> set cfg. part \<in> set (fst (provider_spec provider)) \<and> jj_parse jj src = None \<and>
       set (jj_undeclared jj src) \<subseteq> set SIGNAL_VARIABLES \<union> set (snd (provider_spec provider)) \<union> set (jj_globals jj)"
    using ok by (fastforce simp: check_part_def Let_def unknown_variables_def filter_empty_conv case_prod_beta
        split: if_splits option.splits)
qed

lemma render_not_blank: "render jj rfc ts part sg extras = Some text \<Longrightarrow> \<not> is_blank text"
  by (auto simp: render_def render_part_def split: option.splits sum.splits if_splits)

end
