(* ===== verification/Routing.thy ===== *)
theory Routing
  imports Signals
begin

text \<open>
  \<^verbatim>\<open>crates/core/src/routing.rs\<close>: the routes of a config, the \<open>Window\<close> durations they are written
  with, and the plan a signal gets: its delivery targets, the routes that held it back and the
  routes that group it.
\<close>

subsection \<open>Windows\<close>

text \<open>
  A \<open>Window\<close> wraps a \<open>Duration\<close> of whole seconds (a \<open>u64\<close>), here its number of seconds.
\<close>

type_synonym window = nat

definition saturating_mul_u64 :: "nat \<Rightarrow> nat \<Rightarrow> nat" where
  "saturating_mul_u64 a b = min (a * b) u64_max"

definition window_from_str :: "string \<Rightarrow> (string, window) res" where
  "window_from_str s0 =
     (let s = trim s0;
          num = takeWhile is_digit s;
          unit_text = dropWhile is_digit s
      in and_then
           (ok_or (''invalid duration '' @ debug_str s @ ''; expected e.g. 30s, 10m, 2h or 1d'')
             (parse_u64 num))
           (\<lambda>n. let u = trim unit_text in
              if u = [] \<or> u = ''s'' then Ok (saturating_mul_u64 n 1)
              else if u = ''m'' then Ok (saturating_mul_u64 n 60)
              else if u = ''h'' then Ok (saturating_mul_u64 n 3600)
              else if u = ''d'' then Ok (saturating_mul_u64 n 86400)
              else Err (''invalid duration unit '' @ debug_str u @ '' in '' @ debug_str s @
                ''; expected s, m, h or d'')))"

definition window_display :: "window \<Rightarrow> string" where
  "window_display secs =
     (case find (\<lambda>(sz, _). 0 < secs \<and> secs mod sz = 0)
             [(86400, ''d''), (3600, ''h''), (60, ''m'')] of
        Some (sz, u) \<Rightarrow> show_nat (secs div sz) @ u
      | None \<Rightarrow> show_nat secs @ ''s'')"

text \<open>A window in YAML is a number of seconds or a text; it is written back as its \<open>Display\<close>.\<close>

datatype raw_window = Secs nat | Text string

fun window_deserialize :: "raw_window \<Rightarrow> (string, window) res" where
  "window_deserialize (Secs n) = Ok n"
| "window_deserialize (Text s) = window_from_str s"

definition window_serialize :: "window \<Rightarrow> raw_window" where
  "window_serialize w = Text (window_display w)"

subsection \<open>Routes\<close>

record route_match =
  m_severity :: "severity list"
  m_environment :: "string option"
  m_source :: "string option"

datatype delivery_mode = Failover | Fanout

record rate_limit =
  rl_max :: nat
  rl_per :: window

record route =
  match_rule :: route_match
  providers :: "string list"
  mode :: delivery_mode
  dedup :: "window option"
  route_rate_limit :: "rate_limit option"
  group_by :: "string list option"
  group_wait :: "window option"

definition DEFAULT_GROUP_WAIT :: window where "DEFAULT_GROUP_WAIT = 30"

definition GROUP_FIELDS :: "string list" where
  "GROUP_FIELDS = [''source'', ''service'', ''component'', ''event_type'', ''severity'', ''title'',
     ''environment'', ''team'', ''run_id'', ''correlation_id'', ''dedup_key'']"

definition is_throttled :: "route \<Rightarrow> bool" where
  "is_throttled r = (dedup r \<noteq> None \<or> route_rate_limit r \<noteq> None)"

definition is_grouped :: "route \<Rightarrow> bool" where
  "is_grouped r = (group_by r \<noteq> None \<or> group_wait r \<noteq> None)"

definition group_window :: "route \<Rightarrow> window option" where
  "group_window r =
     (if is_grouped r then Some (unwrap_or DEFAULT_GROUP_WAIT (group_wait r)) else None)"

definition gates_signals :: "route \<Rightarrow> bool" where
  "gates_signals r = (if is_grouped r then dedup r \<noteq> None else is_throttled r)"

definition route_targets :: "route \<Rightarrow> string list list" where
  "route_targets r =
     (let names = push_new [] (providers r) in
      case mode r of Failover \<Rightarrow> [names] | Fanout \<Rightarrow> map (\<lambda>n. [n]) names)"

definition describe :: "route \<Rightarrow> string" where
  "describe r = ''['' @ join '', '' (providers r) @ '']''"

definition matches_any_severity :: "route_match \<Rightarrow> signal \<Rightarrow> bool" where
  "matches_any_severity m sg =
     (if (case m_environment m of Some env \<Rightarrow> sg_environment sg \<noteq> Some env | None \<Rightarrow> False) then False
      else if (case m_source m of Some src \<Rightarrow> sg_source sg \<noteq> src | None \<Rightarrow> False) then False
      else True)"

definition matches :: "route_match \<Rightarrow> signal \<Rightarrow> bool" where
  "matches m sg =
     (if m_severity m \<noteq> [] \<and> sg_severity sg \<notin> set (m_severity m) then False
      else matches_any_severity m sg)"

subsection \<open>Plans\<close>

record delivery_plan =
  targets :: "string list list"
  suppressed :: "string list"
  grouped :: "(nat \<times> string) list"

definition plan_providers :: "delivery_plan \<Rightarrow> string list" where
  "plan_providers p = concat (targets p)"

text \<open>The local variables of the loop of \<open>plan_with\<close>.\<close>

record plan_acc =
  seen :: "string list"
  pa_targets :: "string list list"
  failover :: "nat option"
  pa_suppressed :: "string list"
  pa_grouped :: "(nat \<times> string) list"

text \<open>The inner loop over one route's providers.\<close>

fun place_providers :: "delivery_mode \<Rightarrow> string list \<Rightarrow> plan_acc \<Rightarrow> plan_acc" where
  "place_providers m [] a = a"
| "place_providers m (name # names) a =
     (if name \<in> set (seen a) then place_providers m names a
      else
        (let a' = a\<lparr>seen := seen a @ [name]\<rparr> in
         place_providers m names
          (case (m, failover a) of
             (Fanout, _) \<Rightarrow> a'\<lparr>pa_targets := pa_targets a @ [[name]]\<rparr>
           | (Failover, Some i) \<Rightarrow>
               a'\<lparr>pa_targets := (pa_targets a)[i := (pa_targets a ! i) @ [name]]\<rparr>
           | (Failover, None) \<Rightarrow>
               a'\<lparr>failover := Some (length (pa_targets a)), pa_targets := pa_targets a @ [[name]]\<rparr>)))"

text \<open>
  The gate \<open>admit\<close> is an \<open>FnMut\<close>: it may change its captured state, which is threaded through.
\<close>

type_synonym 's gate = "route \<Rightarrow> 's \<Rightarrow> (string, unit) res \<times> 's"

definition plan_route :: "'s gate \<Rightarrow> signal \<Rightarrow> nat \<Rightarrow> route \<Rightarrow> plan_acc \<times> 's \<Rightarrow> plan_acc \<times> 's" where
  "plan_route admit sg i r as =
     (let (a, st) = as in
      if \<not> matches (match_rule r) sg then (a, st)
      else
        (let (verdict, st') = (if gates_signals r then admit r st else (Ok (), st)) in
         case verdict of
           Inl reason \<Rightarrow>
             (a\<lparr>pa_suppressed := pa_suppressed a @ [''route '' @ describe r @ '': '' @ reason]\<rparr>, st')
         | Inr _ \<Rightarrow>
             (case group_window r of
                Some wait \<Rightarrow>
                  (a\<lparr>pa_grouped := pa_grouped a @
                      [(i, ''route '' @ describe r @ '': held for a digest (group_wait '' @
                           window_display wait @ '')'')]\<rparr>, st')
              | None \<Rightarrow> (place_providers (mode r) (providers r) a, st'))))"

fun plan_loop :: "'s gate \<Rightarrow> signal \<Rightarrow> nat \<Rightarrow> route list \<Rightarrow> plan_acc \<times> 's \<Rightarrow> plan_acc \<times> 's" where
  "plan_loop admit sg i [] as = as"
| "plan_loop admit sg i (r # rs) as = plan_loop admit sg (Suc i) rs (plan_route admit sg i r as)"

definition empty_acc :: plan_acc where
  "empty_acc = \<lparr>seen = [], pa_targets = [], failover = None, pa_suppressed = [], pa_grouped = []\<rparr>"

definition plan_with :: "'s gate \<Rightarrow> route list \<Rightarrow> signal \<Rightarrow> 's \<Rightarrow> delivery_plan \<times> 's" where
  "plan_with admit routes sg st0 =
     (let (a, st) = plan_loop admit sg 0 routes (empty_acc, st0);
          ts = (if pa_targets a = [] \<and> pa_suppressed a = [] \<and> pa_grouped a = []
                then [[''console'']] else pa_targets a)
      in (\<lparr>targets = ts, suppressed = pa_suppressed a, grouped = pa_grouped a\<rparr>, st))"

definition admit_all :: "unit gate" where
  "admit_all r st = (Ok (), st)"

definition plan :: "route list \<Rightarrow> signal \<Rightarrow> delivery_plan" where
  "plan routes sg = fst (plan_with admit_all routes sg ())"

definition resolve :: "route list \<Rightarrow> signal \<Rightarrow> string list" where
  "resolve routes sg = plan_providers (plan routes sg)"

definition providers_any_severity :: "route list \<Rightarrow> signal \<Rightarrow> string list" where
  "providers_any_severity routes sg =
     foldl (\<lambda>names r. push_new names (providers r)) []
       (filter (\<lambda>r. matches_any_severity (match_rule r) sg) routes)"

subsection \<open>Windows print and parse\<close>

lemma takeWhile_digits: "list_all is_digit ds \<Longrightarrow> u = [] \<or> \<not> is_digit (hd u) \<Longrightarrow>
    takeWhile is_digit (ds @ u) = ds \<and> dropWhile is_digit (ds @ u) = u"
  by (induction ds) (cases u; auto)+

lemma trim_digits_unit:
  assumes "ds \<noteq> []" "list_all is_digit ds" "\<not> is_ws c"
  shows "trim (ds @ [c]) = ds @ [c]"
proof (rule trim_id)
  have "\<not> is_ws (hd ds)" using assms(1,2) is_digit_not_ws by (cases ds) auto
  then show "ds @ [c] = [] \<or> \<not> is_ws (hd (ds @ [c])) \<and> \<not> is_ws (last (ds @ [c]))"
    using assms by simp
qed

lemma window_from_str_parts:
  assumes "n \<le> u64_max" "(c, k) \<in> {(CHR ''s'', 1), (CHR ''m'', 60), (CHR ''h'', 3600), (CHR ''d'', 86400)}"
  shows "window_from_str (show_nat n @ [c]) = Inr (saturating_mul_u64 n k)"
proof -
  have c: "\<not> is_ws c" "\<not> is_digit c"
    using assms(2) by (auto simp: is_ws_def is_digit_def)
  have t: "trim (show_nat n @ [c]) = show_nat n @ [c]"
    using c by (simp add: trim_digits_unit show_nat_digits)
  have w: "takeWhile is_digit (show_nat n @ [c]) = show_nat n"
          "dropWhile is_digit (show_nat n @ [c]) = [c]"
    using c takeWhile_digits [OF show_nat_digits, of "[c]" n] by auto
  have "trim [c] = [c]" using c by (simp add: trim_id)
  then show ?thesis
    using assms by (auto simp: window_from_str_def Let_def t w parse_u64_show_nat ok_or_def)
qed

lemma window_display_cases:
  "\<exists>n c k. window_display w = show_nat n @ [c] \<and> n * k = w \<and>
     (c, k) \<in> {(CHR ''s'', 1), (CHR ''m'', 60), (CHR ''h'', 3600), (CHR ''d'', 86400)}"
proof -
  consider "0 < w \<and> w mod 86400 = 0" | "0 < w \<and> w mod 86400 \<noteq> 0 \<and> w mod 3600 = 0"
    | "0 < w \<and> w mod 86400 \<noteq> 0 \<and> w mod 3600 \<noteq> 0 \<and> w mod 60 = 0"
    | "\<not> 0 < w \<or> w mod 86400 \<noteq> 0 \<and> w mod 3600 \<noteq> 0 \<and> w mod 60 \<noteq> 0" by blast
  then show ?thesis
  proof cases
    case 1
    then have "window_display w = show_nat (w div 86400) @ [CHR ''d'']" "w div 86400 * 86400 = w"
      by (auto simp: window_display_def)
    then show ?thesis by blast
  next
    case 2
    then have "window_display w = show_nat (w div 3600) @ [CHR ''h'']" "w div 3600 * 3600 = w"
      by (auto simp: window_display_def)
    then show ?thesis by blast
  next
    case 3
    then have "window_display w = show_nat (w div 60) @ [CHR ''m'']" "w div 60 * 60 = w"
      by (auto simp: window_display_def)
    then show ?thesis by blast
  next
    case 4
    then have "window_display w = show_nat w @ [CHR ''s'']" "w * 1 = w"
      by (auto simp: window_display_def)
    then show ?thesis by blast
  qed
qed

text \<open>
  Every window a \<open>u64\<close> of seconds can hold is read back as itself from the text it prints
  as: the unit \<open>Display\<close> picks divides the window, so no second is lost and nothing saturates.
\<close>

theorem window_roundtrip:
  assumes "w \<le> u64_max"
  shows "window_deserialize (window_serialize w) = Inr w"
proof -
  obtain n c k where d: "window_display w = show_nat n @ [c]" and nk: "n * k = w"
    and ck: "(c, k) \<in> {(CHR ''s'', 1), (CHR ''m'', 60), (CHR ''h'', 3600), (CHR ''d'', 86400)}"
    using window_display_cases by blast
  have "n * 1 \<le> n * k" using ck by (intro mult_le_mono) auto
  with nk assms have "n \<le> u64_max" by simp
  from window_from_str_parts [OF this ck] show ?thesis
    using assms by (simp add: window_serialize_def d nk saturating_mul_u64_def)
qed

theorem window_roundtrip_witness:
  "window_display 7200 = ''2h'' \<and> window_deserialize (window_serialize 7200) = Inr 7200"
proof -
  have "(7200::nat) \<le> u64_max" by (simp add: u64_max_def)
  from window_roundtrip [OF this] show ?thesis
    by (simp add: window_display_def show_nat.simps)
qed

text \<open>Parsing never yields a window outside \<open>u64\<close>, however large the number before the unit.\<close>

lemma window_from_str_bound: "window_from_str s = Inr w \<Longrightarrow> w \<le> u64_max"
  by (auto simp: window_from_str_def Let_def saturating_mul_u64_def and_then_Inr_iff split: if_splits)

subsection \<open>The plan, declaratively\<close>

text \<open>
  What the loop computes, without its bookkeeping: every matching route has a fate, the providers
  of the routes that send are listed once each with the mode of the first route naming them, and
  the targets are read off that list: the \<open>Fanout\<close> names one by one, and all \<open>Failover\<close> names as
  one chain at the place of the first of them.
\<close>

datatype fate = Held string | Digest_Wait window | Sends

fun fates :: "'s gate \<Rightarrow> signal \<Rightarrow> nat \<Rightarrow> route list \<Rightarrow> 's \<Rightarrow> (nat \<times> route \<times> fate) list \<times> 's" where
  "fates admit sg i [] st = ([], st)"
| "fates admit sg i (r # rs) st =
     (if matches (match_rule r) sg then
        (let (verdict, st1) = (if gates_signals r then admit r st else (Inr (), st));
             f = (case verdict of Inl reason \<Rightarrow> Held reason
                  | Inr _ \<Rightarrow> (case group_window r of Some w \<Rightarrow> Digest_Wait w | None \<Rightarrow> Sends));
             (fs, st2) = fates admit sg (Suc i) rs st1
         in ((i, r, f) # fs, st2))
      else fates admit sg (Suc i) rs st)"

fun push_named :: "(string \<times> delivery_mode) list \<Rightarrow> (string \<times> delivery_mode) list \<Rightarrow>
    (string \<times> delivery_mode) list" where
  "push_named out [] = out"
| "push_named out ((n, m) # xs) =
     (if n \<in> fst ` set out then push_named out xs else push_named (out @ [(n, m)]) xs)"

definition fanouts :: "(string \<times> delivery_mode) list \<Rightarrow> string list" where
  "fanouts nm = map fst (filter (\<lambda>(n, m). m = Fanout) nm)"

definition failovers :: "(string \<times> delivery_mode) list \<Rightarrow> string list" where
  "failovers nm = map fst (filter (\<lambda>(n, m). m = Failover) nm)"

fun spec_targets :: "(string \<times> delivery_mode) list \<Rightarrow> string list list" where
  "spec_targets [] = []"
| "spec_targets ((n, Fanout) # nm) = [n] # spec_targets nm"
| "spec_targets ((n, Failover) # nm) = (n # failovers nm) # map (\<lambda>x. [x]) (fanouts nm)"

definition route_names :: "route \<Rightarrow> (string \<times> delivery_mode) list" where
  "route_names r = map (\<lambda>n. (n, mode r)) (providers r)"

fun held_line :: "nat \<times> route \<times> fate \<Rightarrow> string list" where
  "held_line (i, r, Held reason) = [''route '' @ describe r @ '': '' @ reason]"
| "held_line _ = []"

fun digest_line :: "nat \<times> route \<times> fate \<Rightarrow> (nat \<times> string) list" where
  "digest_line (i, r, Digest_Wait w) =
     [(i, ''route '' @ describe r @ '': held for a digest (group_wait '' @ window_display w @ '')'')]"
| "digest_line _ = []"

fun send_names :: "nat \<times> route \<times> fate \<Rightarrow> (string \<times> delivery_mode) list" where
  "send_names (i, r, Sends) = route_names r"
| "send_names _ = []"

definition spec_plan :: "(nat \<times> route \<times> fate) list \<Rightarrow> delivery_plan" where
  "spec_plan fs =
     (let ts = spec_targets (push_named [] (concat (map send_names fs)));
          held = concat (map held_line fs);
          dig = concat (map digest_line fs)
      in \<lparr>targets = (if ts = [] \<and> held = [] \<and> dig = [] then [[''console'']] else ts),
          suppressed = held, grouped = dig\<rparr>)"

subsection \<open>The loop computes the declarative plan\<close>

lemma spec_targets_snoc_Fanout:
  "spec_targets (nm @ [(n, Fanout)]) = spec_targets nm @ [[n]]"
  by (induction nm rule: spec_targets.induct) (auto simp: fanouts_def failovers_def)

definition failover_pos :: "(string \<times> delivery_mode) list \<Rightarrow> nat option" where
  "failover_pos nm =
     (if failovers nm = [] then None
      else Some (length (takeWhile (\<lambda>(n, m). m = Fanout) nm)))"

lemma failovers_append [simp]: "failovers (xs @ ys) = failovers xs @ failovers ys"
  by (simp add: failovers_def)

lemma fanouts_append [simp]: "fanouts (xs @ ys) = fanouts xs @ fanouts ys"
  by (simp add: fanouts_def)

lemma failovers_Cons [simp]:
  "failovers ((n, Failover) # xs) = n # failovers xs" "failovers ((n, Fanout) # xs) = failovers xs"
  "failovers [] = []"
  by (simp_all add: failovers_def)

lemma fanouts_Cons [simp]:
  "fanouts ((n, Fanout) # xs) = n # fanouts xs" "fanouts ((n, Failover) # xs) = fanouts xs"
  "fanouts [] = []"
  by (simp_all add: fanouts_def)

lemma spec_targets_snoc_first:
  "failovers nm = [] \<Longrightarrow> spec_targets (nm @ [(n, Failover)]) = spec_targets nm @ [[n]] \<and>
     length (takeWhile (\<lambda>(n, m). m = Fanout) (nm @ [(n, Failover)])) = length (spec_targets nm)"
  by (induction nm rule: spec_targets.induct) auto

lemma spec_targets_snoc_later:
  assumes "failovers nm \<noteq> []"
  shows "(let i = length (takeWhile (\<lambda>(n, m). m = Fanout) nm) in
      i < length (spec_targets nm) \<and>
      spec_targets (nm @ [(n, Failover)]) =
        (spec_targets nm)[i := (spec_targets nm ! i) @ [n]] \<and>
      length (takeWhile (\<lambda>(n, m). m = Fanout) (nm @ [(n, Failover)])) = i)"
  using assms by (induction nm rule: spec_targets.induct) (auto simp: Let_def)

definition acc_of :: "(string \<times> delivery_mode) list \<Rightarrow> plan_acc \<Rightarrow> plan_acc" where
  "acc_of nm a = a\<lparr>seen := map fst nm, pa_targets := spec_targets nm, failover := failover_pos nm\<rparr>"

lemma acc_of_simps [simp]:
  "seen (acc_of nm a) = map fst nm" "pa_targets (acc_of nm a) = spec_targets nm"
  "failover (acc_of nm a) = failover_pos nm" "pa_suppressed (acc_of nm a) = pa_suppressed a"
  "pa_grouped (acc_of nm a) = pa_grouped a"
  by (simp_all add: acc_of_def)

lemma place_one_Fanout:
  "(acc_of nm a)\<lparr>seen := map fst nm @ [n], pa_targets := spec_targets nm @ [[n]]\<rparr>
     = acc_of (nm @ [(n, Fanout)]) a"
  by (simp add: acc_of_def spec_targets_snoc_Fanout failover_pos_def takeWhile_append takeWhile_tail)
     (auto simp: failovers_def filter_empty_conv takeWhile_eq_all_conv)

lemma place_one_first:
  assumes "failover_pos nm = None"
  shows "(acc_of nm a)\<lparr>seen := map fst nm @ [n], failover := Some (length (spec_targets nm)),
            pa_targets := spec_targets nm @ [[n]]\<rparr> = acc_of (nm @ [(n, Failover)]) a"
proof -
  from assms have "failovers nm = []" by (simp add: failover_pos_def split: if_splits)
  from spec_targets_snoc_first [OF this, of n] show ?thesis
    by (simp add: acc_of_def failover_pos_def)
qed

lemma place_one_later:
  assumes "failover_pos nm = Some i"
  shows "(acc_of nm a)\<lparr>seen := map fst nm @ [n],
            pa_targets := (spec_targets nm)[i := (spec_targets nm ! i) @ [n]]\<rparr>
         = acc_of (nm @ [(n, Failover)]) a"
proof -
  from assms have f: "failovers nm \<noteq> []"
    and i: "i = length (takeWhile (\<lambda>(n, m). m = Fanout) nm)"
    by (auto simp: failover_pos_def split: if_splits)
  from spec_targets_snoc_later [OF f, of n] f show ?thesis
    by (simp add: acc_of_def failover_pos_def i Let_def)
qed

lemma place_providers_spec:
  "place_providers m names (acc_of nm a) = acc_of (push_named nm (map (\<lambda>n. (n, m)) names)) a"
proof (induction names arbitrary: nm)
  case (Cons n names)
  show ?case
  proof (cases "n \<in> fst ` set nm")
    case True
    then show ?thesis using Cons.IH by simp
  next
    case False
    show ?thesis
    proof (cases m)
      case Fanout
      have "place_providers Fanout (n # names) (acc_of nm a)
          = place_providers Fanout names (acc_of (nm @ [(n, Fanout)]) a)"
        using False by (simp flip: place_one_Fanout)
      with Cons.IH [of "nm @ [(n, Fanout)]"] False Fanout show ?thesis by simp
    next
      case Failover
      have "place_providers Failover (n # names) (acc_of nm a)
          = place_providers Failover names (acc_of (nm @ [(n, Failover)]) a)"
      proof (cases "failover_pos nm")
        case None
        with False show ?thesis by (simp flip: place_one_first)
      next
        case (Some i)
        with False show ?thesis by (simp flip: place_one_later)
      qed
      with Cons.IH [of "nm @ [(n, Failover)]"] False Failover show ?thesis by simp
    qed
  qed
qed simp

lemma push_named_append: "push_named out (xs @ ys) = push_named (push_named out xs) ys"
  by (induction out xs rule: push_named.induct) auto

text \<open>The accumulator after the routes whose fates are \<open>fs\<close>.\<close>

definition after_fates :: "(string \<times> delivery_mode) list \<Rightarrow> (nat \<times> route \<times> fate) list \<Rightarrow> plan_acc \<Rightarrow> plan_acc" where
  "after_fates nm fs a = acc_of (push_named nm (concat (map send_names fs)))
     (a\<lparr>pa_suppressed := pa_suppressed a @ concat (map held_line fs),
        pa_grouped := pa_grouped a @ concat (map digest_line fs)\<rparr>)"

lemma after_fates_Nil [simp]: "after_fates nm [] a = acc_of nm a"
  by (simp add: after_fates_def)

lemma after_fates_Cons:
  "after_fates nm (f # fs) a =
     after_fates (push_named nm (send_names f)) fs
       (a\<lparr>pa_suppressed := pa_suppressed a @ held_line f, pa_grouped := pa_grouped a @ digest_line f\<rparr>)"
  by (simp add: after_fates_def push_named_append)

lemma acc_of_update [simp]:
  "(acc_of nm a)\<lparr>pa_suppressed := x\<rparr> = acc_of nm (a\<lparr>pa_suppressed := x\<rparr>)"
  "(acc_of nm a)\<lparr>pa_grouped := y\<rparr> = acc_of nm (a\<lparr>pa_grouped := y\<rparr>)"
  by (simp_all add: acc_of_def)

lemma acc_self_update [simp]:
  "a\<lparr>pa_suppressed := pa_suppressed a\<rparr> = a" "a\<lparr>pa_grouped := pa_grouped a\<rparr> = a" for a :: plan_acc
  by simp_all

lemma plan_loop_spec:
  "plan_loop admit sg i rs (acc_of nm a, st) =
     (case fates admit sg i rs st of (fs, st') \<Rightarrow> (after_fates nm fs a, st'))"
proof (induction rs arbitrary: i nm a st)
  case (Cons r rs)
  show ?case
  proof (cases "matches (match_rule r) sg")
    case False
    then show ?thesis using Cons.IH by (simp add: plan_route_def)
  next
    case True
    obtain verdict st1 where v: "(if gates_signals r then admit r st else (Inr (), st)) = (verdict, st1)"
      by fastforce
    define f where "f = (case verdict of Inl reason \<Rightarrow> Held reason
        | Inr _ \<Rightarrow> (case group_window r of Some w \<Rightarrow> Digest_Wait w | None \<Rightarrow> Sends))"
    have step: "plan_route admit sg i r (acc_of nm a, st) =
        (acc_of (push_named nm (send_names (i, r, f)))
           (a\<lparr>pa_suppressed := pa_suppressed a @ held_line (i, r, f),
              pa_grouped := pa_grouped a @ digest_line (i, r, f)\<rparr>), st1)"
      using True
      by (auto simp: plan_route_def v f_def place_providers_spec route_names_def
          split: sum.splits option.splits)
    obtain fs st2 where fs: "fates admit sg (Suc i) rs st1 = (fs, st2)" by fastforce
    have "fates admit sg i (r # rs) st = ((i, r, f) # fs, st2)"
      using True by (simp add: v fs f_def)
    then show ?thesis
      by (simp add: step Cons.IH fs after_fates_Cons)
  qed
qed simp

lemma after_fates_simps:
  "pa_targets (after_fates nm fs a) = spec_targets (push_named nm (concat (map send_names fs)))"
  "pa_suppressed (after_fates nm fs a) = pa_suppressed a @ concat (map held_line fs)"
  "pa_grouped (after_fates nm fs a) = pa_grouped a @ concat (map digest_line fs)"
  by (simp_all add: after_fates_def)

lemma empty_acc_simps:
  "pa_suppressed empty_acc = []" "pa_grouped empty_acc = []"
  by (simp_all add: empty_acc_def)

lemma empty_acc_of: "empty_acc = acc_of [] empty_acc"
  by (simp add: acc_of_def empty_acc_def failover_pos_def)

lemma plan_with_fates:
  "plan_with admit routes sg st = map_prod spec_plan id (fates admit sg 0 routes st)"
proof -
  obtain fs st' where fs: "fates admit sg 0 routes st = (fs, st')" by fastforce
  let ?a = "after_fates [] fs empty_acc"
  have loop: "plan_loop admit sg 0 routes (empty_acc, st) = (?a, st')"
    by (subst empty_acc_of) (simp only: plan_loop_spec fs prod.case)
  have parts: "pa_targets ?a = spec_targets (push_named [] (concat (map send_names fs)))"
    "pa_suppressed ?a = concat (map held_line fs)" "pa_grouped ?a = concat (map digest_line fs)"
    by (simp_all only: after_fates_simps empty_acc_simps append_Nil)
  show ?thesis
    by (simp only: plan_with_def loop fs Let_def prod.case parts spec_plan_def map_prod_simp id_apply)
qed

subsection \<open>Facts about the declarative plan\<close>

lemma concat_singles [simp]: "concat (map (\<lambda>x. [x]) xs) = xs"
  by (induction xs) auto

lemma set_failovers_fanouts: "set (failovers nm) \<union> set (fanouts nm) = fst ` set nm"
proof (induction nm)
  case (Cons x nm)
  obtain n m where "x = (n, m)" by fastforce
  with Cons show ?case by (cases m) auto
qed simp

lemma set_spec_targets [simp]: "set (concat (spec_targets nm)) = fst ` set nm"
proof (induction nm rule: spec_targets.induct)
  case (3 n nm)
  show ?case using set_failovers_fanouts [of nm] by auto
qed simp_all

lemma distinct_failovers_fanouts:
  "distinct (map fst nm) \<Longrightarrow> distinct (failovers nm) \<and> distinct (fanouts nm) \<and>
     set (failovers nm) \<inter> set (fanouts nm) = {} \<and> set (failovers nm) \<union> set (fanouts nm) \<subseteq> fst ` set nm"
proof (induction nm)
  case (Cons x nm)
  obtain n m where "x = (n, m)" by fastforce
  with Cons show ?case by (cases m) auto
qed simp

lemma distinct_spec_targets:
  "distinct (map fst nm) \<Longrightarrow> distinct (concat (spec_targets nm))"
proof (induction nm rule: spec_targets.induct)
  case (2 n nm)
  then show ?case using set_spec_targets [of nm] by simp
next
  case (3 n nm)
  then show ?case using distinct_failovers_fanouts [of nm] by auto
qed simp

lemma spec_targets_nonempty: "[] \<notin> set (spec_targets nm)"
  by (induction nm rule: spec_targets.induct) auto

lemma spec_targets_Nil_iff [simp]: "spec_targets nm = [] \<longleftrightarrow> nm = []"
  by (cases nm rule: spec_targets.cases) auto

lemma distinct_push_named [simp]:
  "distinct (map fst (push_named out xs)) \<longleftrightarrow> distinct (map fst out)"
  by (induction out xs rule: push_named.induct) auto

lemma set_push_named [simp]: "fst ` set (push_named out xs) = fst ` set out \<union> fst ` set xs"
  by (induction out xs rule: push_named.induct) auto

lemma push_named_Nil_iff: "push_named out xs = [] \<longleftrightarrow> out = [] \<and> xs = []"
  by (induction out xs rule: push_named.induct) auto

lemma push_named_modes:
  "(n, m) \<in> set (push_named out xs) \<Longrightarrow> (n, m) \<in> set out \<union> set xs"
  by (induction out xs rule: push_named.induct) (auto split: if_splits)

lemma spec_plan_wf:
  "distinct (plan_providers (spec_plan fs)) \<and> [] \<notin> set (targets (spec_plan fs))"
  by (simp add: spec_plan_def plan_providers_def distinct_spec_targets spec_targets_nonempty)

lemma plan_with_wf:
  assumes "plan_with admit routes sg st = (p, st')"
  shows "distinct (plan_providers p)" and "[] \<notin> set (targets p)"
proof -
  from assms obtain fs where "p = spec_plan fs"
    by (cases "fates admit sg 0 routes st") (auto simp: plan_with_fates)
  with spec_plan_wf [of fs] show "distinct (plan_providers p)" and "[] \<notin> set (targets p)"
    by simp_all
qed

lemma plan_pair: "plan_with admit_all routes sg () = (plan routes sg, ())"
  by (simp add: plan_def prod_eq_iff)

lemma fates_no_match:
  "\<forall>r \<in> set rs. \<not> matches (match_rule r) sg \<Longrightarrow> fates admit sg i rs st = ([], st)"
  by (induction rs arbitrary: i) auto

lemma fates_set:
  "fates admit sg i rs st = (fs, st') \<Longrightarrow> (j, r, f) \<in> set fs \<Longrightarrow>
     i \<le> j \<and> j < i + length rs \<and> rs ! (j - i) = r \<and> matches (match_rule r) sg \<and>
     (f = Sends \<longrightarrow> \<not> is_grouped r) \<and> (\<forall>w. f = Digest_Wait w \<longrightarrow> group_window r = Some w) \<and>
     (\<forall>why. f = Held why \<longrightarrow> gates_signals r)"
proof (induction rs arbitrary: i fs st)
  case (Cons r0 rs)
  show ?case
  proof (cases "matches (match_rule r0) sg")
    case False
    with Cons.prems Cons.IH [of "Suc i" st fs] show ?thesis by (auto simp: nth_Cons')
  next
    case True
    obtain verdict st1 where v: "(if gates_signals r0 then admit r0 st else (Inr (), st)) = (verdict, st1)"
      by fastforce
    obtain fs' st2 where fs': "fates admit sg (Suc i) rs st1 = (fs', st2)" by fastforce
    with Cons.prems True v have fs'': "fates admit sg (Suc i) rs st1 = (fs', st')" by simp
    from Cons.prems True have "fs = (i, r0, case verdict of Inl reason \<Rightarrow> Held reason
        | Inr _ \<Rightarrow> (case group_window r0 of Some w \<Rightarrow> Digest_Wait w | None \<Rightarrow> Sends)) # fs'"
      by (simp add: v fs')
    with Cons.prems Cons.IH [OF fs''] True v show ?thesis
      by (auto simp: nth_Cons' group_window_def split: sum.splits option.splits if_splits)
  qed
qed simp

lemma fates_mem:
  assumes "fates admit sg i rs st = (fs, st')" and "(j, r, f) \<in> set fs"
  shows "r \<in> set rs" and "matches (match_rule r) sg"
proof -
  from fates_set [OF assms] have "r = rs ! (j - i)" "j - i < length rs" and m: "matches (match_rule r) sg"
    by auto
  then show "r \<in> set rs" by simp
  show "matches (match_rule r) sg" by (rule m)
qed

lemma concat_send_names:
  assumes "fates admit sg i rs st = (fs, st')"
  shows "set (concat (map send_names fs)) \<subseteq>
     (\<Union>r \<in> {r \<in> set rs. matches (match_rule r) sg \<and> \<not> is_grouped r}. set (route_names r))"
proof
  fix x assume "x \<in> set (concat (map send_names fs))"
  then obtain j r f where f: "(j, r, f) \<in> set fs" and x: "x \<in> set (send_names (j, r, f))" by auto
  then have "f = Sends" and "x \<in> set (route_names r)" by (cases f; simp)+
  with fates_set [OF assms f] fates_mem [OF assms f] show "x \<in> (\<Union>r \<in> {r \<in> set rs. matches (match_rule r) sg \<and> \<not> is_grouped r}. set (route_names r))"
    by auto
qed

lemma concat_send_names_open:
  "\<forall>r \<in> set rs. \<not> is_grouped r \<Longrightarrow> fates admit_all sg i rs st = (fs, st') \<Longrightarrow>
     concat (map send_names fs) = concat (map route_names (filter (\<lambda>r. matches (match_rule r) sg) rs)) \<and>
     concat (map held_line fs) = [] \<and> concat (map digest_line fs) = []"
proof (induction rs arbitrary: i fs st)
  case (Cons r rs)
  then show ?case
    by (cases "fates admit_all sg (Suc i) rs st")
      (auto simp: admit_all_def group_window_def split: if_splits prod.splits)
qed auto

lemma set_route_names [simp]: "fst ` set (route_names r) = set (providers r)"
  by (force simp: route_names_def)

lemma fst_set_concat_route_names:
  "fst ` set (concat (map route_names rs)) = (\<Union>r \<in> set rs. set (providers r))"
  by (induction rs) (simp_all add: image_Un)

lemma set_plan_providers_subset:
  assumes "plan_with admit routes sg st = (p, st')"
  shows "set (plan_providers p) \<subseteq> insert ''console''
     (\<Union>r \<in> {r \<in> set routes. matches (match_rule r) sg \<and> \<not> is_grouped r}. set (providers r))"
proof -
  from assms obtain fs where fs: "fates admit sg 0 routes st = (fs, st')" and p: "p = spec_plan fs"
    by (cases "fates admit sg 0 routes st") (auto simp: plan_with_fates)
  have "fst ` set (concat (map send_names fs)) \<subseteq> fst `
     (\<Union>r \<in> {r \<in> set routes. matches (match_rule r) sg \<and> \<not> is_grouped r}. set (route_names r))"
    by (rule image_mono) (rule concat_send_names [OF fs])
  also have "\<dots> = (\<Union>r \<in> {r \<in> set routes. matches (match_rule r) sg \<and> \<not> is_grouped r}. set (providers r))"
    by (simp add: image_UN)
  finally show ?thesis
    using set_push_named [of "[]" "concat (map send_names fs)"]
    by (auto simp: p spec_plan_def plan_providers_def Let_def simp del: set_concat set_map)
qed

lemma all_failover_spec_targets:
  assumes "\<forall>(n, m) \<in> set nm. m = Failover"
  shows "spec_targets nm = (if nm = [] then [] else [map fst nm])"
proof -
  have "failovers xs = map fst xs \<and> fanouts xs = []" if "\<forall>(n, m) \<in> set xs. m = Failover" for xs
    using that by (induction xs) auto
  with assms show ?thesis by (cases nm rule: spec_targets.cases) auto
qed

lemma push_named_fst: "map fst (push_named out xs) = push_new (map fst out) (map fst xs)"
  by (induction out xs rule: push_named.induct) auto

lemma map_fst_route_names: "map fst (concat (map route_names rs)) = concat (map providers rs)"
  by (induction rs) (simp_all add: route_names_def o_def)

lemma set_providers_any_severity [simp]:
  "set (providers_any_severity routes sg) =
     (\<Union>r \<in> {r \<in> set routes. matches_any_severity (match_rule r) sg}. set (providers r))"
proof -
  have "set (foldl (\<lambda>names r. push_new names (providers r)) out rs) = set out \<union> (\<Union>r \<in> set rs. set (providers r))"
    for out and rs :: "route list"
    by (induction rs arbitrary: out) auto
  then show ?thesis by (simp add: providers_any_severity_def)
qed

lemma distinct_providers_any_severity [simp]: "distinct (providers_any_severity routes sg)"
proof -
  have "distinct (foldl (\<lambda>names r. push_new names (providers r)) out rs) = distinct out"
    for out and rs :: "route list"
    by (induction rs arbitrary: out) auto
  then show ?thesis by (simp add: providers_any_severity_def)
qed

lemma matches_imp_any: "matches m sg \<Longrightarrow> matches_any_severity m sg"
  by (simp add: matches_def split: if_splits)

lemma matches_any_severity_frame [simp]:
  "matches_any_severity m (sg\<lparr>sg_severity := s\<rparr>) = matches_any_severity m sg"
  by (simp add: matches_any_severity_def split: option.splits)

lemma set_route_targets: "set (concat (route_targets r)) = set (providers r)"
  by (simp add: route_targets_def Let_def split: delivery_mode.splits)

lemma distinct_route_targets: "distinct (concat (route_targets r))"
  by (simp add: route_targets_def Let_def split: delivery_mode.splits)

lemma plan_grouped_index:
  assumes "plan_with admit routes sg st = (p, st')" and "(i, d) \<in> set (grouped p)"
  shows "i < length routes"
proof -
  from assms(1) obtain fs where fs: "fates admit sg 0 routes st = (fs, st')" and p: "p = spec_plan fs"
    by (cases "fates admit sg 0 routes st") (auto simp: plan_with_fates)
  from assms(2) obtain x where x: "x \<in> set fs" "(i, d) \<in> set (digest_line x)"
    by (auto simp: p spec_plan_def Let_def)
  obtain j r f where j: "x = (j, r, f)" by (cases x)
  with x(2) have "i = j" by (cases f) auto
  with fates_set [OF fs, of j r f] x(1) j show ?thesis by simp
qed

subsection \<open>The contract of a gate with a history\<close>

text \<open>
  What the client relies on when the gate behind \<open>plan_with\<close> records the sends it admits, so that
  they can be taken back: \<open>view\<close> is the part of the gate's state that decides later questions, the
  sends of this plan left out. Asking about a route does not change the view, a refusal records
  nothing, and undoing removes exactly what was recorded. \<open>known\<close> are the routes the laws hold for.
\<close>

locale send_log =
  fixes ask :: "route \<Rightarrow> 's \<Rightarrow> (string, unit) res \<times> 's"
    and undo :: "'s \<Rightarrow> 's"
    and view :: "'s \<Rightarrow> 'v"
    and full_view :: "'s \<Rightarrow> 'v"
    and known :: "route \<Rightarrow> bool"
  assumes ask_view: "known r \<Longrightarrow> view (snd (ask r s)) = view s"
    and refusal_records_nothing: "fst (ask r s) = Inl why \<Longrightarrow> snd (ask r s) = s"
    and undo_full: "full_view (undo s) = view s"
begin

lemma fates_view:
  "\<forall>r \<in> set rs. known r \<Longrightarrow> view (snd (fates ask sg i rs s)) = view s"
proof (induction rs arbitrary: i s)
  case (Cons r rs)
  then show ?case
    using ask_view [of r s] by (auto simp: case_prod_beta Let_def)
qed simp

lemma plan_then_undo:
  "\<forall>r \<in> set routes. known r \<Longrightarrow> full_view (undo (snd (plan_with ask routes sg s))) = view s"
  by (simp add: undo_full plan_with_fates fates_view)

lemma fates_all_held:
  "\<forall>(j, r, f) \<in> set (fst (fates ask sg i rs s)). \<exists>why. f = Held why \<Longrightarrow> snd (fates ask sg i rs s) = s"
proof (induction rs arbitrary: i s)
  case (Cons r rs)
  show ?case
  proof (cases "matches (match_rule r) sg")
    case False
    with Cons show ?thesis by simp
  next
    case True
    obtain verdict s1 where v: "(if gates_signals r then ask r s else (Inr (), s)) = (verdict, s1)"
      by fastforce
    from Cons.prems True v have "\<exists>why. verdict = Inl why"
      by (auto simp: Let_def case_prod_beta split: sum.splits option.splits)
    with v have "s1 = s" using refusal_records_nothing [of r s] by (auto split: if_splits)
    with Cons True v show ?thesis by (simp add: Let_def case_prod_beta)
  qed
qed simp

lemma fully_suppressed_records_nothing:
  assumes "plan_with ask routes sg s = (p, s')" and "targets p = []" and "grouped p = []"
    and "\<forall>r \<in> set routes. providers r \<noteq> []"
  shows "s' = s"
proof -
  obtain fs where fs: "fates ask sg 0 routes s = (fs, s')" and p: "p = spec_plan fs"
    using assms(1) by (cases "fates ask sg 0 routes s") (auto simp: plan_with_fates)
  have "\<exists>why. f = Held why" if m: "(j, r, f) \<in> set fs" for j r f
  proof (cases f)
    case (Digest_Wait w)
    with m assms(3) have "digest_line (j, r, f) = []" by (auto simp: p spec_plan_def Let_def)
    with Digest_Wait show ?thesis by simp
  next
    case Sends
    from assms(2) have "push_named [] (concat (map send_names fs)) = []"
      by (simp add: p spec_plan_def Let_def split: if_splits)
    then have "concat (map send_names fs) = []" by (simp add: push_named_Nil_iff)
    with m Sends have "route_names r = []" by auto
    moreover have "r \<in> set routes" by (rule fates_mem [OF fs m])
    ultimately show ?thesis using assms(4) by (auto simp: route_names_def)
  qed simp
  then show ?thesis using fates_all_held [of sg 0 routes s] fs by fastforce
qed

end

interpretation open_gate: send_log admit_all id "\<lambda>_. ()" "\<lambda>_. ()" "\<lambda>_. True"
  by unfold_locales (simp_all add: admit_all_def)

subsection \<open>Properties\<close>

text \<open>
  C1. The planning loop, with its index of the failover target and its list of seen names, computes
  the declarative plan: the fates of the matching routes in file order (the gate asked in that
  order, its state threaded), then each provider once with the mode of its first route, fan-out
  names as targets of their own and all failover names as one chain at the first one's place.
\<close>

theorem plan_with_refines_spec:
  "plan_with admit routes sg st =
     (let (fs, st') = fates admit sg 0 routes st in (spec_plan fs, st'))"
  by (simp add: plan_with_fates map_prod_def split: prod.splits)

text \<open>
  A signal never silently disappears: a plan without targets says why (a suppressed or grouped
  route), and a signal that no route matches goes to the console, without the gate being asked.
\<close>

theorem unmatched_goes_to_console:
  assumes "\<forall>r \<in> set routes. \<not> matches (match_rule r) sg"
  shows "plan_with admit routes sg st = (\<lparr>targets = [[''console'']], suppressed = [], grouped = []\<rparr>, st)"
  using fates_no_match [OF assms, of admit 0 st] by (simp add: plan_with_fates spec_plan_def)

definition sample_signal :: signal where
  "sample_signal = from_input (\<lambda>x. x) ''id-1'' 0
     (default_input\<lparr>in_source := ''airflow'', in_event_type := ''task_failed'', in_title := ''t'',
        in_severity := Error, in_environment := Some ''prod''\<rparr>)"

definition sample_route :: "severity list \<Rightarrow> string list \<Rightarrow> route" where
  "sample_route sev ps = \<lparr>match_rule = \<lparr>m_severity = sev, m_environment = None, m_source = None\<rparr>,
     providers = ps, mode = Failover, dedup = None, route_rate_limit = None, group_by = None,
     group_wait = None\<rparr>"

theorem unmatched_goes_to_console_witness:
  "plan [sample_route [Critical] [''slack'']] sample_signal =
     \<lparr>targets = [[''console'']], suppressed = [], grouped = []\<rparr>"
proof -
  have "\<forall>r \<in> set [sample_route [Critical] [''slack'']]. \<not> matches (match_rule r) sample_signal"
    by (simp add: sample_route_def sample_signal_def matches_def default_input_def)
  from unmatched_goes_to_console [OF this, of admit_all "()"] show ?thesis by (simp add: plan_def)
qed

text \<open>
  A plan without targets is always explained: at least one matching route was suppressed or
  holds the signal for a digest.
\<close>

theorem empty_plan_is_explained:
  assumes "plan_with admit routes sg st = (p, st')" and "targets p = []"
  shows "\<not> (suppressed p = [] \<and> grouped p = []) \<and>
     (\<exists>r \<in> set routes. matches (match_rule r) sg \<and> (gates_signals r \<or> is_grouped r))"
proof -
  from assms(1) obtain fs where fs: "fates admit sg 0 routes st = (fs, st')" and p: "p = spec_plan fs"
    by (cases "fates admit sg 0 routes st") (auto simp: plan_with_fates)
  with assms(2) have n: "\<not> (suppressed p = [] \<and> grouped p = [])"
    by (auto simp: spec_plan_def Let_def split: if_splits)
  then obtain x where x: "x \<in> set fs" "held_line x \<noteq> [] \<or> digest_line x \<noteq> []"
    by (auto simp: p spec_plan_def Let_def)
  obtain j r f where "x = (j, r, f)" by (cases x)
  with x fates_set [OF fs, of j r f] fates_mem [OF fs, of j r f]
  have "\<exists>r \<in> set routes. matches (match_rule r) sg \<and> (gates_signals r \<or> is_grouped r)"
    by (cases f) (auto simp: group_window_def split: if_splits)
  with n show ?thesis by blast
qed

definition deny_all :: "unit gate" where
  "deny_all r st = (Inl ''duplicate'', st)"

theorem empty_plan_is_explained_witness:
  "\<exists>r \<in> set [(sample_route [] [''slack''])\<lparr>dedup := Some 600\<rparr>]. matches (match_rule r) sample_signal"
proof -
  let ?rs = "[(sample_route [] [''slack''])\<lparr>dedup := Some 600\<rparr>]"
  have m: "matches (match_rule ((sample_route [] [''slack''])\<lparr>dedup := Some 600\<rparr>)) sample_signal"
    by (simp add: sample_route_def matches_def matches_any_severity_def)
  have "plan_with deny_all ?rs sample_signal () =
      (\<lparr>targets = [], suppressed = [''route [slack]: duplicate''], grouped = []\<rparr>, ())"
    using m by (simp add: plan_with_def plan_route_def gates_signals_def is_grouped_def is_throttled_def
        deny_all_def empty_acc_def describe_def) (simp add: sample_route_def)
  from empty_plan_is_explained [OF this] show ?thesis by auto
qed

text \<open>
  No provider is given the same signal twice: the providers of a plan are pairwise different
  across all its targets, no target is empty, and every provider comes from a matching route that
  sends at once (or is the console fallback).
\<close>

theorem plan_providers_once:
  assumes "plan_with admit routes sg st = (p, st')"
  shows "distinct (plan_providers p) \<and> [] \<notin> set (targets p) \<and>
     (\<forall>n \<in> set (plan_providers p). n = ''console'' \<or>
        (\<exists>r \<in> set routes. matches (match_rule r) sg \<and> \<not> is_grouped r \<and> n \<in> set (providers r)))"
  using plan_with_wf [OF assms] set_plan_providers_subset [OF assms] by auto

theorem plan_providers_once_witness:
  "distinct (plan_providers (plan [sample_route [] [''slack'', ''email''],
      (sample_route [] [''email'', ''teams''])\<lparr>mode := Fanout\<rparr>] sample_signal))"
proof -
  let ?rs = "[sample_route [] [''slack'', ''email''], (sample_route [] [''email'', ''teams''])\<lparr>mode := Fanout\<rparr>]"
  from plan_providers_once [OF plan_pair, of ?rs sample_signal] show ?thesis by (rule conjunct1)
qed

text \<open>
  The gate is asked exactly about the matching routes whose history must be checked (those
  with \<open>dedup\<close>, or an ungrouped \<open>rate_limit\<close>), each once and in file order: the log of a gate that
  records its questions is that list, whatever it answers.
\<close>

theorem gate_asked_in_order:
  "snd (plan_with (\<lambda>r log. (answer r log, log @ [r])) routes sg log0) =
     log0 @ filter (\<lambda>r. matches (match_rule r) sg \<and> gates_signals r) routes"
proof -
  have "snd (fates (\<lambda>r log. (answer r log, log @ [r])) sg i routes log0) =
     log0 @ filter (\<lambda>r. matches (match_rule r) sg \<and> gates_signals r) routes" for i
    by (induction routes arbitrary: i log0) (auto split: prod.splits simp: prod_eq_iff)
  then show ?thesis by (simp add: plan_with_fates)
qed

text \<open>
  A config without fan-out, grouping or throttling delivers as it always has: one ordered
  chain, the providers of all matching routes in file order, each at its first position (or the
  console, when that chain is empty).
\<close>

theorem failover_only_plan:
  assumes "\<forall>r \<in> set routes. mode r = Failover \<and> \<not> is_grouped r"
  shows "targets (plan routes sg) =
     (let names = push_new [] (concat (map providers (filter (\<lambda>r. matches (match_rule r) sg) routes)))
      in if names = [] then [[''console'']] else [names])"
proof -
  let ?ms = "filter (\<lambda>r. matches (match_rule r) sg) routes"
  let ?nm = "push_named [] (concat (map route_names ?ms))"
  obtain fs where fs: "fates admit_all sg 0 routes () = (fs, ())" by (cases "fates admit_all sg 0 routes ()") auto
  have open_routes: "\<forall>r \<in> set routes. \<not> is_grouped r" using assms by blast
  note parts = concat_send_names_open [OF open_routes fs]
  have "\<forall>(n, m) \<in> set ?nm. m = Failover"
  proof (clarify)
    fix n m assume "(n, m) \<in> set ?nm"
    then have "(n, m) \<in> set (concat (map route_names ?ms))" using push_named_modes by fastforce
    then show "m = Failover" using assms by (auto simp: route_names_def)
  qed
  from all_failover_spec_targets [OF this]
  have "spec_targets ?nm = (if map fst ?nm = [] then [] else [map fst ?nm])" by simp
  moreover have "map fst ?nm = push_new [] (concat (map providers ?ms))"
    by (simp add: push_named_fst map_fst_route_names)
  ultimately show ?thesis
    using parts by (simp add: plan_def plan_with_fates fs spec_plan_def Let_def)
qed

theorem failover_only_plan_witness:
  "targets (plan [sample_route [Error] [''slack'', ''webhook''], sample_route [] [''webhook'', ''slack'']]
     sample_signal) = [[''slack'', ''webhook'']]"
proof -
  let ?rs = "[sample_route [Error] [''slack'', ''webhook''], sample_route [] [''webhook'', ''slack'']]"
  have "\<forall>r \<in> set ?rs. mode r = Failover \<and> \<not> is_grouped r"
    by (simp add: sample_route_def is_grouped_def)
  from failover_only_plan [OF this, of sample_signal] show ?thesis
    by (simp add: sample_route_def sample_signal_def matches_def matches_any_severity_def default_input_def)
qed

text \<open>
  The providers considered for an \<open>acknowledge\<close> or \<open>resolve\<close> without a record of its alert
  cover every provider a trigger with the same environment and source could have gone to, whatever
  its severity was (the console fallback apart), each listed once.
\<close>

theorem any_severity_covers_every_plan:
  "set (resolve routes (sg\<lparr>sg_severity := s\<rparr>)) \<subseteq>
     insert ''console'' (set (providers_any_severity routes sg)) \<and>
   distinct (providers_any_severity routes sg)"
proof -
  let ?sg = "sg\<lparr>sg_severity := s\<rparr>"
  have "{r \<in> set routes. matches (match_rule r) ?sg \<and> \<not> is_grouped r} \<subseteq>
      {r \<in> set routes. matches_any_severity (match_rule r) sg}"
    using matches_imp_any [of _ ?sg] by auto
  with set_plan_providers_subset [OF plan_pair, of routes ?sg]
  have "set (plan_providers (plan routes ?sg)) \<subseteq> insert ''console'' (set (providers_any_severity routes sg))"
    by fastforce
  then show ?thesis by (simp add: resolve_def)
qed

end
