(* ===== verification/Throttle_Store.thy ===== *)
theory Throttle_Store
  imports Routing "HOL-Library.Multiset"
begin

text \<open>
  \<^verbatim>\<open>crates/core/src/throttle.rs\<close>: the history of sends behind a route's \<open>dedup\<close> and
  \<open>rate_limit\<close>. The SQLite table \<open>throttle\<close> is the list of its rows in insertion order; each
  statement of the admission transaction may fail, which is the parameter \<open>fault\<close>, and a
  transaction that is not committed leaves the table as it was. \<open>route_key\<close> hashes the JSON of
  the route, both functions of libraries and so parameters. Times are Unix milliseconds.
\<close>

subsection \<open>The table and its statements\<close>

type_synonym row = "string \<times> string \<times> int"

type_synonym admission = "row list"

datatype sql_step = Sql_Begin | Sql_Last | Sql_Count | Sql_Insert | Sql_Prune | Sql_Commit

type_synonym fault = "sql_step \<Rightarrow> bool"

definition no_fault :: fault where "no_fault s = False"

definition i64_max :: int where "i64_max = 2 ^ 63 - 1"

definition millis :: "window \<Rightarrow> int" where
  "millis w = min (int w * 1000) i64_max"

definition ago :: "int \<Rightarrow> string" where
  "ago ms = (let secs = nat (max ms 0 div 1000) in
     if secs \<le> 59 then show_nat secs @ ''s''
     else if secs \<le> 3599 then show_nat (secs div 60) @ ''m''
     else show_nat (secs div 3600) @ ''h'')"

definition route_key :: "(string \<Rightarrow> string) \<Rightarrow> (route \<Rightarrow> string option) \<Rightarrow> route \<Rightarrow> string" where
  "route_key sha to_json r = sha (unwrap_or [] (to_json r))"

definition last_sent :: "row list \<Rightarrow> string \<Rightarrow> string \<Rightarrow> int option" where
  "last_sent rows rk key = list_max (map (\<lambda>(_, _, t). t) (filter (\<lambda>(r, k, _). r = rk \<and> k = key) rows))"

definition count_since :: "row list \<Rightarrow> string \<Rightarrow> int \<Rightarrow> nat" where
  "count_since rows rk since = length (filter (\<lambda>(r, _, t). r = rk \<and> t > since) rows)"

definition keep_window :: "window option \<Rightarrow> rate_limit option \<Rightarrow> window" where
  "keep_window dd rate = fold max (concat [case dd of None \<Rightarrow> [] | Some w \<Rightarrow> [w],
     case rate of None \<Rightarrow> [] | Some l \<Rightarrow> [rl_per l]]) 0"

definition prune :: "row list \<Rightarrow> string \<Rightarrow> int \<Rightarrow> row list" where
  "prune rows rk since = filter (\<lambda>(r, _, t). \<not> (r = rk \<and> t \<le> since)) rows"

subsection \<open>Admission\<close>

text \<open>The two checks; \<open>Some\<close> is the reason to turn the send down.\<close>

definition dedup_reason :: "row list \<Rightarrow> string \<Rightarrow> string \<Rightarrow> int \<Rightarrow> window \<Rightarrow> string option" where
  "dedup_reason rows rk key now w =
     (case last_sent rows rk key of
        Some prev \<Rightarrow>
          (if now - prev < millis w
           then Some (''duplicate of a signal sent '' @ ago (now - prev) @ '' ago (dedup '' @
             window_display w @ '')'')
           else None)
      | None \<Rightarrow> None)"

definition rate_reason :: "row list \<Rightarrow> string \<Rightarrow> int \<Rightarrow> rate_limit \<Rightarrow> string option" where
  "rate_reason rows rk now l =
     (if count_since rows rk (now - millis (rl_per l)) \<ge> rl_max l
      then Some (''rate limit of '' @ show_nat (rl_max l) @ '' per '' @ window_display (rl_per l) @
        '' reached'')
      else None)"

definition try_admit :: "fault \<Rightarrow> row list \<Rightarrow> string \<Rightarrow> string \<Rightarrow> int \<Rightarrow> window option \<Rightarrow> rate_limit option \<Rightarrow>
    (sql_step, (string, unit) res) res \<times> row list" where
  "try_admit fault rows rk key now dd rate =
     (if fault Sql_Begin then (Err Sql_Begin, rows)
      else if dd \<noteq> None \<and> fault Sql_Last then (Err Sql_Last, rows)
      else
        (case (case dd of None \<Rightarrow> None | Some w \<Rightarrow> dedup_reason rows rk key now w) of
           Some reason \<Rightarrow> (Ok (Err reason), rows)
         | None \<Rightarrow>
             (if rate \<noteq> None \<and> fault Sql_Count then (Err Sql_Count, rows)
              else
                (case (case rate of None \<Rightarrow> None | Some l \<Rightarrow> rate_reason rows rk now l) of
                   Some reason \<Rightarrow> (Ok (Err reason), rows)
                 | None \<Rightarrow>
                     (if fault Sql_Insert then (Err Sql_Insert, rows)
                      else
                        (let rows1 = rows @ [(rk, key, now)] in
                         if fault Sql_Prune then (Err Sql_Prune, rows)
                         else
                           (let rows2 = prune rows1 rk (now - millis (keep_window dd rate)) in
                            if fault Sql_Commit then (Err Sql_Commit, rows)
                            else (Ok (Ok ()), rows2))))))))"

definition check :: "fault \<Rightarrow> string \<Rightarrow> signal \<Rightarrow> int \<Rightarrow> window option \<Rightarrow> rate_limit option \<Rightarrow>
    row list \<times> admission \<Rightarrow> (string, unit) res \<times> row list \<times> admission" where
  "check fault rk sg now dd rate = (\<lambda>(rows, adm).
     if dd = None \<and> rate = None then (Ok (), rows, adm)
     else
       (let key = unwrap_or [] (sg_dedup_key sg) in
        case try_admit fault rows rk key now dd rate of
          (Inr (Inr _), rows') \<Rightarrow> (Ok (), rows', adm @ [(rk, key, now)])
        | (Inr (Inl reason), rows') \<Rightarrow> (Err reason, rows', adm)
        | (Inl _, rows') \<Rightarrow> (Ok (), rows', adm)))"

definition admit :: "(route \<Rightarrow> string) \<Rightarrow> fault \<Rightarrow> route \<Rightarrow> signal \<Rightarrow> int \<Rightarrow>
    row list \<times> admission \<Rightarrow> (string, unit) res \<times> row list \<times> admission" where
  "admit rkey fault r sg now =
     check fault (rkey r) sg now (dedup r) (if is_grouped r then None else route_rate_limit r)"

definition admit_digest :: "(route \<Rightarrow> string) \<Rightarrow> fault \<Rightarrow> route \<Rightarrow> signal \<Rightarrow> int \<Rightarrow>
    row list \<times> admission \<Rightarrow> (string, unit) res \<times> row list \<times> admission" where
  "admit_digest rkey fault r sg now =
     check fault (rkey r @ ''#digest'') sg now None (route_rate_limit r)"

text \<open>
  Taking sends back. Each \<open>DELETE ... LIMIT 1\<close> removes one row equal to the recorded one in all
  three columns; one that fails is logged and skipped.
\<close>

fun release :: "(row \<Rightarrow> bool) \<Rightarrow> admission \<Rightarrow> row list \<Rightarrow> row list" where
  "release failed [] rows = rows"
| "release failed (a # adm) rows =
     release failed adm (if failed a then rows else remove1 a rows)"

definition split_off :: "(route \<Rightarrow> string) \<Rightarrow> route \<Rightarrow> admission \<Rightarrow> admission \<times> admission" where
  "split_off rkey r adm = partition (\<lambda>(k, _, _). k = rkey r) adm"

subsection \<open>Bounds\<close>

lemma millis_bounds [simp]: "0 \<le> millis w" "millis w \<le> i64_max"
  by (simp_all add: millis_def i64_max_def)

lemma millis_mono: "v \<le> w \<Longrightarrow> millis v \<le> millis w"
  by (simp add: millis_def min_def)

lemma millis_pos_iff: "0 < millis w \<longleftrightarrow> 0 < w"
  by (simp add: millis_def i64_max_def)

lemma keep_window_ge:
  "dd = Some w \<Longrightarrow> w \<le> keep_window dd rate" "rate = Some l \<Longrightarrow> rl_per l \<le> keep_window dd rate"
  by (auto simp: keep_window_def split: option.splits)

subsection \<open>What the history decides\<close>

text \<open>
  A row of a route still matters at a time when it is younger than the longest of the route's
  windows. \<open>conf\<close> gives the windows of each route key: a key is a hash of the whole route, so it
  determines them.
\<close>

type_synonym route_conf = "string \<Rightarrow> window option \<times> rate_limit option"

definition live :: "route_conf \<Rightarrow> int \<Rightarrow> row \<Rightarrow> bool" where
  "live conf now = (\<lambda>(r, k, t). t > now - millis (case conf r of (dd, rate) \<Rightarrow> keep_window dd rate))"

lemma live_mono: "now \<le> now' \<Longrightarrow> live conf now' x \<Longrightarrow> live conf now x"
  by (auto simp: live_def split: prod.splits)

lemma filter_live_mono:
  assumes "filter (live conf now) rows = filter (live conf now) hist" and "now \<le> now'"
  shows "filter (live conf now') rows = filter (live conf now') hist"
proof -
  have "filter (live conf now') xs = filter (live conf now') (filter (live conf now) xs)" for xs
    using live_mono [OF assms(2)] by (induction xs) auto
  with assms(1) show ?thesis by metis
qed

lemma list_max_greatest: "list_max xs = Some m \<longleftrightarrow> m \<in> set xs \<and> (\<forall>x \<in> set xs. x \<le> m)"
proof -
  have "xs \<noteq> [] \<and> m = Max (set xs) \<longleftrightarrow> m \<in> set xs \<and> (\<forall>x \<in> set xs. x \<le> m)"
    by (cases "xs = []") (auto simp: eq_commute [of m "Max (set xs)"] Max_eq_iff)
  then show ?thesis by (simp only: list_max_Some)
qed

lemma sent_times:
  "t \<in> set (map (\<lambda>(_, _, t). t) (filter (\<lambda>(r, k, _). r = rk \<and> k = key) rows)) \<longleftrightarrow> (rk, key, t) \<in> set rows"
  by force

lemma last_sent_Some:
  "last_sent rows rk key = Some m \<longleftrightarrow> (rk, key, m) \<in> set rows \<and> (\<forall>t. (rk, key, t) \<in> set rows \<longrightarrow> t \<le> m)"
  unfolding last_sent_def list_max_greatest Ball_def sent_times ..

lemma last_sent_None: "last_sent rows rk key = None \<longleftrightarrow> (\<forall>t. (rk, key, t) \<notin> set rows)"
  unfolding last_sent_def list_max_None set_empty [symmetric] set_eq_iff sent_times by simp

lemma dedup_reason_set:
  "dedup_reason rows rk key now w = None \<longleftrightarrow>
     (\<forall>t. (rk, key, t) \<in> set rows \<longrightarrow> millis w \<le> now - t)"
proof (cases "last_sent rows rk key")
  case None
  then have "\<forall>t. (rk, key, t) \<notin> set rows" by (simp add: last_sent_None)
  with None show ?thesis by (simp add: dedup_reason_def)
next
  case (Some m)
  then have mem: "(rk, key, m) \<in> set rows" and max: "\<And>t. (rk, key, t) \<in> set rows \<Longrightarrow> t \<le> m"
    by (auto simp: last_sent_Some)
  have "dedup_reason rows rk key now w = None \<longleftrightarrow> millis w \<le> now - m"
    using Some by (simp add: dedup_reason_def not_less)
  also have "\<dots> \<longleftrightarrow> (\<forall>t. (rk, key, t) \<in> set rows \<longrightarrow> millis w \<le> now - t)"
    using mem max by force
  finally show ?thesis .
qed

text \<open>The checks read only live rows.\<close>

lemma dedup_reason_live:
  assumes "conf rk = (Some w, rate)"
  shows "dedup_reason (filter (live conf now) rows) rk key now w = dedup_reason rows rk key now w"
proof (cases "dedup_reason rows rk key now w")
  case None
  then have "dedup_reason (filter (live conf now) rows) rk key now w = None"
    by (auto simp: dedup_reason_set)
  with None show ?thesis by simp
next
  case (Some why)
  then obtain m where m: "last_sent rows rk key = Some m" and young: "now - m < millis w"
    by (auto simp: dedup_reason_def split: option.splits if_splits)
  have "millis w \<le> millis (keep_window (Some w) rate)" by (intro millis_mono keep_window_ge refl)
  with young have "live conf now (rk, key, m)" using assms by (simp add: live_def)
  with m have "last_sent (filter (live conf now) rows) rk key = Some m" by (auto simp: last_sent_Some)
  with m show ?thesis by (simp add: dedup_reason_def)
qed

lemma rate_reason_live:
  assumes "conf rk = (dd, Some l)"
  shows "rate_reason (filter (live conf now) rows) rk now l = rate_reason rows rk now l"
proof -
  have "millis (rl_per l) \<le> millis (keep_window dd (Some l))" by (intro millis_mono keep_window_ge refl)
  then have "count_since (filter (live conf now) rows) rk (now - millis (rl_per l)) =
      count_since rows rk (now - millis (rl_per l))"
    using assms unfolding count_since_def filter_filter
    by (intro arg_cong [where f = length] filter_cong) (auto simp: live_def)
  then show ?thesis by (simp add: rate_reason_def)
qed

subsection \<open>Requests against a history that is never pruned\<close>

record request =
  rq_fault :: fault
  rq_route :: string
  rq_key :: string
  rq_now :: int
  rq_dedup :: "window option"
  rq_rate :: "rate_limit option"

definition ask :: "request \<Rightarrow> row list \<Rightarrow> (sql_step, (string, unit) res) res \<times> row list" where
  "ask q rows = try_admit (rq_fault q) rows (rq_route q) (rq_key q) (rq_now q) (rq_dedup q) (rq_rate q)"

text \<open>The specification: the same decisions, taken over the list of all sends ever admitted.\<close>

definition refusal :: "request \<Rightarrow> row list \<Rightarrow> string option" where
  "refusal q hist =
     or_opt (case rq_dedup q of None \<Rightarrow> None
             | Some w \<Rightarrow> dedup_reason hist (rq_route q) (rq_key q) (rq_now q) w)
            (case rq_rate q of None \<Rightarrow> None | Some l \<Rightarrow> rate_reason hist (rq_route q) (rq_now q) l)"

definition ask_spec :: "request \<Rightarrow> row list \<Rightarrow> (string, unit) res \<times> row list" where
  "ask_spec q hist = (case refusal q hist of
       Some why \<Rightarrow> (Err why, hist)
     | None \<Rightarrow> (Ok (), hist @ [(rq_route q, rq_key q, rq_now q)]))"

fun serve :: "request list \<Rightarrow> row list \<Rightarrow> (sql_step, (string, unit) res) res list \<times> row list" where
  "serve [] rows = ([], rows)"
| "serve (q # qs) rows =
     (let (v, rows1) = ask q rows; (vs, rows2) = serve qs rows1 in (v # vs, rows2))"

fun serve_spec :: "request list \<Rightarrow> row list \<Rightarrow> (string, unit) res list \<times> row list" where
  "serve_spec [] hist = ([], hist)"
| "serve_spec (q # qs) hist =
     (let (v, h1) = ask_spec q hist; (vs, h2) = serve_spec qs h1 in (v # vs, h2))"

text \<open>Requests in time order, each with its route's windows, on a store that works.\<close>

fun in_order :: "route_conf \<Rightarrow> int \<Rightarrow> request list \<Rightarrow> bool" where
  "in_order conf now [] = True"
| "in_order conf now (q # qs) =
     (now \<le> rq_now q \<and> rq_fault q = no_fault \<and> conf (rq_route q) = (rq_dedup q, rq_rate q) \<and>
      in_order conf (rq_now q) qs)"

lemma ask_no_fault:
  assumes "rq_fault q = no_fault"
  shows "ask q rows = (case refusal q rows of
       Some why \<Rightarrow> (Ok (Err why), rows)
     | None \<Rightarrow> (Ok (Ok ()), prune (rows @ [(rq_route q, rq_key q, rq_now q)]) (rq_route q)
         (rq_now q - millis (keep_window (rq_dedup q) (rq_rate q)))))"
  using assms by (simp add: ask_def try_admit_def refusal_def no_fault_def Let_def split: option.splits)

lemma refusal_live:
  assumes "conf (rq_route q) = (rq_dedup q, rq_rate q)"
  shows "refusal q (filter (live conf (rq_now q)) rows) = refusal q rows"
proof -
  have "conf (rq_route q) = (Some w, rq_rate q) \<Longrightarrow> dedup_reason (filter (live conf (rq_now q)) rows)
      (rq_route q) (rq_key q) (rq_now q) w = dedup_reason rows (rq_route q) (rq_key q) (rq_now q) w" for w
    by (rule dedup_reason_live)
  moreover have "conf (rq_route q) = (rq_dedup q, Some l) \<Longrightarrow> rate_reason (filter (live conf (rq_now q)) rows)
      (rq_route q) (rq_now q) l = rate_reason rows (rq_route q) (rq_now q) l" for l
    by (rule rate_reason_live)
  ultimately show ?thesis using assms by (simp add: refusal_def split: option.splits)
qed

lemma filter_live_prune:
  assumes "conf rk = (dd, rate)"
  shows "filter (live conf now) (prune rows rk (now - millis (keep_window dd rate))) =
     filter (live conf now) rows"
  unfolding prune_def filter_filter
  by (rule filter_cong) (use assms in \<open>auto simp: live_def split: prod.splits\<close>)

lemma ask_simulates:
  assumes "rq_fault q = no_fault" and c: "conf (rq_route q) = (rq_dedup q, rq_rate q)"
    and live: "filter (live conf (rq_now q)) rows = filter (live conf (rq_now q)) hist"
  shows "fst (ask q rows) = Inr (fst (ask_spec q hist)) \<and>
     filter (live conf (rq_now q)) (snd (ask q rows)) = filter (live conf (rq_now q)) (snd (ask_spec q hist))"
proof -
  have "refusal q rows = refusal q hist"
    using refusal_live [of conf q, OF c] live by metis
  then show ?thesis
    using live by (simp add: ask_no_fault [OF assms(1)] ask_spec_def filter_live_prune [where conf = conf, OF c] split: option.splits)
qed

lemma serve_simulates:
  assumes "in_order conf now qs" and "filter (live conf now) rows = filter (live conf now) hist"
  shows "fst (serve qs rows) = map Inr (fst (serve_spec qs hist))"
  using assms
proof (induction qs arbitrary: now rows hist)
  case (Cons q qs)
  from Cons.prems have q: "now \<le> rq_now q" "rq_fault q = no_fault"
    "conf (rq_route q) = (rq_dedup q, rq_rate q)" "in_order conf (rq_now q) qs" by auto
  note sim = ask_simulates [OF q(2,3) filter_live_mono [OF Cons.prems(2) q(1)]]
  from sim Cons.IH [OF q(4) conjunct2 [OF sim]] show ?case by (simp add: case_prod_beta Let_def)
qed simp

subsection \<open>What the windows guarantee\<close>

definition apart :: "route_conf \<Rightarrow> row \<Rightarrow> row \<Rightarrow> bool" where
  "apart conf = (\<lambda>(r, k, t) (r', k', t').
     \<forall>w. r = r' \<and> k = k' \<and> fst (conf r) = Some w \<longrightarrow> millis w \<le> t' - t)"

definition sent_within :: "row list \<Rightarrow> string \<Rightarrow> int \<Rightarrow> int \<Rightarrow> nat" where
  "sent_within hist rk from until =
     length (filter (\<lambda>(r, _, t). r = rk \<and> from < t \<and> t \<le> until) hist)"

definition hist_ok :: "route_conf \<Rightarrow> int \<Rightarrow> row list \<Rightarrow> bool" where
  "hist_ok conf now hist \<longleftrightarrow>
     (\<forall>(r, k, t) \<in> set hist. t \<le> now) \<and> sorted_wrt (apart conf) hist \<and>
     (\<forall>rk l T. snd (conf rk) = Some l \<longrightarrow> sent_within hist rk (T - millis (rl_per l)) T \<le> rl_max l)"

lemma sent_within_le_count: "from \<le> now \<Longrightarrow> now - p \<le> from \<Longrightarrow> sent_within hist rk from until \<le> count_since hist rk (now - p)"
  unfolding sent_within_def count_since_def
  by (induction hist) auto

lemma sent_within_snoc [simp]:
  "sent_within (hist @ [(r, k, t)]) rk from until =
     sent_within hist rk from until + (if r = rk \<and> from < t \<and> t \<le> until then 1 else 0)"
  by (simp add: sent_within_def)

lemma hist_ok_ask:
  assumes ok: "hist_ok conf now hist" and le: "now \<le> rq_now q"
    and c: "conf (rq_route q) = (rq_dedup q, rq_rate q)"
  shows "hist_ok conf (rq_now q) (snd (ask_spec q hist))"
proof (cases "refusal q hist")
  case (Some why)
  then show ?thesis using ok le by (fastforce simp: ask_spec_def hist_ok_def)
next
  case None
  let ?x = "(rq_route q, rq_key q, rq_now q)"
  from None have dd: "\<And>w. rq_dedup q = Some w \<Longrightarrow> dedup_reason hist (rq_route q) (rq_key q) (rq_now q) w = None"
    and rr: "\<And>l. rq_rate q = Some l \<Longrightarrow> rate_reason hist (rq_route q) (rq_now q) l = None"
    by (auto simp: refusal_def or_opt_def split: option.splits)
  have times: "\<forall>(r, k, t) \<in> set (hist @ [?x]). t \<le> rq_now q"
    using ok le by (fastforce simp: hist_ok_def)
  have "apart conf x ?x" if "x \<in> set hist" for x
    using that dd c by (cases x) (auto simp: apart_def dedup_reason_set)
  then have "sorted_wrt (apart conf) (hist @ [?x])"
    using ok by (simp add: sorted_wrt_append hist_ok_def)
  moreover have "sent_within (hist @ [?x]) rk (T - millis (rl_per l)) T \<le> rl_max l"
    if l: "snd (conf rk) = Some l" for rk l T
  proof (cases "rq_route q = rk \<and> T - millis (rl_per l) < rq_now q \<and> rq_now q \<le> T")
    case True
    with l c have "rq_rate q = Some l" by auto
    from rr [OF this] True have "count_since hist rk (rq_now q - millis (rl_per l)) < rl_max l"
      by (simp add: rate_reason_def split: if_splits)
    moreover have "sent_within hist rk (T - millis (rl_per l)) T \<le> count_since hist rk (rq_now q - millis (rl_per l))"
      using True by (intro sent_within_le_count) auto
    ultimately show ?thesis using True by simp
  next
    case False
    then have "sent_within (hist @ [?x]) rk (T - millis (rl_per l)) T = sent_within hist rk (T - millis (rl_per l)) T"
      by (simp only: sent_within_snoc if_False add_0_right)
    then show ?thesis using ok l by (auto simp: hist_ok_def)
  qed
  ultimately show ?thesis using times None by (simp add: ask_spec_def hist_ok_def)
qed

subsection \<open>Taking sends back\<close>

definition no_row_fault :: "row \<Rightarrow> bool" where "no_row_fault a = False"

lemma mset_release: "mset (release no_row_fault adm rows) = mset rows - mset adm"
  by (induction adm arbitrary: rows) (simp_all add: no_row_fault_def)

lemma release_failed: "release (\<lambda>_. True) adm rows = rows"
  by (induction adm) simp_all

lemma release_subset: "mset (release failed adm rows) \<subseteq># mset rows"
proof (induction adm arbitrary: rows)
  case (Cons a adm)
  have "mset (release failed adm (remove1 a rows)) \<subseteq># mset rows"
    using Cons [of "remove1 a rows"] by (simp add: subset_mset.order_trans)
  with Cons show ?case by simp
qed simp

lemma split_off_mset:
  "split_off rkey r adm = (mine, rest) \<Longrightarrow> mset adm = mset mine + mset rest"
  by (auto simp: split_off_def partition_filter1 partition_filter2 o_def)

text \<open>The live sends of a table, and those not recorded in a pending admission.\<close>

definition live_rows :: "route_conf \<Rightarrow> int \<Rightarrow> row list \<times> admission \<Rightarrow> row multiset" where
  "live_rows conf now = (\<lambda>(rows, adm). filter_mset (live conf now) (mset rows))"

definition others_rows :: "route_conf \<Rightarrow> int \<Rightarrow> row list \<times> admission \<Rightarrow> row multiset" where
  "others_rows conf now = (\<lambda>(rows, adm). filter_mset (live conf now) (mset rows - mset adm))"

definition take_back :: "row list \<times> admission \<Rightarrow> row list \<times> admission" where
  "take_back = (\<lambda>(rows, adm). (release no_row_fault adm rows, []))"

definition conf_knows :: "route_conf \<Rightarrow> (route \<Rightarrow> string) \<Rightarrow> route \<Rightarrow> bool" where
  "conf_knows conf rkey r \<longleftrightarrow>
     conf (rkey r) = (dedup r, if is_grouped r then None else route_rate_limit r)"

lemma try_admit_result:
  "try_admit fault rows rk key now dd rate = (v, rows') \<Longrightarrow>
     (if v = Inr (Inr ()) then rows' = prune (rows @ [(rk, key, now)]) rk (now - millis (keep_window dd rate))
      else rows' = rows)"
  by (auto simp: try_admit_def Let_def split: if_splits option.splits)

lemma filter_live_prune_mset:
  assumes "conf rk = (dd, rate)"
  shows "filter_mset (live conf now) (mset (prune rows rk (now - millis (keep_window dd rate)))) =
     filter_mset (live conf now) (mset rows)"
  by (simp flip: mset_filter add: filter_live_prune [where conf = conf, OF assms])

lemma check_others:
  assumes "conf rk = (dd, rate)"
  shows "others_rows conf now (snd (check fault rk sg now dd rate st)) = others_rows conf now st"
proof -
  obtain rows adm where st: "st = (rows, adm)" by (cases st)
  let ?key = "unwrap_or [] (sg_dedup_key sg)"
  obtain v rows' where v: "try_admit fault rows rk ?key now dd rate = (v, rows')" by fastforce
  show ?thesis
  proof (cases "v = Inr (Inr ()) \<and> \<not> (dd = None \<and> rate = None)")
    case True
    with try_admit_result [OF v] have "rows' = prune (rows @ [(rk, ?key, now)]) rk (now - millis (keep_window dd rate))"
      by simp
    with True show ?thesis
      by (simp add: st check_def v Let_def others_rows_def filter_live_prune_mset [where conf = conf, OF assms] filter_diff_mset)
  next
    case False
    with try_admit_result [OF v] show ?thesis
      by (auto simp: st check_def v others_rows_def Let_def split: sum.splits)
  qed
qed

lemma check_refusal:
  assumes "fst (check fault rk sg now dd rate st) = Inl why"
  shows "snd (check fault rk sg now dd rate st) = st"
proof -
  obtain rows adm where st: "st = (rows, adm)" by (cases st)
  obtain v rows' where v: "try_admit fault rows rk (unwrap_or [] (sg_dedup_key sg)) now dd rate = (v, rows')"
    by fastforce
  from try_admit_result [OF v] assms show ?thesis
    by (auto simp: st check_def v Let_def split: sum.splits if_splits)
qed

interpretation throttle: send_log
  "\<lambda>r st. admit rkey fault r sg now st" take_back "others_rows conf now" "live_rows conf now" "conf_knows conf rkey"
proof unfold_locales
  show "conf_knows conf rkey r \<Longrightarrow> others_rows conf now (snd (admit rkey fault r sg now s)) = others_rows conf now s" for r s
    by (simp add: admit_def conf_knows_def check_others)
  show "fst (admit rkey fault r sg now s) = Inl why \<Longrightarrow> snd (admit rkey fault r sg now s) = s" for r s why
    by (simp add: admit_def check_refusal)
  show "live_rows conf now (take_back s) = others_rows conf now s" for s
    by (cases s) (simp add: live_rows_def others_rows_def take_back_def mset_release)
qed

lemmas plan_then_take_back = throttle.plan_then_undo

subsection \<open>Runs of the table\<close>

text \<open>
  What happens to the table over the life of the process: an admission transaction, with the faults it
  meets, or the release of an admission, with the deletes that fail. Beside the table a run keeps the
  sends that were recorded and not taken back, which the code does not.
\<close>

datatype throttle_event = Asked request | Took_Back "row \<Rightarrow> bool" admission

fun throttle_step :: "throttle_event \<Rightarrow> row list \<times> row list \<Rightarrow> row list \<times> row list" where
  "throttle_step (Asked q) (rows, sent) =
     (case ask q rows of (v, rows') \<Rightarrow>
        (rows', if v = Ok (Ok ()) then sent @ [(rq_route q, rq_key q, rq_now q)] else sent))"
| "throttle_step (Took_Back failed adm) (rows, sent) = (release failed adm rows, release failed adm sent)"

definition throttle_run :: "throttle_event list \<Rightarrow> row list \<times> row list \<Rightarrow> row list \<times> row list" where
  "throttle_run evs st = fold throttle_step evs st"

lemma throttle_run_simps [simp]:
  "throttle_run [] st = st"
  "throttle_run (ev # evs) st = throttle_run evs (throttle_step ev st)"
  by (simp_all add: throttle_run_def)

fun timely :: "route_conf \<Rightarrow> int \<Rightarrow> throttle_event list \<Rightarrow> bool" where
  "timely conf now [] = True"
| "timely conf now (Asked q # evs) =
     (now \<le> rq_now q \<and> conf (rq_route q) = (rq_dedup q, rq_rate q) \<and> timely conf (rq_now q) evs)"
| "timely conf now (Took_Back failed adm # evs) = timely conf now evs"

lemma filter_release:
  "filter P rows = filter P hist \<Longrightarrow> filter P (release failed adm rows) = filter P (release failed adm hist)"
proof (induction adm arbitrary: rows hist)
  case (Cons a adm)
  have "filter P (if failed a then rows else remove1 a rows) = filter P (if failed a then hist else remove1 a hist)"
    using Cons.prems by (simp add: filter_remove1)
  then show ?case unfolding release.simps by (rule Cons.IH)
qed simp

lemma sent_within_remove1: "sent_within (remove1 a hist) rk from until \<le> sent_within hist rk from until"
  unfolding sent_within_def filter_remove1 length_remove1 by simp

lemma sorted_wrt_remove1: "sorted_wrt R hist \<Longrightarrow> sorted_wrt R (remove1 a hist)"
  by (induction hist) (auto dest: subsetD [OF set_remove1_subset])

lemma hist_ok_remove1:
  assumes "hist_ok conf now hist"
  shows "hist_ok conf now (remove1 a hist)"
  unfolding hist_ok_def
proof (intro conjI allI impI)
  show "\<forall>(r, k, t) \<in> set (remove1 a hist). t \<le> now"
    using assms set_remove1_subset [of a hist] by (auto simp: hist_ok_def)
  show "sorted_wrt (apart conf) (remove1 a hist)"
    using assms by (simp add: hist_ok_def sorted_wrt_remove1)
  show "sent_within (remove1 a hist) rk (T - millis (rl_per l)) T \<le> rl_max l" if "snd (conf rk) = Some l" for rk l T
    using assms that sent_within_remove1 order_trans unfolding hist_ok_def by blast
qed

lemma hist_ok_release: "hist_ok conf now hist \<Longrightarrow> hist_ok conf now (release failed adm hist)"
  by (induction adm arbitrary: hist) (simp_all add: hist_ok_remove1)

lemma hist_ok_later: "hist_ok conf now hist \<Longrightarrow> now \<le> now' \<Longrightarrow> hist_ok conf now' hist"
  by (fastforce simp: hist_ok_def)

text \<open>A recorded send was one the specification admits; anything else leaves the table as it was.\<close>

lemma ask_records:
  assumes "ask q rows = (v, rows')"
  shows "if v = Ok (Ok ())
     then refusal q rows = None \<and> rows' = prune (rows @ [(rq_route q, rq_key q, rq_now q)]) (rq_route q)
       (rq_now q - millis (keep_window (rq_dedup q) (rq_rate q)))
     else rows' = rows"
  using assms
  by (auto simp: ask_def try_admit_def refusal_def or_opt_def Let_def split: if_splits option.splits)

lemma throttle_step_ok:
  assumes "timely conf now (ev # evs)" and "filter (live conf now) rows = filter (live conf now) sent"
    and "hist_ok conf now sent" and "throttle_step ev (rows, sent) = (rows', sent')"
  shows "\<exists>now'. timely conf now' evs \<and>
     filter (live conf now') rows' = filter (live conf now') sent' \<and> hist_ok conf now' sent'"
proof (cases ev)
  case (Asked q)
  with assms(1) have q: "now \<le> rq_now q" "conf (rq_route q) = (rq_dedup q, rq_rate q)" "timely conf (rq_now q) evs"
    by auto
  note live = filter_live_mono [OF assms(2) q(1)]
  have same: "refusal q rows = refusal q sent" using refusal_live [of conf q, OF q(2)] live by metis
  obtain v rows1 where v: "ask q rows = (v, rows1)" by fastforce
  note rec = ask_records [OF v]
  show ?thesis
  proof (cases "v = Ok (Ok ())")
    case True
    with rec same have spec: "snd (ask_spec q sent) = sent @ [(rq_route q, rq_key q, rq_now q)]"
      by (simp add: ask_spec_def)
    from True rec assms(4) Asked v have
      "rows' = prune (rows @ [(rq_route q, rq_key q, rq_now q)]) (rq_route q)
         (rq_now q - millis (keep_window (rq_dedup q) (rq_rate q)))"
      "sent' = sent @ [(rq_route q, rq_key q, rq_now q)]" by auto
    with hist_ok_ask [OF assms(3) q(1,2)] q(3) live show ?thesis
      by (auto simp: spec filter_live_prune [where conf = conf, OF q(2)])
  next
    case False
    with rec q live assms(4) hist_ok_later [OF assms(3) q(1)] Asked show ?thesis
      by (intro exI [of _ "rq_now q"]) (auto simp: v)
  qed
next
  case (Took_Back failed adm)
  with assms show ?thesis by (intro exI [of _ now]) (auto intro: filter_release hist_ok_release)
qed

lemma throttle_run_keeps:
  "timely conf now evs \<Longrightarrow> filter (live conf now) rows = filter (live conf now) sent \<Longrightarrow>
     hist_ok conf now sent \<Longrightarrow> \<exists>now'. hist_ok conf now' (snd (throttle_run evs (rows, sent)))"
proof (induction evs arbitrary: now rows sent)
  case (Cons ev evs)
  obtain rows' sent' where step: "throttle_step ev (rows, sent) = (rows', sent')" by fastforce
  from throttle_step_ok [OF Cons.prems step] Cons.IH [of _ rows' sent'] show ?case
    by (auto simp: step)
qed auto

lemma throttle_run_ok:
  "timely conf now evs \<Longrightarrow> \<exists>now'. hist_ok conf now' (snd (throttle_run evs ([], [])))"
  by (rule throttle_run_keeps) (simp_all add: hist_ok_def sent_within_def)

subsection \<open>Properties\<close>

text \<open>
  C21. Throttling fails open: a send is refused only when the table really holds
  a younger send of the same route and key, or as many sends of the route as its limit allows; a
  refusal changes nothing. When a statement fails the signal passes, the table is left as it was and
  nothing is recorded to be taken back.
\<close>

theorem throttle_fails_open:
  "(\<forall>why st'. check fault rk sg now dd rate (rows, adm) = (Inl why, st') \<longrightarrow>
      st' = (rows, adm) \<and>
      ((\<exists>w t. dd = Some w \<and> (rk, unwrap_or [] (sg_dedup_key sg), t) \<in> set rows \<and> now - t < millis w) \<or>
       (\<exists>l. rate = Some l \<and> rl_max l \<le> count_since rows rk (now - millis (rl_per l))))) \<and>
   (\<forall>e rows'. try_admit fault rows rk (unwrap_or [] (sg_dedup_key sg)) now dd rate = (Inl e, rows') \<longrightarrow>
      check fault rk sg now dd rate (rows, adm) = (Inr (), rows, adm))"
proof (intro conjI allI impI)
  let ?key = "unwrap_or [] (sg_dedup_key sg)"
  fix why st' assume c: "check fault rk sg now dd rate (rows, adm) = (Inl why, st')"
  then show "st' = (rows, adm)" using check_refusal [of fault rk sg now dd rate "(rows, adm)" why] by simp
  from c obtain rows' where "try_admit fault rows rk ?key now dd rate = (Inr (Inl why), rows')"
    by (auto simp: check_def Let_def split: prod.splits sum.splits if_splits)
  then have "(\<exists>w. dd = Some w \<and> dedup_reason rows rk ?key now w \<noteq> None) \<or>
      (\<exists>l. rate = Some l \<and> rate_reason rows rk now l \<noteq> None)"
    by (auto simp: try_admit_def Let_def split: if_splits option.splits)
  then show "(\<exists>w t. dd = Some w \<and> (rk, ?key, t) \<in> set rows \<and> now - t < millis w) \<or>
       (\<exists>l. rate = Some l \<and> rl_max l \<le> count_since rows rk (now - millis (rl_per l)))"
    by (auto simp: dedup_reason_set rate_reason_def not_le split: if_splits)
next
  fix e rows'
  assume t: "try_admit fault rows rk (unwrap_or [] (sg_dedup_key sg)) now dd rate = (Inl e, rows')"
  from try_admit_result [OF t] t show "check fault rk sg now dd rate (rows, adm) = (Inr (), rows, adm)"
    by (simp add: check_def Let_def)
qed

definition sample_requests :: "request list" where
  "sample_requests = map (\<lambda>t. \<lparr>rq_fault = no_fault, rq_route = ''r'', rq_key = ''k'', rq_now = t,
     rq_dedup = Some 10, rq_rate = Some \<lparr>rl_max = 1, rl_per = 60\<rparr>\<rparr>) [0, 4000, 20000, 70000]"

definition sample_conf :: route_conf where
  "sample_conf rk = (Some 10, Some \<lparr>rl_max = 1, rl_per = 60\<rparr>)"

lemma sample_requests_in_order: "in_order sample_conf 0 sample_requests"
  by (simp add: sample_requests_def sample_conf_def)

text \<open>Four requests, of which one meets a failing insert and one a send that is still young, and a send taken back.\<close>

definition sample_events :: "throttle_event list" where
  "sample_events =
     (let q = \<lambda>f t. \<lparr>rq_fault = f, rq_route = ''r'', rq_key = ''k'', rq_now = t, rq_dedup = Some 10,
        rq_rate = Some \<lparr>rl_max = 1, rl_per = 60\<rparr>\<rparr>
      in [Asked (q no_fault 0), Asked (q (\<lambda>s. s = Sql_Insert) 61000),
          Took_Back no_row_fault [(''r'', ''k'', 0)],
          Asked (q no_fault 70000), Asked (q no_fault 72000), Asked (q no_fault 140000)])"

lemma sample_events_timely: "timely sample_conf 0 sample_events"
  by (simp add: sample_events_def sample_conf_def)

lemma sample_events_sent:
  "snd (throttle_run sample_events ([], [])) = [(''r'', ''k'', 70000), (''r'', ''k'', 140000)]"
  by (simp add: sample_events_def ask_def try_admit_def no_fault_def no_row_fault_def dedup_reason_def
      last_sent_def rate_reason_def count_since_def prune_def keep_window_def millis_def i64_max_def)

theorem throttle_fails_open_witness:
  "(\<exists>t. (''r'', sg_id sample_signal, t) \<in> set [(''r'', sg_id sample_signal, 5000)] \<and> (9000::int) - t < 10000) \<and>
   check (\<lambda>s. s = Sql_Commit) ''r'' sample_signal 9000 (Some 10) None ([], []) = (Inr (), [], [])"
proof -
  let ?sg = "sample_signal\<lparr>sg_dedup_key := Some (sg_id sample_signal)\<rparr>"
  have "last_sent [(''r'', sg_id sample_signal, 5000)] ''r'' (sg_id sample_signal) = Some 5000"
    by (simp add: last_sent_def)
  then have "\<exists>why. check no_fault ''r'' ?sg 9000 (Some 10) None ([(''r'', sg_id sample_signal, 5000)], []) =
      (Inl why, [(''r'', sg_id sample_signal, 5000)], [])"
    by (simp add: check_def try_admit_def no_fault_def dedup_reason_def millis_def i64_max_def)
  with throttle_fails_open [of no_fault "''r''" ?sg 9000 "Some 10" None "[(''r'', sg_id sample_signal, 5000)]" "[]"]
  have first: "\<exists>t. (''r'', sg_id sample_signal, t) \<in> set [(''r'', sg_id sample_signal, 5000)] \<and> (9000::int) - t < 10000"
    by (auto simp: millis_def i64_max_def)
  have "try_admit (\<lambda>s. s = Sql_Commit) [] ''r'' (unwrap_or [] (sg_dedup_key sample_signal)) 9000 (Some 10) None =
      (Inl Sql_Commit, [])"
    by (simp add: try_admit_def dedup_reason_def last_sent_def)
  with throttle_fails_open [of "\<lambda>s. s = Sql_Commit" "''r''" sample_signal 9000 "Some 10" None "[]" "[]"]
  have "check (\<lambda>s. s = Sql_Commit) ''r'' sample_signal 9000 (Some 10) None ([], []) = (Inr (), [], [])"
    by blast
  with first show ?thesis by blast
qed

text \<open>
  C20. Pruning old rows changes no decision: on a store that works, requests served in time order over
  the pruned table get exactly the verdicts of the specification, which keeps every send for ever.
\<close>

theorem pruning_is_invisible:
  assumes "in_order conf now qs"
  shows "fst (serve qs []) = map Inr (fst (serve_spec qs []))"
  by (rule serve_simulates [OF assms refl])

theorem pruning_is_invisible_witness:
  "fst (serve sample_requests []) = map Inr (fst (serve_spec sample_requests []))"
  by (rule pruning_is_invisible [OF sample_requests_in_order])

text \<open>
  C2. \<open>dedup\<close> keeps its promise for the sends the table holds. Start from an empty table and run any
  sequence of admissions, each on a store whose statements may fail anywhere, and of releases, whose
  deletes may fail too; the clock does not go backwards and the windows of a route key do not change.
  Then of the sends that were recorded and not taken back, two of the same route and key lie at least
  the route's window apart. A send let through because a statement failed is not recorded and not
  counted (C21), nor is one that was released.
\<close>

theorem dedup_once_per_window:
  assumes "timely conf now evs"
    and "snd (throttle_run evs ([], [])) = before @ (r, k, t) # mid @ (r, k, t') # after"
    and "fst (conf r) = Some w"
  shows "millis w \<le> t' - t"
proof -
  from throttle_run_ok [OF assms(1)] have "sorted_wrt (apart conf) (snd (throttle_run evs ([], [])))"
    by (auto simp: hist_ok_def)
  with assms(2) have "apart conf (r, k, t) (r, k, t')" by (simp add: sorted_wrt_append)
  with assms(3) show ?thesis by (simp add: apart_def)
qed

theorem dedup_once_per_window_witness: "millis 10 \<le> 140000 - 70000"
  by (rule dedup_once_per_window [OF sample_events_timely, where before = "[]" and mid = "[]" and after = "[]"])
     (simp_all only: sample_events_sent, simp_all add: sample_conf_def)

text \<open>
  C10. \<open>rate_limit\<close> caps every sliding window of the sends the table holds: over the same runs as C2
  (empty table at the start, any statement or delete may fail, sends may be taken back, the clock does
  not go backwards, a route key keeps its windows), no interval of the length of a route's period,
  wherever it ends, holds more recorded and not released sends of the route than the limit. Sends let
  through because a statement failed are not recorded and not counted (C21).
\<close>

theorem rate_limit_caps_every_window:
  assumes "timely conf now evs" and "snd (conf rk) = Some l"
  shows "sent_within (snd (throttle_run evs ([], []))) rk (T - millis (rl_per l)) T \<le> rl_max l"
  using throttle_run_ok [OF assms(1)] assms(2) by (auto simp: hist_ok_def)

theorem rate_limit_caps_every_window_witness:
  "sent_within (snd (throttle_run sample_events ([], []))) ''r'' 80000 140000 \<le> 1"
proof -
  have "snd (sample_conf ''r'') = Some \<lparr>rl_max = 1, rl_per = 60\<rparr>" by (simp add: sample_conf_def)
  from rate_limit_caps_every_window [OF sample_events_timely this, of 140000]
  show ?thesis by (simp add: millis_def i64_max_def)
qed

text \<open>
  Taking back what a plan recorded leaves the send history as it was before the plan: the live sends
  of the table afterwards are those of the table before (up to sends already pending), whatever
  routes matched, whatever was refused, and whichever statements failed.
\<close>

theorem taking_back_restores_history:
  assumes "\<forall>r \<in> set routes. conf_knows conf rkey r"
  shows "live_rows conf now (take_back (snd (plan_with (\<lambda>r. admit rkey fault r sg now) routes sg (rows, [])))) =
     live_rows conf now (rows, [])"
  using plan_then_take_back [OF assms, of now fault sg sg "(rows, [])"]
  by (simp add: others_rows_def live_rows_def)

theorem taking_back_restores_history_witness:
  "live_rows sample_conf 9000 (take_back (snd (plan_with
     (\<lambda>r. admit (\<lambda>_. ''r'') no_fault r sample_signal 9000)
     [(sample_route [] [''slack''])\<lparr>dedup := Some 10, route_rate_limit := Some \<lparr>rl_max = 1, rl_per = 60\<rparr>\<rparr>]
     sample_signal ([], [])))) = {#}"
proof -
  let ?r = "(sample_route [] [''slack''])\<lparr>dedup := Some 10, route_rate_limit := Some \<lparr>rl_max = 1, rl_per = 60\<rparr>\<rparr>"
  have "\<forall>r \<in> set [?r]. conf_knows sample_conf (\<lambda>_. ''r'') r"
    by (simp add: conf_knows_def sample_conf_def sample_route_def is_grouped_def)
  from taking_back_restores_history [OF this, of 9000 no_fault sample_signal "[]"]
  show ?thesis by (simp add: live_rows_def)
qed

end
