(* ===== verification/Signal_Groups.thy ===== *)
theory Signal_Groups
  imports Throttle_Store
begin

text \<open>
  \<^verbatim>\<open>crates/core/src/group.rs\<close> and \<^verbatim>\<open>crates/core/src/inflight.rs\<close>: the open groups of a client, the
  digest a closed group becomes, and the count of deliveries in flight. The JSON text of a value
  and of a group's values (serde_json) and the text of a timestamp are parameters.
\<close>

subsection \<open>Deliveries in flight\<close>

text \<open>
  The counter behind \<open>InFlight\<close>. \<open>in_flight_wait\<close> is its loop over what the condition variable
  shows it: at each round whether the deadline has passed, and the count after waking up.
\<close>

definition in_flight_start :: "nat \<Rightarrow> nat" where "in_flight_start n = n + 1"

definition in_flight_finish :: "nat \<Rightarrow> nat" where "in_flight_finish n = n - 1"

fun in_flight_wait :: "nat \<Rightarrow> (bool \<times> nat) list \<Rightarrow> nat" where
  "in_flight_wait n [] = n"
| "in_flight_wait n ((expired, woken) # rounds) =
     (if n = 0 then n else if expired then n else in_flight_wait woken rounds)"

subsection \<open>Group values\<close>

record json_env =
  je_text :: "json \<Rightarrow> string"
  je_values :: "(string \<times> string option) list \<Rightarrow> string"
  je_time :: "int \<Rightarrow> string"

fun jpath :: "json \<Rightarrow> string list \<Rightarrow> json option" where
  "jpath v [] = Some v"
| "jpath v (k # ks) = (case jget v k of None \<Rightarrow> None | Some v' \<Rightarrow> jpath v' ks)"

definition is_group_field :: "string \<Rightarrow> bool" where
  "is_group_field field = (field \<in> set GROUP_FIELDS \<or>
     (case strip_prefix ''metadata.'' field of
        None \<Rightarrow> False
      | Some path \<Rightarrow> path \<noteq> [] \<and> (\<forall>p \<in> set (split_on CHR ''.'' path). p \<noteq> [])))"

definition field_value :: "json_env \<Rightarrow> signal \<Rightarrow> string \<Rightarrow> string option" where
  "field_value env sg field =
     (case strip_prefix ''metadata.'' field of
        Some path \<Rightarrow>
          (case jpath (sg_metadata sg) (split_on CHR ''.'' path) of
             None \<Rightarrow> None
           | Some JNull \<Rightarrow> None
           | Some (JStr s) \<Rightarrow> Some s
           | Some other \<Rightarrow> Some (je_text env other))
      | None \<Rightarrow>
          (if field = ''source'' then Some (sg_source sg)
           else if field = ''service'' then sg_service sg
           else if field = ''component'' then sg_component sg
           else if field = ''event_type'' then Some (sg_event_type sg)
           else if field = ''severity'' then Some (severity_display (sg_severity sg))
           else if field = ''title'' then Some (sg_title sg)
           else if field = ''environment'' then sg_environment sg
           else if field = ''team'' then sg_team sg
           else if field = ''run_id'' then sg_run_id sg
           else if field = ''correlation_id'' then sg_correlation_id sg
           else if field = ''dedup_key'' then sg_dedup_key sg
           else None))"

definition group_values :: "json_env \<Rightarrow> route \<Rightarrow> signal \<Rightarrow> (string \<times> string option) list" where
  "group_values env r sg = map (\<lambda>f. (f, field_value env sg f)) (unwrap_or [] (group_by r))"

definition group_key :: "(route \<Rightarrow> string) \<Rightarrow> json_env \<Rightarrow> route \<Rightarrow> (string \<times> string option) list \<Rightarrow> string" where
  "group_key rkey env r vals = rkey r @ [CHR 0x0A] @ je_values env vals"

subsection \<open>The open groups\<close>

definition MAX_GROUP_SIZE :: nat where "MAX_GROUP_SIZE = 500"

record member =
  mb_signal :: signal
  mb_admission :: admission
  mb_owns_row :: bool

record open_group =
  og_seq :: nat
  og_route :: route
  og_by :: "(string \<times> string option) list"
  og_members :: "member list"

record closed_group =
  cg_route :: route
  cg_by :: "(string \<times> string option) list"
  cg_members :: "member list"

datatype added = Joined | Opened string nat window | Full closed_group

record groups =
  gs_open :: "(string \<times> open_group) list"
  gs_next_seq :: nat
  gs_in_flight :: nat

definition new_groups :: groups where
  "new_groups = \<lparr>gs_open = [], gs_next_seq = 0, gs_in_flight = 0\<rparr>"

text \<open>Closing a group counts its send as in flight.\<close>

definition close_group :: "open_group \<Rightarrow> groups \<Rightarrow> closed_group \<times> groups" where
  "close_group g gs =
     (\<lparr>cg_route = og_route g, cg_by = og_by g, cg_members = og_members g\<rparr>,
      gs\<lparr>gs_in_flight := in_flight_start (gs_in_flight gs)\<rparr>)"

definition add_member :: "(route \<Rightarrow> string) \<Rightarrow> json_env \<Rightarrow> route \<Rightarrow> member \<Rightarrow> groups \<Rightarrow> added \<times> groups" where
  "add_member rkey env r m gs =
     (let by = group_values env r (mb_signal m);
          key = group_key rkey env r by
      in case map_of (gs_open gs) key of
           Some g \<Rightarrow>
             (let g' = g\<lparr>og_members := og_members g @ [m]\<rparr> in
              if length (og_members g') < MAX_GROUP_SIZE
              then (Joined, gs\<lparr>gs_open := AList.update key g' (gs_open gs)\<rparr>)
              else
                (let (c, gs') = close_group g' (gs\<lparr>gs_open := AList.delete key (gs_open gs)\<rparr>)
                 in (Full c, gs')))
         | None \<Rightarrow>
             (let seq = gs_next_seq gs + 1 in
              (Opened key seq (unwrap_or 0 (group_window r)),
               gs\<lparr>gs_next_seq := seq,
                  gs_open := AList.update key
                    \<lparr>og_seq = seq, og_route = r, og_by = by, og_members = [m]\<rparr> (gs_open gs)\<rparr>)))"

definition take_group :: "string \<Rightarrow> nat \<Rightarrow> groups \<Rightarrow> closed_group option \<times> groups" where
  "take_group key seq gs =
     (case map_of (gs_open gs) key of
        None \<Rightarrow> (None, gs)
      | Some g \<Rightarrow>
          (if og_seq g \<noteq> seq then (None, gs)
           else (let (c, gs') = close_group g (gs\<lparr>gs_open := AList.delete key (gs_open gs)\<rparr>)
                 in (Some c, gs'))))"

fun close_groups :: "(string \<times> open_group) list \<Rightarrow> groups \<Rightarrow> closed_group list \<times> groups" where
  "close_groups [] gs = ([], gs)"
| "close_groups ((_, g) # rest) gs =
     (let (c, gs1) = close_group g gs; (cs, gs2) = close_groups rest gs1 in (c # cs, gs2))"

definition take_all_groups :: "groups \<Rightarrow> closed_group list \<times> groups" where
  "take_all_groups gs = close_groups (gs_open gs) (gs\<lparr>gs_open := []\<rparr>)"

subsection \<open>Digests\<close>

definition LISTED_IN_MESSAGE :: nat where "LISTED_IN_MESSAGE = 20"

definition LISTED_IN_METADATA :: nat where "LISTED_IN_METADATA = 100"

fun rank :: "severity \<Rightarrow> nat" where
  "rank Info = 0"
| "rank Success = 1"
| "rank Warning = 2"
| "rank Error = 3"
| "rank Critical = 4"

text \<open>Severities are ordered by their rank.\<close>

instantiation severity :: linorder
begin

definition less_eq_severity :: "severity \<Rightarrow> severity \<Rightarrow> bool" where
  "less_eq_severity a b = (rank a \<le> rank b)"

definition less_severity :: "severity \<Rightarrow> severity \<Rightarrow> bool" where
  "less_severity a b = (rank a < rank b)"

instance
proof
  fix x y z :: severity
  show "x < y \<longleftrightarrow> x \<le> y \<and> \<not> y \<le> x" by (auto simp: less_eq_severity_def less_severity_def)
  show "x \<le> x" "x \<le> y \<Longrightarrow> y \<le> z \<Longrightarrow> x \<le> z" "x \<le> y \<or> y \<le> x"
    by (auto simp: less_eq_severity_def)
  show "x \<le> y \<Longrightarrow> y \<le> x \<Longrightarrow> x = y"
    by (cases x; cases y) (simp_all add: less_eq_severity_def)
qed

end

text \<open>\<open>max_by_key\<close> keeps the last of the greatest; an empty iterator gives the default.\<close>

definition max_severity :: "severity list \<Rightarrow> severity" where
  "max_severity ss = (case ss of [] \<Rightarrow> Info | s # rest \<Rightarrow> foldl (\<lambda>a b. if rank a \<le> rank b then b else a) s rest)"

definition common :: "member list \<Rightarrow> (signal \<Rightarrow> string option) \<Rightarrow> string option" where
  "common ms get = (case ms of
      [] \<Rightarrow> None
    | m # _ \<Rightarrow>
        (case get (mb_signal m) of
           None \<Rightarrow> None
         | Some v \<Rightarrow> if \<forall>m' \<in> set ms. get (mb_signal m') = Some v then Some v else None))"

definition digest_lines :: "member list \<Rightarrow> string list" where
  "digest_lines ms =
     (let listed = map (\<lambda>m. ''- ['' @ severity_display (sg_severity (mb_signal m)) @ ''] '' @ sg_title (mb_signal m))
            (take LISTED_IN_MESSAGE ms)
      in if length ms > LISTED_IN_MESSAGE
         then listed @ [''...and '' @ show_nat (length ms - LISTED_IN_MESSAGE) @ '' more'']
         else listed)"

definition digest_signals :: "json_env \<Rightarrow> member list \<Rightarrow> json list" where
  "digest_signals env ms = map (\<lambda>m. let sg = mb_signal m in JObj
       [(''id'', JStr (sg_id sg)), (''title'', JStr (sg_title sg)),
        (''severity'', JStr (severity_display (sg_severity sg))), (''source'', JStr (sg_source sg)),
        (''event_type'', JStr (sg_event_type sg)), (''timestamp'', JStr (je_time env (sg_timestamp sg)))])
     (take LISTED_IN_METADATA ms)"

definition digest_metadata :: "json_env \<Rightarrow> closed_group \<Rightarrow> json" where
  "digest_metadata env c =
     (let ms = cg_members c; times = map (\<lambda>m. sg_timestamp (mb_signal m)) ms in
      JObj [(''digest'', JObj
        [(''count'', JNum (show_nat (length ms))),
         (''group'', JObj (fold (\<lambda>(f, v). AList.update f (jopt v)) (cg_by c) [])),
         (''first_at'', case times of [] \<Rightarrow> JNull | _ \<Rightarrow> JStr (je_time env (Min (set times)))),
         (''last_at'', case times of [] \<Rightarrow> JNull | _ \<Rightarrow> JStr (je_time env (Max (set times)))),
         (''signals'', JArr (digest_signals env ms))])])"

definition digest_input :: "(string \<Rightarrow> string) \<Rightarrow> (route \<Rightarrow> string) \<Rightarrow> json_env \<Rightarrow> closed_group \<Rightarrow> signal_input" where
  "digest_input sha rkey env c =
     (let ms = cg_members c; first = mb_signal (ms ! 0) in
      default_input\<lparr>
        in_source := unwrap_or ''opssignal'' (common ms (\<lambda>s. Some (sg_source s))),
        in_service := common ms sg_service,
        in_component := common ms sg_component,
        in_event_type := unwrap_or ''digest'' (common ms (\<lambda>s. Some (sg_event_type s))),
        in_severity := max_severity (map (\<lambda>m. sg_severity (mb_signal m)) ms),
        in_title := sg_title first @ '' (+'' @ show_nat (length ms - 1) @ '' more)'',
        in_message := Some (join [CHR 0x0A] (digest_lines ms)),
        in_environment := common ms sg_environment,
        in_team := common ms sg_team,
        in_run_id := common ms sg_run_id,
        in_correlation_id := common ms sg_correlation_id,
        in_trace_id := common ms sg_trace_id,
        in_log_url := common ms sg_log_url,
        in_metadata := Some (digest_metadata env c),
        in_dedup_key := Some (''digest:'' @ sha (group_key rkey env (cg_route c) (cg_by c)))\<rparr>)"

definition digest :: "(string \<Rightarrow> string) \<Rightarrow> (route \<Rightarrow> string) \<Rightarrow> json_env \<Rightarrow> string \<Rightarrow> int \<Rightarrow> closed_group \<Rightarrow> signal" where
  "digest sha rkey env uid now c = from_input sha uid now (digest_input sha rkey env c)"

subsection \<open>Histories of the open groups\<close>

fun closed_by_add :: "added \<Rightarrow> closed_group list" where
  "closed_by_add (Full c) = [c]"
| "closed_by_add _ = []"

text \<open>
  What a client's groups can go through: \<open>ms\<close> are the members added so far with their routes,
  \<open>cs\<close> the groups closed so far. A timer may fire for any key and number at any time, late or
  never; a flush closes everything; a send that ends leaves the in-flight count.
\<close>

inductive group_history :: "(route \<Rightarrow> string) \<Rightarrow> json_env \<Rightarrow> (route \<times> member) list \<Rightarrow> closed_group list \<Rightarrow> groups \<Rightarrow> bool"
  for rkey env where
  gh_new: "group_history rkey env [] [] new_groups"
| gh_add: "group_history rkey env ms cs gs \<Longrightarrow> add_member rkey env r m gs = (a, gs') \<Longrightarrow>
    group_history rkey env ((r, m) # ms) (closed_by_add a @ cs) gs'"
| gh_timer: "group_history rkey env ms cs gs \<Longrightarrow> take_group key seq gs = (c, gs') \<Longrightarrow>
    group_history rkey env ms ((case c of Some c \<Rightarrow> [c] | None \<Rightarrow> []) @ cs) gs'"
| gh_flush: "group_history rkey env ms cs gs \<Longrightarrow> take_all_groups gs = (cs', gs') \<Longrightarrow>
    group_history rkey env ms (cs' @ cs) gs'"
| gh_sent: "group_history rkey env ms cs gs \<Longrightarrow>
    group_history rkey env ms cs (gs\<lparr>gs_in_flight := in_flight_finish (gs_in_flight gs)\<rparr>)"

definition in_groups :: "(string \<times> open_group) list \<Rightarrow> member multiset" where
  "in_groups al = (\<Sum>x \<in># mset al. mset (og_members (snd x)))"

definition in_closed :: "closed_group list \<Rightarrow> member multiset" where
  "in_closed cs = (\<Sum>c \<in># mset cs. mset (cg_members c))"

text \<open>A member belongs under a key when its own group values on its route give that key.\<close>

definition belongs :: "(route \<Rightarrow> string) \<Rightarrow> json_env \<Rightarrow> (route \<times> member) list \<Rightarrow> string \<Rightarrow> member \<Rightarrow> bool" where
  "belongs rkey env ms key m \<longleftrightarrow>
     (\<exists>r. (r, m) \<in> set ms \<and> group_key rkey env r (group_values env r (mb_signal m)) = key)"

definition open_ok :: "(route \<Rightarrow> string) \<Rightarrow> json_env \<Rightarrow> (route \<times> member) list \<Rightarrow> string \<times> open_group \<Rightarrow> bool" where
  "open_ok rkey env ms = (\<lambda>(key, g).
     og_members g \<noteq> [] \<and> length (og_members g) < MAX_GROUP_SIZE \<and>
     key = group_key rkey env (og_route g) (og_by g) \<and> (\<forall>m \<in> set (og_members g). belongs rkey env ms key m))"

definition closed_ok :: "(route \<Rightarrow> string) \<Rightarrow> json_env \<Rightarrow> (route \<times> member) list \<Rightarrow> closed_group \<Rightarrow> bool" where
  "closed_ok rkey env ms c \<longleftrightarrow>
     cg_members c \<noteq> [] \<and> length (cg_members c) \<le> MAX_GROUP_SIZE \<and>
     (\<forall>m \<in> set (cg_members c). belongs rkey env ms (group_key rkey env (cg_route c) (cg_by c)) m)"

definition groups_ok :: "(route \<Rightarrow> string) \<Rightarrow> json_env \<Rightarrow> (route \<times> member) list \<Rightarrow> closed_group list \<Rightarrow> groups \<Rightarrow> bool" where
  "groups_ok rkey env ms cs gs \<longleftrightarrow> wf_alist (gs_open gs) \<and>
     (\<forall>x \<in> set (gs_open gs). open_ok rkey env ms x) \<and> (\<forall>c \<in> set cs. closed_ok rkey env ms c) \<and>
     mset (map snd ms) = in_groups (gs_open gs) + in_closed cs"

lemma in_groups_simps [simp]:
  "in_groups [] = {#}" "in_groups ((k, g) # al) = mset (og_members g) + in_groups al"
  by (simp_all add: in_groups_def)

lemma in_closed_simps [simp]:
  "in_closed [] = {#}" "in_closed (c # cs) = mset (cg_members c) + in_closed cs"
  "in_closed (cs @ cs') = in_closed cs + in_closed cs'"
  by (simp_all add: in_closed_def)

lemma in_groups_new: "map_of al key = None \<Longrightarrow> in_groups (AList.update key g al) = in_groups al + mset (og_members g)"
  by (induction al) (auto split: if_splits)

lemma in_groups_update:
  "map_of al key = Some g \<Longrightarrow> in_groups (AList.update key g' al) + mset (og_members g) = in_groups al + mset (og_members g')"
  by (induction al) (auto split: if_splits)

lemma delete_no_key: "key \<notin> fst ` set al \<Longrightarrow> AList.delete key al = al"
  by (induction al) auto

lemma in_groups_delete:
  "wf_alist al \<Longrightarrow> map_of al key = Some g \<Longrightarrow> in_groups (AList.delete key al) + mset (og_members g) = in_groups al"
proof (induction al)
  case (Cons x al)
  obtain k h where x: "x = (k, h)" by fastforce
  have wf: "wf_alist al" "k \<notin> fst ` set al" using Cons.prems(1) by (auto simp: wf_alist_def x)
  show ?case
  proof (cases "k = key")
    case True
    with Cons.prems x wf(2) show ?thesis by (simp add: delete_no_key)
  next
    case False
    with Cons.IH [OF wf(1)] Cons.prems x show ?thesis by (simp add: add.assoc [symmetric] add.commute)
  qed
qed simp

lemma belongs_more: "belongs rkey env ms key m \<Longrightarrow> belongs rkey env (x # ms) key m"
  by (auto simp: belongs_def)

lemma belongs_new: "belongs rkey env ((r, m) # ms) (group_key rkey env r (group_values env r (mb_signal m))) m"
  by (auto simp: belongs_def)

lemma open_ok_more: "open_ok rkey env ms x \<Longrightarrow> open_ok rkey env (y # ms) x"
  by (auto simp: open_ok_def belongs_more)

lemma closed_ok_more: "closed_ok rkey env ms c \<Longrightarrow> closed_ok rkey env (y # ms) c"
  by (auto simp: closed_ok_def belongs_more)

lemma set_update_subset: "set (AList.update k v al) \<subseteq> insert (k, v) (set al)"
  by (induction al) auto

lemma set_delete_subset: "set (AList.delete k al) \<subseteq> set al"
  by (induction al) auto

lemma open_ok_close:
  "open_ok rkey env ms (key, g) \<Longrightarrow> closed_ok rkey env ms (fst (close_group g gs))"
  by (auto simp: open_ok_def closed_ok_def close_group_def)

lemma close_group_simps [simp]:
  "cg_members (fst (close_group g gs)) = og_members g" "gs_open (snd (close_group g gs)) = gs_open gs"
  "cg_route (fst (close_group g gs)) = og_route g" "cg_by (fst (close_group g gs)) = og_by g"
  "gs_in_flight (snd (close_group g gs)) = gs_in_flight gs + 1"
  by (simp_all add: close_group_def in_flight_start_def)

lemma map_of_member: "map_of al k = Some v \<Longrightarrow> (k, v) \<in> set al"
  by (rule map_of_SomeD)

lemma groups_ok_add:
  assumes ok: "groups_ok rkey env ms cs gs" and add: "add_member rkey env r m gs = (a, gs')"
  shows "groups_ok rkey env ((r, m) # ms) (closed_by_add a @ cs) gs'"
proof -
  define by' where "by' = group_values env r (mb_signal m)"
  define key where "key = group_key rkey env r by'"
  have bel: "belongs rkey env ((r, m) # ms) key m" unfolding key_def by'_def by (rule belongs_new)
  from ok have wf: "wf_alist (gs_open gs)" and opn: "\<And>x. x \<in> set (gs_open gs) \<Longrightarrow> open_ok rkey env ((r, m) # ms) x"
    and cls: "\<And>c. c \<in> set cs \<Longrightarrow> closed_ok rkey env ((r, m) # ms) c"
    and cons: "mset (map snd ms) = in_groups (gs_open gs) + in_closed cs"
    by (auto simp: groups_ok_def open_ok_more closed_ok_more)
  show ?thesis
  proof (cases "map_of (gs_open gs) key")
    case None
    let ?g = "\<lparr>og_seq = gs_next_seq gs + 1, og_route = r, og_by = by', og_members = [m]\<rparr>"
    from add None have a: "closed_by_add a = []" and gs': "gs_open gs' = AList.update key ?g (gs_open gs)"
      by (auto simp: add_member_def Let_def by'_def key_def)
    have "open_ok rkey env ((r, m) # ms) (key, ?g)"
      using bel by (simp add: open_ok_def MAX_GROUP_SIZE_def key_def)
    with opn set_update_subset [of key ?g "gs_open gs"]
    have "\<forall>x \<in> set (gs_open gs'). open_ok rkey env ((r, m) # ms) x" unfolding gs' by blast
    with wf cls cons show ?thesis
      by (simp add: groups_ok_def a gs' in_groups_new [OF None])
  next
    case (Some g)
    let ?g = "g\<lparr>og_members := og_members g @ [m]\<rparr>"
    from opn [OF map_of_member [OF Some]] have g: "open_ok rkey env ((r, m) # ms) (key, g)" .
    have bel': "\<forall>m' \<in> set (og_members ?g). belongs rkey env ((r, m) # ms) key m'"
      using g bel by (auto simp: open_ok_def)
    show ?thesis
    proof (cases "length (og_members ?g) < MAX_GROUP_SIZE")
      case True
      with add Some have a: "closed_by_add a = []" and gs': "gs_open gs' = AList.update key ?g (gs_open gs)"
        by (auto simp: add_member_def Let_def by'_def key_def)
      from g True bel' have "open_ok rkey env ((r, m) # ms) (key, ?g)" by (simp add: open_ok_def)
      with opn set_update_subset [of key ?g "gs_open gs"]
      have "\<forall>x \<in> set (gs_open gs'). open_ok rkey env ((r, m) # ms) x" unfolding gs' by blast
      moreover from in_groups_update [OF Some, of ?g]
      have "in_groups (AList.update key ?g (gs_open gs)) = add_mset m (in_groups (gs_open gs))" by simp
      ultimately show ?thesis using wf cls cons by (simp add: groups_ok_def a gs')
    next
      case False
      let ?gs0 = "gs\<lparr>gs_open := AList.delete key (gs_open gs)\<rparr>"
      from False add Some have a: "closed_by_add a = [fst (close_group ?g ?gs0)]"
        and gs': "gs_open gs' = AList.delete key (gs_open gs)"
        by (auto simp: add_member_def Let_def by'_def key_def close_group_def)
      have "closed_ok rkey env ((r, m) # ms) (fst (close_group ?g ?gs0))"
        using g bel' by (auto simp: closed_ok_def open_ok_def)
      moreover have "\<forall>x \<in> set (gs_open gs'). open_ok rkey env ((r, m) # ms) x"
        using opn set_delete_subset [of key "gs_open gs"] unfolding gs' by blast
      moreover have "in_groups (gs_open gs) = in_groups (AList.delete key (gs_open gs)) + mset (og_members g)"
        using in_groups_delete [OF wf Some] by simp
      ultimately show ?thesis using wf cls cons by (simp add: groups_ok_def a gs')
    qed
  qed
qed

lemma groups_ok_take:
  assumes ok: "groups_ok rkey env ms cs gs" and t: "take_group key seq gs = (c, gs')"
  shows "groups_ok rkey env ms ((case c of Some c \<Rightarrow> [c] | None \<Rightarrow> []) @ cs) gs'"
proof (cases "\<exists>g. map_of (gs_open gs) key = Some g \<and> og_seq g = seq")
  case False
  with t have "c = None" "gs' = gs" by (auto simp: take_group_def split: option.splits if_splits)
  with ok show ?thesis by simp
next
  case True
  then obtain g where g: "map_of (gs_open gs) key = Some g" "og_seq g = seq" by blast
  let ?gs0 = "gs\<lparr>gs_open := AList.delete key (gs_open gs)\<rparr>"
  from t g have c: "c = Some (fst (close_group g ?gs0))" and gs': "gs_open gs' = AList.delete key (gs_open gs)"
    by (auto simp: take_group_def close_group_def)
  from ok have wf: "wf_alist (gs_open gs)" and opn: "\<And>x. x \<in> set (gs_open gs) \<Longrightarrow> open_ok rkey env ms x"
    and cls: "\<And>c. c \<in> set cs \<Longrightarrow> closed_ok rkey env ms c"
    and cons: "mset (map snd ms) = in_groups (gs_open gs) + in_closed cs"
    by (auto simp: groups_ok_def)
  have "closed_ok rkey env ms (fst (close_group g ?gs0))"
    by (rule open_ok_close [OF opn [OF map_of_member [OF g(1)]]])
  moreover have "\<forall>x \<in> set (gs_open gs'). open_ok rkey env ms x"
    using opn set_delete_subset [of key "gs_open gs"] unfolding gs' by blast
  moreover have "in_groups (gs_open gs) = in_groups (AList.delete key (gs_open gs)) + mset (og_members g)"
    using in_groups_delete [OF wf g(1)] by simp
  ultimately show ?thesis using wf cls cons by (simp add: groups_ok_def c gs')
qed

lemma close_groups_result:
  "close_groups al gs = (cs, gs') \<Longrightarrow> gs_open gs' = gs_open gs \<and> in_closed cs = in_groups al \<and>
     ((\<forall>x \<in> set al. open_ok rkey env ms x) \<longrightarrow> (\<forall>c \<in> set cs. closed_ok rkey env ms c))"
proof (induction al arbitrary: gs cs gs')
  case (Cons x al)
  obtain k g where x: "x = (k, g)" by fastforce
  obtain cs1 gs1 where rest: "close_groups al (snd (close_group g gs)) = (cs1, gs1)" by fastforce
  with Cons.prems have cs: "cs = fst (close_group g gs) # cs1" and gs': "gs' = gs1"
    by (auto simp: x Let_def case_prod_beta)
  from Cons.IH [OF rest] open_ok_close [of rkey env ms k g gs] show ?case
    by (auto simp: cs gs' x)
qed simp

lemma groups_ok_flush:
  assumes ok: "groups_ok rkey env ms cs gs" and f: "take_all_groups gs = (cs', gs')"
  shows "groups_ok rkey env ms (cs' @ cs) gs'"
  using close_groups_result [OF f [unfolded take_all_groups_def], of rkey env ms] ok
  by (auto simp: groups_ok_def)

lemma history_ok: "group_history rkey env ms cs gs \<Longrightarrow> groups_ok rkey env ms cs gs"
proof (induction rule: group_history.induct)
  case gh_new
  show ?case by (simp add: groups_ok_def new_groups_def)
next
  case (gh_sent ms cs gs)
  then show ?case by (simp add: groups_ok_def)
qed (blast intro: groups_ok_add groups_ok_take groups_ok_flush)+

subsection \<open>What a digest says\<close>

lemma max_severity_Max: "ss \<noteq> [] \<Longrightarrow> max_severity ss = Max (set ss)"
proof -
  have "foldl (\<lambda>a b. if rank a \<le> rank b then b else a) s rest = foldl max s rest" for s rest
    by (rule arg_cong [where f = "\<lambda>f. foldl f s rest"]) (auto simp: fun_eq_iff max_def less_eq_severity_def)
  then show "ss \<noteq> [] \<Longrightarrow> max_severity ss = Max (set ss)"
    by (cases ss) (simp_all add: max_severity_def foldl_max)
qed

lemma common_Some:
  "common ms get = Some v \<longleftrightarrow> ms \<noteq> [] \<and> (\<forall>m \<in> set ms. get (mb_signal m) = Some v)"
  by (cases ms) (auto simp: common_def split: option.splits)

lemma digest_lines_length: "length (digest_lines ms) = (if length ms > 20 then 21 else length ms)"
  by (simp add: digest_lines_def LISTED_IN_MESSAGE_def Let_def)

lemma digest_signals_length: "length (digest_signals env ms) = min (length ms) 100"
  by (simp add: digest_signals_def LISTED_IN_METADATA_def min.commute)

lemma digest_title_not_blank: "\<not> is_blank (in_title (digest_input sha rkey env c))"
proof -
  have "CHR ''('' \<in> set (in_title (digest_input sha rkey env c))" by (simp add: digest_input_def Let_def)
  moreover have "\<not> is_ws (CHR ''('')" by (simp add: is_ws_def)
  ultimately show ?thesis unfolding is_blank_iff by blast
qed

subsection \<open>Properties\<close>

text \<open>
  C6. No grouped signal is lost or sent twice: in every history of a client's groups, with timers
  firing at any moment, late or never, the members added are exactly those still in open groups
  together with those of the groups closed so far; a closed group has between one and
  \<open>MAX_GROUP_SIZE\<close> members, all of which belong under its key by their own group values.
\<close>

theorem groups_conserve_members:
  assumes "group_history rkey env ms cs gs"
  shows "mset (map snd ms) = in_groups (gs_open gs) + in_closed cs \<and>
     (\<forall>c \<in> set cs. 1 \<le> length (cg_members c) \<and> length (cg_members c) \<le> MAX_GROUP_SIZE \<and>
        (\<forall>m \<in> set (cg_members c). \<exists>r. (r, m) \<in> set ms \<and>
           group_key rkey env r (group_values env r (mb_signal m)) = group_key rkey env (cg_route c) (cg_by c)))"
proof -
  have "1 \<le> length xs \<longleftrightarrow> xs \<noteq> []" for xs :: "member list" by (cases xs) auto
  then show ?thesis
    using history_ok [OF assms] by (auto simp: groups_ok_def closed_ok_def belongs_def)
qed

definition sample_env :: json_env where
  "sample_env = \<lparr>je_text = (\<lambda>_. ''json''), je_values = (\<lambda>vs. concat (map (\<lambda>(f, v). f @ unwrap_or [] v) vs)),
     je_time = (\<lambda>_. ''t'')\<rparr>"

definition sample_member :: member where
  "sample_member = \<lparr>mb_signal = sample_signal, mb_admission = [], mb_owns_row = True\<rparr>"

definition sample_closed :: closed_group where
  "sample_closed = \<lparr>cg_route = sample_route [] [''slack''], cg_by = [], cg_members = [sample_member, sample_member]\<rparr>"

theorem groups_conserve_members_witness:
  "\<exists>gs. group_history (\<lambda>_. ''r'') sample_env [(sample_route [] [''slack''], sample_member)] [] gs \<and>
     in_groups (gs_open gs) = {#sample_member#}"
proof -
  let ?r = "sample_route [] [''slack'']"
  let ?gs = "snd (add_member (\<lambda>_. ''r'') sample_env ?r sample_member new_groups)"
  have a: "closed_by_add (fst (add_member (\<lambda>_. ''r'') sample_env ?r sample_member new_groups)) = []"
    by (simp add: add_member_def new_groups_def Let_def)
  from group_history.gh_add [OF gh_new prod.collapse [symmetric], of "\<lambda>_. ''r''" sample_env ?r sample_member]
  have h: "group_history (\<lambda>_. ''r'') sample_env [(?r, sample_member)] [] ?gs" by (simp add: a)
  from groups_conserve_members [OF this] have "in_groups (gs_open ?gs) = {#sample_member#}" by simp
  with h show ?thesis by blast
qed

text \<open>
  A timer closes only the group it was started for: once that group is gone, sent full or flushed,
  the timer of a key finds another number there, or nothing, and changes nothing.
\<close>

theorem stale_timer_does_nothing:
  assumes "\<nexists>g. (key, g) \<in> set (gs_open gs) \<and> og_seq g = seq"
  shows "take_group key seq gs = (None, gs)"
  using assms by (auto simp: take_group_def dest: map_of_SomeD split: option.splits)

theorem stale_timer_does_nothing_witness:
  "take_group ''k'' 1 (new_groups\<lparr>gs_open := [(''k'', \<lparr>og_seq = 2, og_route = sample_route [] [], og_by = [], og_members = [sample_member]\<rparr>)]\<rparr>)
     = (None, new_groups\<lparr>gs_open := [(''k'', \<lparr>og_seq = 2, og_route = sample_route [] [], og_by = [], og_members = [sample_member]\<rparr>)]\<rparr>)"
  by (rule stale_timer_does_nothing) simp

text \<open>
  A digest speaks for its members: its severity is the highest of theirs, a field is set to a value
  exactly when all members share it, its message and metadata stay bounded however many there are,
  it has a title, and its dedup key depends only on the route and the group's values.
\<close>

theorem digest_speaks_for_members:
  assumes "cg_members c \<noteq> []"
  shows "sg_severity (digest sha rkey env uid now c) = Max ((\<lambda>m. sg_severity (mb_signal m)) ` set (cg_members c)) \<and>
     (\<forall>v. sg_environment (digest sha rkey env uid now c) = Some v \<longleftrightarrow>
        (\<forall>m \<in> set (cg_members c). sg_environment (mb_signal m) = Some v)) \<and>
     length (digest_lines (cg_members c)) \<le> 21 \<and> length (digest_signals env (cg_members c)) \<le> 100 \<and>
     \<not> is_blank (sg_title (digest sha rkey env uid now c)) \<and>
     sg_dedup_key (digest sha rkey env uid now c) = Some (''digest:'' @ sha (group_key rkey env (cg_route c) (cg_by c)))"
proof -
  have "in_severity (digest_input sha rkey env c) = max_severity (map (\<lambda>m. sg_severity (mb_signal m)) (cg_members c))"
    "in_environment (digest_input sha rkey env c) = common (cg_members c) sg_environment"
    "in_dedup_key (digest_input sha rkey env c) = Some (''digest:'' @ sha (group_key rkey env (cg_route c) (cg_by c)))"
    by (simp_all add: digest_input_def Let_def)
  then show ?thesis
    using assms digest_title_not_blank
    by (simp add: digest_def max_severity_Max common_Some digest_lines_length digest_signals_length effective_dedup_key_def)
qed

theorem digest_speaks_for_members_witness:
  "sg_severity (digest (\<lambda>x. x) (\<lambda>_. ''r'') sample_env ''id-2'' 0 sample_closed) = Error"
proof -
  have "cg_members sample_closed \<noteq> []" by (simp add: sample_closed_def)
  from digest_speaks_for_members [OF this] show ?thesis
    by (simp add: sample_closed_def sample_member_def sample_signal_def)
qed

end
