(* ===== verification/Secrets.thy ===== *)
theory Secrets
  imports Deliveries
begin

text \<open>
  The references of \<^verbatim>\<open>crates/core/src/secrets.rs\<close>: a placeholder \<open>${store:path#field}\<close>, how it is
  parsed and checked, and the names the stores' own paths stand for. Reading the stores is in the
  theory \<open>Secret_Values\<close>.
\<close>

definition STORES :: "(string \<times> string) list" where
  "STORES = [(''aws-sm'', ''AWS Secrets Manager''), (''gcp-sm'', ''GCP Secret Manager''),
     (''azure-kv'', ''Azure Key Vault'')]"

definition is_ref :: "string \<Rightarrow> bool" where
  "is_ref name = (CHR '':'' \<in> set name)"

record secret_ref =
  rf_scheme :: string
  rf_path :: string
  rf_field :: "string option"

definition secret_url :: "secret_ref \<Rightarrow> string" where
  "secret_url r = rf_scheme r @ '':'' @ rf_path r"

definition braced :: "string \<Rightarrow> string" where
  "braced s = ''${'' @ s @ ''}''"

definition gcp_parts :: "string list \<Rightarrow> (string \<times> string \<times> string) option" where
  "gcp_parts parts = (case parts of
      [a, p, b, s, c, v] \<Rightarrow> if a = ''projects'' \<and> b = ''secrets'' \<and> c = ''versions'' then Some (p, s, v) else None
    | [a, p, b, s] \<Rightarrow> if a = ''projects'' \<and> b = ''secrets'' then Some (p, s, ''latest'') else None
    | [p, s, v] \<Rightarrow> Some (p, s, v)
    | [p, s] \<Rightarrow> Some (p, s, ''latest'')
    | _ \<Rightarrow> None)"

definition gcp_name :: "string \<Rightarrow> (string \<times> string \<times> string) option" where
  "gcp_name path = (case gcp_parts (split_on CHR ''/'' path) of
      None \<Rightarrow> None
    | Some (p, s, v) \<Rightarrow> if p \<noteq> [] \<and> s \<noteq> [] \<and> v \<noteq> [] then Some (p, s, v) else None)"

definition azure_parts :: "string list \<Rightarrow> (string \<times> string \<times> string) option" where
  "azure_parts parts = (case parts of
      [vault, name] \<Rightarrow> Some (vault, name, [])
    | [vault, name, version] \<Rightarrow> if version \<noteq> [] then Some (vault, name, version) else None
    | _ \<Rightarrow> None)"

definition azure_name :: "string \<Rightarrow> (string \<times> string \<times> string) option" where
  "azure_name path = (case azure_parts (split_on CHR ''/'' path) of
      None \<Rightarrow> None
    | Some (vault, name, version) \<Rightarrow> if vault \<noteq> [] \<and> name \<noteq> [] then Some (vault, name, version) else None)"

definition check_path :: "secret_ref \<Rightarrow> (signal_error, unit) res" where
  "check_path r =
     (let bad = (\<lambda>hint. Err (Config_Error (braced (secret_url r) @ '': expected '' @ hint))) in
      if rf_scheme r = ''aws-sm'' \<and> rf_path r = [] then bad ''aws-sm:<secret name or ARN>''
      else if rf_scheme r = ''gcp-sm'' \<and> gcp_name (rf_path r) = None
      then bad (''gcp-sm:<project>/<secret>[/<version>] or '' @ ''gcp-sm:projects/<p>/secrets/<s>/versions/<v>'')
      else if rf_scheme r = ''azure-kv'' \<and> azure_name (rf_path r) = None
      then bad ''azure-kv:<vault>/<name>[/<version>]''
      else Ok ())"

text \<open>The last \<open>#\<close> starts the field.\<close>

definition split_field :: "string \<Rightarrow> string \<Rightarrow> (signal_error, string \<times> string option) res" where
  "split_field name rest = (case rsplit_once CHR ''#'' rest of
      Some (path, field) \<Rightarrow>
        if field \<noteq> [] then Ok (path, Some field) else Err (Config_Error (''empty #field in '' @ braced name))
    | None \<Rightarrow> Ok (rest, None))"

definition parse_ref :: "string \<Rightarrow> (signal_error, secret_ref) res" where
  "parse_ref name =
     and_then (ok_or (Config_Error (quoted name @ '' is not a secret reference'')) (split_once CHR '':'' name))
       (\<lambda>(scheme, rest).
     and_then (ok_or (Config_Error (''unknown secret store '' @ quoted scheme @ '' in '' @ braced name @
          ''; use aws-sm, gcp-sm or azure-kv'')) (find (\<lambda>s. s = scheme) (map fst STORES)))
       (\<lambda>scheme.
     and_then (split_field name rest)
       (\<lambda>(path, field).
          let parsed = \<lparr>rf_scheme = scheme, rf_path = path, rf_field = field\<rparr>
          in and_then (check_path parsed) (\<lambda>_. Ok parsed))))"

definition cloud_of_store :: "secret_ref \<Rightarrow> string" where
  "cloud_of_store r =
     (if rf_scheme r = ''aws-sm'' then ''aws'' else if rf_scheme r = ''gcp-sm'' then ''gcp'' else ''azure'')"

subsection \<open>Facts\<close>

definition ref_text :: "secret_ref \<Rightarrow> string" where
  "ref_text r = secret_url r @ (case rf_field r of None \<Rightarrow> [] | Some f \<Rightarrow> ''#'' @ f)"

lemma gcp_name_parts: "gcp_name path = Some (p, s, v) \<Longrightarrow> p \<noteq> [] \<and> s \<noteq> [] \<and> v \<noteq> []"
  by (auto simp: gcp_name_def split: option.splits if_splits)

lemma azure_name_parts: "azure_name path = Some (p, s, v) \<Longrightarrow> p \<noteq> [] \<and> s \<noteq> []"
  by (auto simp: azure_name_def split: option.splits if_splits)

lemma find_eq_Some: "find (\<lambda>s. s = x) xs = Some y \<longleftrightarrow> y = x \<and> x \<in> set xs"
  by (induction xs) auto

lemma split_field_ok:
  "split_field name rest = Inr (path, field) \<longleftrightarrow>
     rest = path @ (case field of None \<Rightarrow> [] | Some f \<Rightarrow> ''#'' @ f) \<and> field \<noteq> Some [] \<and>
     (case field of None \<Rightarrow> CHR ''#'' \<notin> set path | Some f \<Rightarrow> CHR ''#'' \<notin> set f)"
proof (cases field)
  case None
  then show ?thesis by (auto simp: split_field_def rsplit_once_None rsplit_once_Some split: option.splits)
next
  case (Some f)
  then have "split_field name rest = Inr (path, field) \<longleftrightarrow> rsplit_once CHR ''#'' rest = Some (path, f) \<and> f \<noteq> []"
    by (auto simp: split_field_def split: option.splits)
  with Some show ?thesis by (auto simp: rsplit_once_Some)
qed

definition well_formed_ref :: "secret_ref \<Rightarrow> bool" where
  "well_formed_ref r \<longleftrightarrow> rf_scheme r \<in> set (map fst STORES) \<and> check_path r = Inr () \<and> rf_field r \<noteq> Some [] \<and>
     (case rf_field r of None \<Rightarrow> CHR ''#'' \<notin> set (rf_path r) | Some f \<Rightarrow> CHR ''#'' \<notin> set f)"

lemma store_no_colon: "s \<in> set (map fst STORES) \<Longrightarrow> CHR '':'' \<notin> set s"
  by (auto simp: STORES_def)

lemma parse_ref_iff: "parse_ref name = Inr r \<longleftrightarrow> name = ref_text r \<and> well_formed_ref r"
proof
  assume "parse_ref name = Inr r"
  then obtain scheme rest path field u where
    once: "split_once CHR '':'' name = Some (scheme, rest)" and s: "scheme \<in> set (map fst STORES)"
    and f: "split_field name rest = Inr (path, field)"
    and r: "r = \<lparr>rf_scheme = scheme, rf_path = path, rf_field = field\<rparr>" and "check_path r = Inr u"
    unfolding parse_ref_def and_then_Inr_iff ok_or_Inr_iff Let_def
    by (auto simp only: and_then_Inr_iff ok_or_Inr_iff find_eq_Some prod.case split_paired_Ex)
  then have c: "check_path r = Inr ()" by simp
  have "name = ref_text r"
    using once f by (simp add: r split_once_Some split_field_ok ref_text_def secret_url_def)
  moreover have "well_formed_ref r" using s f c unfolding split_field_ok well_formed_ref_def r
    by (cases field) simp_all
  ultimately show "name = ref_text r \<and> well_formed_ref r" ..
next
  assume wf: "name = ref_text r \<and> well_formed_ref r"
  then have known: "rf_scheme r \<in> set (map fst STORES)" by (simp only: well_formed_ref_def)
  let ?rest = "rf_path r @ (case rf_field r of None \<Rightarrow> [] | Some f \<Rightarrow> ''#'' @ f)"
  have "split_once CHR '':'' name = Some (rf_scheme r, ?rest)"
    using wf store_no_colon [OF known] by (simp add: ref_text_def secret_url_def)
  moreover have "find (\<lambda>s. s = rf_scheme r) (map fst STORES) = Some (rf_scheme r)"
    using known by (simp only: find_eq_Some simp_thms)
  moreover have "split_field name ?rest = Inr (rf_path r, rf_field r)"
    using wf unfolding split_field_ok by (simp add: well_formed_ref_def)
  moreover have "check_path \<lparr>rf_scheme = rf_scheme r, rf_path = rf_path r, rf_field = rf_field r\<rparr> = Inr ()"
    using wf by (cases r) (simp add: well_formed_ref_def)
  ultimately show "parse_ref name = Inr r"
    by (cases r) (simp add: parse_ref_def ok_or_def Let_def)
qed

text \<open>A parsed reference names everything its store needs.\<close>

lemma parse_ref_names:
  assumes "parse_ref name = Inr r"
  shows "if rf_scheme r = ''aws-sm'' then rf_path r \<noteq> []
    else if rf_scheme r = ''gcp-sm'' then gcp_name (rf_path r) \<noteq> None
    else rf_scheme r = ''azure-kv'' \<and> azure_name (rf_path r) \<noteq> None"
  using assms unfolding parse_ref_iff well_formed_ref_def
  by (auto simp: check_path_def STORES_def Let_def split: if_splits)

end
