(* ===== verification/Sources.thy ===== *)
theory Sources
  imports Secrets
begin

text \<open>
  \<^verbatim>\<open>crates/core/src/source.rs\<close>, the part about where a config lives: the sources, their text, parsing
  a \<^verbatim>\<open>$SIGNAL_CONFIG\<close> value, resolving an \<open>extends\<close> entry, the schemes a build can read, and the
  options of a load. A \<open>PathBuf\<close> is the text it was made from, and the operations of
  \<^verbatim>\<open>std::path\<close> are those of a Unix build. Parsing and joining an HTTP URL (the url crate) is the
  parameter \<open>url_join\<close>.
\<close>

datatype config_source =
    File string
  | Http string
  | S3 string string
  | Gcs string string
  | Azure string string
  | App_Config string string string
  | Azure_App_Config string string "string option"
  | Dynamo_Db string string "string option" "string option"
  | Firestore string string "string option" "string option"
  | Cosmos string string string string "string option" "string option"

definition CLOUD_SCHEMES :: "(string \<times> string list) list" where
  "CLOUD_SCHEMES = [(''aws'', [''s3'', ''appconfig'', ''dynamodb'', ''aws-sm'']),
     (''gcp'', [''gs'', ''firestore'', ''gcp-sm'']),
     (''azure'', [''az'', ''azappconfig'', ''cosmos'', ''azure-kv''])]"

subsection \<open>Text\<close>

fun write_query :: "char \<Rightarrow> (string \<times> string option) list \<Rightarrow> string" where
  "write_query sep [] = []"
| "write_query sep ((name, v) # ps) =
     (case v of
        Some x \<Rightarrow> sep # name @ ''='' @ x @ write_query CHR ''&'' ps
      | None \<Rightarrow> write_query sep ps)"

fun source_display :: "config_source \<Rightarrow> string" where
  "source_display (File p) = p"
| "source_display (Http u) = u"
| "source_display (S3 bucket key) = ''s3://'' @ bucket @ ''/'' @ key"
| "source_display (Gcs bucket obj) = ''gs://'' @ bucket @ ''/'' @ obj"
| "source_display (Azure cont blob) = ''az://'' @ cont @ ''/'' @ blob"
| "source_display (App_Config app env prof) = ''appconfig://'' @ app @ ''/'' @ env @ ''/'' @ prof"
| "source_display (Azure_App_Config store key label) =
     ''azappconfig://'' @ store @ ''/'' @ key @ write_query CHR ''?'' [(''label'', label)]"
| "source_display (Dynamo_Db table i key val) =
     ''dynamodb://'' @ table @ ''/'' @ i @ write_query CHR ''?'' [(''key'', key), (''value'', val)]"
| "source_display (Firestore proj doc db fld) =
     ''firestore://'' @ proj @ ''/'' @ doc @ write_query CHR ''?'' [(''database'', db), (''field'', fld)]"
| "source_display (Cosmos acc db cont i pk fld) =
     ''cosmos://'' @ acc @ ''/'' @ db @ ''/'' @ cont @ ''/'' @ i @ write_query CHR ''?'' [(''pk'', pk), (''field'', fld)]"

fun is_remote :: "config_source \<Rightarrow> bool" where
  "is_remote (File _) = False"
| "is_remote _ = True"

fun scheme :: "config_source \<Rightarrow> string" where
  "scheme (File _) = ''file''"
| "scheme (Http u) = (if starts_with ''http://'' u then ''http'' else ''https'')"
| "scheme (S3 _ _) = ''s3''"
| "scheme (Gcs _ _) = ''gs''"
| "scheme (Azure _ _) = ''az''"
| "scheme (App_Config _ _ _) = ''appconfig''"
| "scheme (Azure_App_Config _ _ _) = ''azappconfig''"
| "scheme (Dynamo_Db _ _ _ _) = ''dynamodb''"
| "scheme (Firestore _ _ _ _) = ''firestore''"
| "scheme (Cosmos _ _ _ _ _ _) = ''cosmos''"

definition cloud_of_scheme :: "string \<Rightarrow> string option" where
  "cloud_of_scheme s = map_option fst (find (\<lambda>(_, schemes). s \<in> set schemes) CLOUD_SCHEMES)"

definition cloud :: "config_source \<Rightarrow> string option" where
  "cloud src = cloud_of_scheme (scheme src)"

subsection \<open>Parsing\<close>

definition split_bucket :: "string \<Rightarrow> string \<Rightarrow> (signal_error, string \<times> string) res" where
  "split_bucket rest raw =
     (case split_once CHR ''/'' rest of
        Some (bucket, key) \<Rightarrow>
          if bucket \<noteq> [] \<and> key \<noteq> [] then Ok (bucket, key)
          else Err (Config_Error (raw @ '': expected <scheme>://<bucket>/<path to signal.yaml>''))
      | None \<Rightarrow> Err (Config_Error (raw @ '': expected <scheme>://<bucket>/<path to signal.yaml>'')))"

fun position :: "'a \<Rightarrow> 'a list \<Rightarrow> nat option" where
  "position x [] = None"
| "position x (y # ys) = (if x = y then Some 0 else map_option Suc (position x ys))"

fun query_values :: "string \<Rightarrow> string list \<Rightarrow> string list \<Rightarrow> string option list \<Rightarrow> (signal_error, string option list) res" where
  "query_values raw allowed [] vals = Ok vals"
| "query_values raw allowed (pair # pairs) vals =
     (let (name, v) = unwrap_or (pair, []) (split_once CHR ''='' pair);
          bad = Err (Config_Error (raw @ '': unexpected '' @ quoted pair @ '' (allowed once each, with a value: '' @
            join '', '' (map (\<lambda>a. a @ ''='') allowed) @ '')''))
      in case position name allowed of
           Some i \<Rightarrow>
             if vals ! i = None \<and> v \<noteq> [] then query_values raw allowed pairs (vals[i := Some v]) else bad
         | None \<Rightarrow> bad)"

definition split_query :: "string \<Rightarrow> string \<Rightarrow> string list \<Rightarrow> (signal_error, string \<times> string option list) res" where
  "split_query rest raw allowed =
     (case split_once CHR ''?'' rest of
        None \<Rightarrow> Ok (rest, replicate (length allowed) None)
      | Some (path, query) \<Rightarrow>
          and_then (query_values raw allowed (split_on CHR ''&'' query) (replicate (length allowed) None))
            (\<lambda>vals. Ok (path, vals)))"

definition parse_app_config :: "string \<Rightarrow> string \<Rightarrow> (signal_error, config_source) res" where
  "parse_app_config rest raw =
     (let bad = Err (Config_Error (raw @ '': expected appconfig://<application>/<environment>/<configuration profile>'')) in
      case split_on CHR ''/'' rest of
        [app, env, prof] \<Rightarrow> if app \<noteq> [] \<and> env \<noteq> [] \<and> prof \<noteq> [] then Ok (App_Config app env prof) else bad
      | _ \<Rightarrow> bad)"

definition parse_azure_app_config :: "string \<Rightarrow> string \<Rightarrow> (signal_error, config_source) res" where
  "parse_azure_app_config rest raw =
     and_then (split_query rest raw [''label'']) (\<lambda>(path, vals).
     and_then (split_bucket path raw) (\<lambda>(store, key). Ok (Azure_App_Config store key (vals ! 0))))"

definition parse_dynamo_db :: "string \<Rightarrow> string \<Rightarrow> (signal_error, config_source) res" where
  "parse_dynamo_db rest raw =
     and_then (split_query rest raw [''key'', ''value'']) (\<lambda>(path, vals).
       let bad = Err (Config_Error (raw @ '': expected dynamodb://<table>/<item id>'')) in
       case split_once CHR ''/'' path of
         Some (table, i) \<Rightarrow>
           if table \<noteq> [] \<and> i \<noteq> [] \<and> CHR ''/'' \<notin> set i then Ok (Dynamo_Db table i (vals ! 0) (vals ! 1)) else bad
       | None \<Rightarrow> bad)"

definition parse_firestore :: "string \<Rightarrow> string \<Rightarrow> (signal_error, config_source) res" where
  "parse_firestore rest raw =
     and_then (split_query rest raw [''database'', ''field'']) (\<lambda>(path, vals).
     and_then (split_bucket path raw) (\<lambda>(proj, doc).
       let segments = split_on CHR ''/'' doc in
       if odd (length segments) \<or> [] \<in> set segments
       then Err (Config_Error (raw @ '': expected firestore://<project>/<collection>/<document>''))
       else Ok (Firestore proj doc (vals ! 0) (vals ! 1))))"

definition parse_cosmos :: "string \<Rightarrow> string \<Rightarrow> (signal_error, config_source) res" where
  "parse_cosmos rest raw =
     and_then (split_query rest raw [''pk'', ''field'']) (\<lambda>(path, vals).
       let bad = Err (Config_Error (raw @ '': expected cosmos://<account>/<database>/<container>/<item id>'')) in
       case split_on CHR ''/'' path of
         [acc, db, cont, i] \<Rightarrow>
           if acc \<noteq> [] \<and> db \<noteq> [] \<and> cont \<noteq> [] \<and> i \<noteq> []
           then Ok (Cosmos acc db cont i (vals ! 0) (vals ! 1)) else bad
       | _ \<Rightarrow> bad)"

text \<open>The host of an authority, with a port or an IPv6 literal in brackets.\<close>

definition host_of :: "string \<Rightarrow> string" where
  "host_of authority =
     (case split_once CHR '']'' authority of
        Some (inside, _) \<Rightarrow>
          if starts_with ''['' authority then inside @ '']'' else hd (split_on CHR '':'' authority)
      | None \<Rightarrow> hd (split_on CHR '':'' authority))"

definition parse_http :: "string \<Rightarrow> string \<Rightarrow> (signal_error, config_source) res" where
  "parse_http rest raw =
     (if host_of (hd (split_on CHR ''/'' rest)) \<in> set [''localhost'', ''127.0.0.1'', ''[::1]'']
      then Ok (Http raw)
      else Err (Config_Error (raw @ '': plain http:// is only allowed for localhost; use https://'')))"

definition on_prefix :: "string \<Rightarrow> string \<Rightarrow> (string \<Rightarrow> 'a) \<Rightarrow> 'a \<Rightarrow> 'a" where
  "on_prefix p raw f other = (case strip_prefix p raw of Some rest \<Rightarrow> f rest | None \<Rightarrow> other)"

definition parse_trimmed :: "string \<Rightarrow> (signal_error, config_source) res" where
  "parse_trimmed raw =
     on_prefix ''s3://'' raw (\<lambda>rest. and_then (split_bucket rest raw) (\<lambda>(b, k). Ok (S3 b k))) (
     on_prefix ''gs://'' raw (\<lambda>rest. and_then (split_bucket rest raw) (\<lambda>(b, k). Ok (Gcs b k))) (
     on_prefix ''az://'' raw (\<lambda>rest. and_then (split_bucket rest raw) (\<lambda>(b, k). Ok (Azure b k))) (
     on_prefix ''appconfig://'' raw (\<lambda>rest. parse_app_config rest raw) (
     on_prefix ''azappconfig://'' raw (\<lambda>rest. parse_azure_app_config rest raw) (
     on_prefix ''dynamodb://'' raw (\<lambda>rest. parse_dynamo_db rest raw) (
     on_prefix ''firestore://'' raw (\<lambda>rest. parse_firestore rest raw) (
     on_prefix ''cosmos://'' raw (\<lambda>rest. parse_cosmos rest raw) (
     on_prefix ''https://'' raw (\<lambda>_. Ok (Http raw)) (
     on_prefix ''http://'' raw (\<lambda>rest. parse_http rest raw) (
     if contains_sub ''://'' raw
     then Err (Config_Error (raw @ '': unsupported scheme (use a local path, https://, s3://, gs://, az://, '' @
       ''appconfig://, azappconfig://, dynamodb://, firestore:// or cosmos://)''))
     else Ok (File raw)))))))))))"

definition parse_source :: "string \<Rightarrow> (signal_error, config_source) res" where
  "parse_source raw = parse_trimmed (trim raw)"

definition parse_list :: "string \<Rightarrow> (signal_error, config_source list) res" where
  "parse_list raw =
     and_then (collect_res parse_source (filter (\<lambda>s. s \<noteq> []) (map trim (split_on CHR '','' raw))))
       (\<lambda>sources. if sources = [] then Err (Config_Error (quoted raw @ '' names no config file'')) else Ok sources)"

definition CONFIG_ENV_VAR :: string where "CONFIG_ENV_VAR = ''SIGNAL_CONFIG''"
definition DEFAULT_CONFIG_FILE :: string where "DEFAULT_CONFIG_FILE = ''signal.yaml''"

text \<open>\<open>env\<close> reads the environment and \<open>is_file\<close> asks the file system.\<close>

fun check_files :: "(string \<Rightarrow> bool) \<Rightarrow> config_source list \<Rightarrow> (signal_error, unit) res" where
  "check_files is_file [] = Ok ()"
| "check_files is_file (File p # srcs) =
     (if \<not> is_file p
      then Err (Config_Error (''$'' @ CONFIG_ENV_VAR @ '' points to '' @ p @ '', which is not a file''))
      else check_files is_file srcs)"
| "check_files is_file (src # srcs) = check_files is_file srcs"

definition discover :: "(string \<Rightarrow> string option) \<Rightarrow> (string \<Rightarrow> bool) \<Rightarrow> (signal_error, config_source list option) res" where
  "discover env is_file =
     (case env CONFIG_ENV_VAR of
        Some raw \<Rightarrow>
          and_then (parse_list raw) (\<lambda>sources.
          and_then (check_files is_file sources) (\<lambda>_. Ok (Some sources)))
      | None \<Rightarrow> Ok (if is_file DEFAULT_CONFIG_FILE then Some [File DEFAULT_CONFIG_FILE] else None))"

subsection \<open>Local paths\<close>

datatype component = Root_Dir | Cur_Dir | Parent_Dir | Normal string

definition seg_component :: "string \<Rightarrow> component list" where
  "seg_component seg = (if seg = [] \<or> seg = ''.'' then [] else if seg = ''..'' then [Parent_Dir] else [Normal seg])"

definition components :: "string \<Rightarrow> component list" where
  "components path =
     (let segs = split_on CHR ''/'' path in
      if starts_with ''/'' path then Root_Dir # concat (map seg_component segs)
      else (if hd segs = ''.'' then [Cur_Dir] else seg_component (hd segs)) @ concat (map seg_component (tl segs)))"

definition parent_path :: "component list \<Rightarrow> component list option" where
  "parent_path cs = (if cs = [] \<or> last cs = Root_Dir then None else Some (butlast cs))"

fun component_text :: "component \<Rightarrow> string" where
  "component_text Root_Dir = []"
| "component_text Cur_Dir = ''.''"
| "component_text Parent_Dir = ''..''"
| "component_text (Normal s) = s"

definition path_text :: "component list \<Rightarrow> string" where
  "path_text cs = (if cs = [Root_Dir] then ''/'' else join ''/'' (map component_text cs))"

fun is_normal :: "component \<Rightarrow> bool" where
  "is_normal (Normal _) = True"
| "is_normal _ = False"

fun normalize_step :: "component list \<Rightarrow> component \<Rightarrow> component list" where
  "normalize_step out Cur_Dir = out"
| "normalize_step out Parent_Dir =
     (if out \<noteq> [] \<and> is_normal (last out) then butlast out else out @ [Parent_Dir])"
| "normalize_step out c = out @ [c]"

definition normalize :: "component list \<Rightarrow> component list" where
  "normalize cs = foldl normalize_step [] cs"

subsection \<open>Resolving an \<open>extends\<close> entry\<close>

fun join_segments :: "string list \<Rightarrow> string list \<Rightarrow> string list option" where
  "join_segments parts [] = Some parts"
| "join_segments parts (seg # segs) =
     (if seg = [] \<or> seg = ''.'' then join_segments parts segs
      else if seg = ''..'' then (if parts = [] then None else join_segments (butlast parts) segs)
      else join_segments (parts @ [seg]) segs)"

definition join_key :: "config_source \<Rightarrow> string \<Rightarrow> string \<Rightarrow> (signal_error, string) res" where
  "join_key self key ref =
     (case join_segments (butlast (split_on CHR ''/'' key)) (split_on CHR ''/'' ref) of
        None \<Rightarrow> Err (Config_Error (source_display self @ '': '' @ quoted ref @ '' points outside the bucket''))
      | Some parts \<Rightarrow>
          if parts = [] then Err (Config_Error (source_display self @ '': '' @ quoted ref @ '' does not name a file''))
          else Ok (join ''/'' parts))"

definition flat_name :: "config_source \<Rightarrow> string \<Rightarrow> (signal_error, string) res" where
  "flat_name self ref =
     (if ref = [] \<or> CHR ''/'' \<in> set ref \<or> CHR ''?'' \<in> set ref
      then Err (Config_Error (source_display self @ '': '' @ quoted ref @ '' is not an item id; use a full '' @
        scheme self @ '':// URL''))
      else Ok ref)"

definition absolute :: "string \<Rightarrow> bool" where
  "absolute ref = (contains_sub ''://'' ref \<or> starts_with ''/'' ref)"

definition join_file :: "string \<Rightarrow> string \<Rightarrow> config_source" where
  "join_file path ref = File (path_text (normalize (unwrap_or [] (parent_path (components path)) @ components ref)))"

fun join_relative :: "(string \<Rightarrow> string \<Rightarrow> (string, string) res) \<Rightarrow> config_source \<Rightarrow> string \<Rightarrow> (signal_error, config_source) res" where
  "join_relative url_join (File path) ref = Ok (join_file path ref)"
| "join_relative url_join (Http u) ref =
     and_then (map_err (\<lambda>e. Config_Error (u @ '': cannot resolve '' @ quoted ref @ '': '' @ e)) (url_join u ref)) parse_source"
| "join_relative url_join (S3 bucket key) ref = and_then (join_key (S3 bucket key) key ref) (\<lambda>k. Ok (S3 bucket k))"
| "join_relative url_join (Gcs bucket key) ref = and_then (join_key (Gcs bucket key) key ref) (\<lambda>k. Ok (Gcs bucket k))"
| "join_relative url_join (Azure bucket key) ref = and_then (join_key (Azure bucket key) key ref) (\<lambda>k. Ok (Azure bucket k))"
| "join_relative url_join (App_Config app env prof) ref =
     (if ref = [] \<or> CHR ''/'' \<in> set ref
      then Err (Config_Error (source_display (App_Config app env prof) @ '': '' @ quoted ref @
        '' is not a profile name; use a full appconfig:// URL''))
      else Ok (App_Config app env ref))"
| "join_relative url_join (Azure_App_Config store key label) ref =
     and_then (join_key (Azure_App_Config store key label) key ref) (\<lambda>k. Ok (Azure_App_Config store k label))"
| "join_relative url_join (Dynamo_Db table i key val) ref =
     and_then (flat_name (Dynamo_Db table i key val) ref) (\<lambda>n. Ok (Dynamo_Db table n key val))"
| "join_relative url_join (Firestore proj doc db fld) ref =
     and_then (join_key (Firestore proj doc db fld) doc ref) (\<lambda>d.
       if odd (length (split_on CHR ''/'' d))
       then Err (Config_Error (source_display (Firestore proj doc db fld) @ '': '' @ quoted ref @
         '' is a collection, not a document''))
       else Ok (Firestore proj d db fld))"
| "join_relative url_join (Cosmos acc db cont i pk fld) ref =
     and_then (flat_name (Cosmos acc db cont i pk fld) ref) (\<lambda>n. Ok (Cosmos acc db cont n None fld))"

definition join_source :: "(string \<Rightarrow> string \<Rightarrow> (string, string) res) \<Rightarrow> config_source \<Rightarrow> string \<Rightarrow> (signal_error, config_source) res" where
  "join_source url_join self ref0 =
     (let ref = trim ref0 in
      and_then (if absolute ref then parse_source ref else join_relative url_join self ref)
        (\<lambda>joined.
           if is_remote self \<and> \<not> is_remote joined
           then Err (Config_Error (source_display self @ '': a remote config cannot extend the local file '' @
             source_display joined))
           else Ok joined))"


subsection \<open>A source's text names it\<close>

lemma split_bucket_ok:
  "split_bucket rest raw = Inr (b, k) \<longleftrightarrow> rest = b @ CHR ''/'' # k \<and> CHR ''/'' \<notin> set b \<and> b \<noteq> [] \<and> k \<noteq> []"
proof -
  have "split_bucket rest raw = Inr (b, k) \<longleftrightarrow> split_once CHR ''/'' rest = Some (b, k) \<and> b \<noteq> [] \<and> k \<noteq> []"
    by (auto simp: split_bucket_def split: option.splits if_splits)
  then show ?thesis by (auto simp: split_once_Some)
qed

lemma query_values_Cons:
  "query_values raw al (pair # pairs) vals = Inr r \<longleftrightarrow>
     (\<exists>name v i. pair = name @ CHR ''='' # v \<and> CHR ''='' \<notin> set name \<and> v \<noteq> [] \<and> position name al = Some i \<and>
        vals ! i = None \<and> query_values raw al pairs (vals[i := Some v]) = Inr r)"
proof (cases "split_once CHR ''='' pair")
  case None
  then have "\<not> (\<exists>name v. pair = name @ CHR ''='' # v)" by (auto simp: split_once_None)
  with None show ?thesis by (auto simp: Let_def split: option.splits)
next
  case (Some nv)
  obtain n v where nv: "nv = (n, v)" by (cases nv)
  have "pair = n' @ CHR ''='' # v' \<and> CHR ''='' \<notin> set n' \<longleftrightarrow> n' = n \<and> v' = v" for n' v'
    using Some by (auto simp: nv split_once_Some [symmetric])
  then have "(\<exists>name v i. pair = name @ CHR ''='' # v \<and> CHR ''='' \<notin> set name \<and> v \<noteq> [] \<and> position name al = Some i \<and>
        vals ! i = None \<and> query_values raw al pairs (vals[i := Some v]) = Inr r) \<longleftrightarrow>
      (\<exists>i. v \<noteq> [] \<and> position n al = Some i \<and> vals ! i = None \<and> query_values raw al pairs (vals[i := Some v]) = Inr r)"
    by metis
  with Some nv show ?thesis by (auto simp: Let_def split: option.splits)
qed

lemma query_values_ConsE:
  assumes "query_values raw al (pair # pairs) vals = Inr r"
  obtains name v i where "pair = name @ CHR ''='' # v" "CHR ''='' \<notin> set name" "v \<noteq> []" "position name al = Some i"
    "vals ! i = None" "query_values raw al pairs (vals[i := Some v]) = Inr r"
  using assms unfolding query_values_Cons by blast

lemma position_one: "position x [n] = Some i \<longleftrightarrow> x = n \<and> i = 0"
  by auto

lemma position_two: "position x [n, m] = Some i \<longleftrightarrow> x = n \<and> i = 0 \<or> x = m \<and> x \<noteq> n \<and> i = 1"
  by auto

lemma query_values_step:
  "CHR ''='' \<notin> set n \<Longrightarrow> x \<noteq> [] \<Longrightarrow> position n al = Some i \<Longrightarrow> vals ! i = None \<Longrightarrow>
     query_values raw al ((n @ CHR ''='' # x) # ps) vals = query_values raw al ps (vals[i := Some x])"
  by simp

declare query_values.simps(2) [simp del]

lemma query_values_one:
  assumes "query_values raw [n] pairs [None] = Inr r"
  shows "pairs = [] \<and> r = [None] \<or> (\<exists>x. x \<noteq> [] \<and> pairs = [n @ CHR ''='' # x] \<and> r = [Some x])"
proof (cases pairs)
  case (Cons p ps)
  obtain name v i where p: "p = name @ CHR ''='' # v" "v \<noteq> []" "position name [n] = Some i"
    and rest: "query_values raw [n] ps ([None][i := Some v]) = Inr r"
    using assms unfolding Cons by (rule query_values_ConsE)
  then have ni: "name = n" "i = 0" unfolding position_one by auto
  have "ps = []"
  proof (cases ps)
    case (Cons q qs)
    obtain name' i' where "position name' [n] = Some i'" "[None][i := Some v] ! i' = None"
      using rest unfolding Cons by (rule query_values_ConsE)
    then show ?thesis unfolding position_one ni by simp
  qed
  with rest p ni Cons show ?thesis by simp
qed (use assms in simp)

lemma query_values_full:
  assumes "query_values raw [n, m] ps [Some x, Some y] = Inr r"
  shows "ps = [] \<and> r = [Some x, Some y]"
proof (cases ps)
  case (Cons q qs)
  obtain name i where "position name [n, m] = Some i" "[Some x, Some y] ! i = None"
    using assms unfolding Cons by (rule query_values_ConsE)
  then show ?thesis unfolding position_two by auto
qed (use assms in simp)

lemma query_values_second:
  assumes "query_values raw [n, m] ps [Some x, None] = Inr r"
  shows "(ps = [] \<and> r = [Some x, None]) \<or> (\<exists>y. y \<noteq> [] \<and> ps = [m @ CHR ''='' # y] \<and> r = [Some x, Some y])"
proof (cases ps)
  case (Cons q qs)
  obtain name v i where q: "q = name @ CHR ''='' # v" "v \<noteq> []" "position name [n, m] = Some i"
    "[Some x, None] ! i = None" "query_values raw [n, m] qs ([Some x, None][i := Some v]) = Inr r"
    using assms unfolding Cons by (rule query_values_ConsE)
  then have "name = m" "i = 1" unfolding position_two by auto
  with q Cons query_values_full [of raw n m qs x v] show ?thesis by simp
qed (use assms in simp)

lemma query_values_first:
  assumes "query_values raw [n, m] ps [None, Some y] = Inr r"
  shows "(ps = [] \<and> r = [None, Some y]) \<or> (\<exists>x. x \<noteq> [] \<and> ps = [n @ CHR ''='' # x] \<and> r = [Some x, Some y])"
proof (cases ps)
  case (Cons q qs)
  obtain name v i where q: "q = name @ CHR ''='' # v" "v \<noteq> []" "position name [n, m] = Some i"
    "[None, Some y] ! i = None" "query_values raw [n, m] qs ([None, Some y][i := Some v]) = Inr r"
    using assms unfolding Cons by (rule query_values_ConsE)
  then have "name = n" "i = 0" unfolding position_two by auto
  with q Cons query_values_full [of raw n m qs v y] show ?thesis by simp
qed (use assms in simp)

lemma query_values_two:
  assumes "query_values raw [n, m] pairs [None, None] = Inr r"
  shows "(pairs = [] \<and> r = [None, None]) \<or>
     (\<exists>x. x \<noteq> [] \<and> pairs = [n @ CHR ''='' # x] \<and> r = [Some x, None]) \<or>
     (\<exists>y. y \<noteq> [] \<and> pairs = [m @ CHR ''='' # y] \<and> r = [None, Some y]) \<or>
     (\<exists>x y. x \<noteq> [] \<and> y \<noteq> [] \<and> r = [Some x, Some y] \<and>
        (pairs = [n @ CHR ''='' # x, m @ CHR ''='' # y] \<or> pairs = [m @ CHR ''='' # y, n @ CHR ''='' # x]))"
proof (cases pairs)
  case (Cons q qs)
  obtain name v i where q: "q = name @ CHR ''='' # v" "v \<noteq> []" "position name [n, m] = Some i"
    "query_values raw [n, m] qs ([None, None][i := Some v]) = Inr r"
    using assms unfolding Cons by (rule query_values_ConsE)
  then consider "name = n" "i = 0" | "name = m" "i = 1" unfolding position_two by auto
  then show ?thesis
  proof cases
    case 1
    with q Cons query_values_second [of raw n m qs v r] show ?thesis by auto
  next
    case 2
    with q Cons query_values_first [of raw n m qs v r] show ?thesis by auto
  qed
qed (use assms in simp)

text \<open>A query read with one or two parameters, against the text it is written as.\<close>

lemma split_query_one:
  assumes "split_query rest raw [n] = Inr (path, vals)"
  shows "\<exists>v. vals = [v] \<and> CHR ''?'' \<notin> set path \<and> rest = path @ write_query CHR ''?'' [(n, v)] \<and>
     (case v of None \<Rightarrow> True | Some x \<Rightarrow> x \<noteq> [] \<and> CHR ''&'' \<notin> set x)"
proof (cases "split_once CHR ''?'' rest")
  case None
  with assms show ?thesis by (auto simp: split_query_def split_once_None)
next
  case (Some pq)
  obtain query where q: "pq = (path, query)" "query_values raw [n] (split_on CHR ''&'' query) [None] = Inr vals"
    using assms Some by (cases pq) (auto simp: split_query_def and_then_Inr_iff)
  from query_values_one [OF q(2)] obtain x where x: "x \<noteq> []" "split_on CHR ''&'' query = [n @ CHR ''='' # x]" "vals = [Some x]"
    by auto
  have "query = n @ CHR ''='' # x" using join_split_on [of "CHR ''&''" query] x(2) by simp
  moreover have "CHR ''&'' \<notin> set (n @ CHR ''='' # x)"
    by (rule split_on_seg [of _ _ query]) (simp add: x(2))
  ultimately show ?thesis using Some q x by (auto simp: split_once_Some)
qed

lemma split_query_two:
  assumes "split_query rest raw [n, m] = Inr (path, vals)"
  shows "\<exists>v w. vals = [v, w] \<and> CHR ''?'' \<notin> set path \<and>
     set (path @ write_query CHR ''?'' [(n, v), (m, w)]) = set rest \<and>
     (case v of None \<Rightarrow> True | Some x \<Rightarrow> x \<noteq> [] \<and> CHR ''&'' \<notin> set x) \<and>
     (case w of None \<Rightarrow> True | Some y \<Rightarrow> y \<noteq> [] \<and> CHR ''&'' \<notin> set y)"
proof (cases "split_once CHR ''?'' rest")
  case None
  with assms show ?thesis by (auto simp: split_query_def split_once_None numeral_2_eq_2)
next
  case (Some pq)
  obtain query where q: "pq = (path, query)"
    "query_values raw [n, m] (split_on CHR ''&'' query) [None, None] = Inr vals"
    using assms Some by (cases pq) (auto simp: split_query_def and_then_Inr_iff numeral_2_eq_2)
  have rest: "rest = path @ CHR ''?'' # query" "CHR ''?'' \<notin> set path"
    using Some q by (auto simp: split_once_Some)
  have query: "query = join [CHR ''&''] (split_on CHR ''&'' query)" by (simp add: join_split_on)
  have amp: "CHR ''&'' \<notin> set (k @ CHR ''='' # x)" if "k @ CHR ''='' # x \<in> set (split_on CHR ''&'' query)" for k x
    by (rule split_on_seg) (rule that)
  have ne: "split_on CHR ''&'' query \<noteq> []" by simp
  show ?thesis
    using query_values_two [OF q(2)]
  proof (elim disjE exE conjE)
    fix x assume "x \<noteq> []" "split_on CHR ''&'' query = [n @ CHR ''='' # x]" "vals = [Some x, None]"
    then show ?thesis using rest query amp [of n x] by auto
  next
    fix y assume "y \<noteq> []" "split_on CHR ''&'' query = [m @ CHR ''='' # y]" "vals = [None, Some y]"
    then show ?thesis using rest query amp [of m y] by auto
  next
    fix x y assume "x \<noteq> []" "y \<noteq> []" "vals = [Some x, Some y]"
      "split_on CHR ''&'' query = [n @ CHR ''='' # x, m @ CHR ''='' # y]"
    then show ?thesis using rest query amp [of n x] amp [of m y] by auto
  next
    fix x y assume "x \<noteq> []" "y \<noteq> []" "vals = [Some x, Some y]"
      "split_on CHR ''&'' query = [m @ CHR ''='' # y, n @ CHR ''='' # x]"
    then show ?thesis using rest query amp [of n x] amp [of m y] by auto
  qed (use ne in simp)
qed

lemma split_query_none: "CHR ''?'' \<notin> set path \<Longrightarrow> split_query path raw al = Inr (path, replicate (length al) None)"
  by (simp add: split_query_def split_once_None [THEN iffD2])

lemma split_query_some:
  "CHR ''?'' \<notin> set path \<Longrightarrow> query_values raw al (split_on CHR ''&'' q) (replicate (length al) None) = Inr vals \<Longrightarrow>
     split_query (path @ CHR ''?'' # q) raw al = Inr (path, vals)"
  by (simp add: split_query_def)

lemma split_query_write_one:
  assumes "CHR ''?'' \<notin> set path" "CHR ''='' \<notin> set n" "CHR ''&'' \<notin> set n"
    "case v of None \<Rightarrow> True | Some x \<Rightarrow> x \<noteq> [] \<and> CHR ''&'' \<notin> set x"
  shows "split_query (path @ write_query CHR ''?'' [(n, v)]) raw [n] = Inr (path, [v])"
proof (cases v)
  case None
  with assms show ?thesis by (simp add: split_query_none)
next
  case (Some x)
  with assms show ?thesis by (simp add: split_query_some split_on_free query_values_step)
qed

lemma split_query_write_two:
  assumes "CHR ''?'' \<notin> set path" "CHR ''='' \<notin> set n" "CHR ''&'' \<notin> set n" "CHR ''='' \<notin> set m" "CHR ''&'' \<notin> set m" "n \<noteq> m"
    "case v of None \<Rightarrow> True | Some x \<Rightarrow> x \<noteq> [] \<and> CHR ''&'' \<notin> set x"
    "case w of None \<Rightarrow> True | Some y \<Rightarrow> y \<noteq> [] \<and> CHR ''&'' \<notin> set y"
  shows "split_query (path @ write_query CHR ''?'' [(n, v), (m, w)]) raw [n, m] = Inr (path, [v, w])"
proof -
  have pos: "position n [n, m] = Some 0" "position m [n, m] = Some 1" using assms(6) by auto
  have both: "split_on CHR ''&'' (n @ CHR ''='' # x @ CHR ''&'' # m @ CHR ''='' # y) = [n @ CHR ''='' # x, m @ CHR ''='' # y]"
    if "CHR ''&'' \<notin> set x" "CHR ''&'' \<notin> set y" for x y
    using assms that split_on_append [of "CHR ''&''" "n @ CHR ''='' # x"] by (simp add: split_on_free)
  consider "v = None" "w = None" | x where "v = Some x" "w = None" | y where "v = None" "w = Some y"
    | x y where "v = Some x" "w = Some y" by (cases v; cases w) auto
  then show ?thesis
  proof cases
    case 1
    with assms show ?thesis by (simp add: split_query_none)
  next
    case (2 x)
    with assms pos show ?thesis
      by (simp add: split_query_some split_on_free query_values_step del: position.simps)
  next
    case (3 y)
    with assms pos show ?thesis
      by (simp add: split_query_some split_on_free query_values_step del: position.simps)
  next
    case (4 x y)
    with assms pos both [of x y] show ?thesis
      by (simp add: split_query_some query_values_step del: position.simps)
  qed
qed

lemma on_prefixE:
  assumes "on_prefix p raw f other = r"
  obtains rest where "raw = p @ rest" "f rest = r" | "other = r"
  using assms by (auto simp: on_prefix_def strip_prefix_Some split: option.splits)

lemma parse_trimmed_on:
  "parse_trimmed (''s3://'' @ rest) = and_then (split_bucket rest (''s3://'' @ rest)) (\<lambda>(b, k). Ok (S3 b k))"
  "parse_trimmed (''gs://'' @ rest) = and_then (split_bucket rest (''gs://'' @ rest)) (\<lambda>(b, k). Ok (Gcs b k))"
  "parse_trimmed (''az://'' @ rest) = and_then (split_bucket rest (''az://'' @ rest)) (\<lambda>(b, k). Ok (Azure b k))"
  "parse_trimmed (''appconfig://'' @ rest) = parse_app_config rest (''appconfig://'' @ rest)"
  "parse_trimmed (''azappconfig://'' @ rest) = parse_azure_app_config rest (''azappconfig://'' @ rest)"
  "parse_trimmed (''dynamodb://'' @ rest) = parse_dynamo_db rest (''dynamodb://'' @ rest)"
  "parse_trimmed (''firestore://'' @ rest) = parse_firestore rest (''firestore://'' @ rest)"
  "parse_trimmed (''cosmos://'' @ rest) = parse_cosmos rest (''cosmos://'' @ rest)"
  by (simp_all add: parse_trimmed_def on_prefix_def)

lemma parse_app_config_ok:
  "parse_app_config rest raw = Inr s \<Longrightarrow> \<exists>a e q. s = App_Config a e q \<and> rest = a @ ''/'' @ e @ ''/'' @ q"
  using join_split_on [of "CHR ''/''" rest]
  by (auto simp: parse_app_config_def Let_def split: list.splits if_splits)

lemma parse_cosmos_ok:
  assumes "parse_cosmos rest raw = Inr s"
  shows "\<exists>acc db cont i v w path. s = Cosmos acc db cont i v w \<and> split_query rest raw [''pk'', ''field''] = Inr (path, [v, w]) \<and>
     path = acc @ ''/'' @ db @ ''/'' @ cont @ ''/'' @ i \<and> split_on CHR ''/'' path = [acc, db, cont, i] \<and>
     acc \<noteq> [] \<and> db \<noteq> [] \<and> cont \<noteq> [] \<and> i \<noteq> []"
proof -
  from assms obtain path vals where sq: "split_query rest raw [''pk'', ''field''] = Inr (path, vals)"
    by (auto simp: parse_cosmos_def and_then_Inr_iff)
  then obtain v w where vals: "vals = [v, w]" using split_query_two by blast
  from assms sq vals obtain acc db cont i where
    "split_on CHR ''/'' path = [acc, db, cont, i]" "acc \<noteq> []" "db \<noteq> []" "cont \<noteq> []" "i \<noteq> []" "s = Cosmos acc db cont i v w"
    by (auto simp: parse_cosmos_def Let_def split: list.splits if_splits)
  moreover from this have "path = acc @ ''/'' @ db @ ''/'' @ cont @ ''/'' @ i"
    using join_split_on [of "CHR ''/''" path] by simp
  ultimately show ?thesis using sq vals by blast
qed

lemma parse_azure_app_config_ok:
  assumes "parse_azure_app_config rest raw = Inr s"
  shows "source_display s = ''azappconfig://'' @ rest"
proof -
  from assms obtain path vals b k where sq: "split_query rest raw [''label''] = Inr (path, vals)"
    and sb: "split_bucket path raw = Inr (b, k)" and s: "s = Azure_App_Config b k (vals ! 0)"
    by (auto simp: parse_azure_app_config_def and_then_Inr_iff)
  from split_query_one [OF sq] sb s show ?thesis by (auto simp: split_bucket_ok)
qed

text \<open>For the sources with two parameters the text is canonical: it is read back as the same source.\<close>

lemma parse_dynamo_db_back:
  assumes "parse_dynamo_db rest raw = Inr s"
  shows "parse_trimmed (source_display s) = Inr s \<and> set (source_display s) = set ''dynamodb://'' \<union> set rest"
proof -
  from assms obtain path vals where sq: "split_query rest raw [''key'', ''value''] = Inr (path, vals)"
    by (auto simp: parse_dynamo_db_def and_then_Inr_iff)
  from split_query_two [OF sq] obtain v w where vals: "vals = [v, w]" and path: "CHR ''?'' \<notin> set path"
    and chars: "set (path @ write_query CHR ''?'' [(''key'', v), (''value'', w)]) = set rest"
    and v: "case v of None \<Rightarrow> True | Some x \<Rightarrow> x \<noteq> [] \<and> CHR ''&'' \<notin> set x"
    and w: "case w of None \<Rightarrow> True | Some y \<Rightarrow> y \<noteq> [] \<and> CHR ''&'' \<notin> set y" by blast
  from assms sq vals obtain t i where ti: "split_once CHR ''/'' path = Some (t, i)" "t \<noteq> []" "i \<noteq> []" "CHR ''/'' \<notin> set i"
    and s: "s = Dynamo_Db t i v w"
    by (auto simp: parse_dynamo_db_def Let_def split: option.splits if_splits)
  have "path = t @ ''/'' @ i" using ti(1) by (simp add: split_once_Some)
  then have disp: "source_display s = ''dynamodb://'' @ path @ write_query CHR ''?'' [(''key'', v), (''value'', w)]"
    using s by (simp del: write_query.simps)
  have "split_query (path @ write_query CHR ''?'' [(''key'', v), (''value'', w)]) r [''key'', ''value''] = Inr (path, [v, w])" for r
    by (rule split_query_write_two) (use path v w in auto)
  then have "parse_trimmed (source_display s) = Inr s"
    unfolding disp parse_trimmed_on parse_dynamo_db_def using ti s by simp
  then show ?thesis unfolding disp set_append [of "''dynamodb://''"] chars by simp
qed

lemma parse_firestore_back:
  assumes "parse_firestore rest raw = Inr s"
  shows "parse_trimmed (source_display s) = Inr s \<and> set (source_display s) = set ''firestore://'' \<union> set rest"
proof -
  from assms obtain path vals where sq: "split_query rest raw [''database'', ''field''] = Inr (path, vals)"
    by (auto simp: parse_firestore_def and_then_Inr_iff)
  from split_query_two [OF sq] obtain v w where vals: "vals = [v, w]" and path: "CHR ''?'' \<notin> set path"
    and chars: "set (path @ write_query CHR ''?'' [(''database'', v), (''field'', w)]) = set rest"
    and v: "case v of None \<Rightarrow> True | Some x \<Rightarrow> x \<noteq> [] \<and> CHR ''&'' \<notin> set x"
    and w: "case w of None \<Rightarrow> True | Some y \<Rightarrow> y \<noteq> [] \<and> CHR ''&'' \<notin> set y" by blast
  from assms sq vals obtain pr d where pd: "split_bucket path raw = Inr (pr, d)"
    "\<not> (odd (length (split_on CHR ''/'' d)) \<or> [] \<in> set (split_on CHR ''/'' d))" and s: "s = Firestore pr d v w"
    by (auto simp: parse_firestore_def and_then_Inr_iff Let_def split: if_splits)
  have bucket: "path = pr @ CHR ''/'' # d" "split_bucket path r = Inr (pr, d)" for r
    using pd(1) unfolding split_bucket_ok by blast+
  have disp: "source_display s = ''firestore://'' @ path @ write_query CHR ''?'' [(''database'', v), (''field'', w)]"
    using s by (simp add: bucket(1) del: write_query.simps)
  have "split_query (path @ write_query CHR ''?'' [(''database'', v), (''field'', w)]) r [''database'', ''field''] = Inr (path, [v, w])" for r
    by (rule split_query_write_two) (use path v w in auto)
  then have "parse_trimmed (source_display s) = Inr s"
    unfolding disp parse_trimmed_on parse_firestore_def using pd(2) s by (simp add: bucket(2))
  then show ?thesis unfolding disp set_append [of "''firestore://''"] chars by simp
qed

lemma parse_cosmos_back:
  assumes "parse_cosmos rest raw = Inr s"
  shows "parse_trimmed (source_display s) = Inr s \<and> set (source_display s) = set ''cosmos://'' \<union> set rest"
proof -
  from parse_cosmos_ok [OF assms] obtain acc db cont i v w path where s: "s = Cosmos acc db cont i v w"
    and sq: "split_query rest raw [''pk'', ''field''] = Inr (path, [v, w])"
    and p: "path = acc @ ''/'' @ db @ ''/'' @ cont @ ''/'' @ i"
    and so: "split_on CHR ''/'' path = [acc, db, cont, i]" "acc \<noteq> []" "db \<noteq> []" "cont \<noteq> []" "i \<noteq> []" by blast
  from split_query_two [OF sq] have path: "CHR ''?'' \<notin> set path"
    and chars: "set (path @ write_query CHR ''?'' [(''pk'', v), (''field'', w)]) = set rest"
    and v: "case v of None \<Rightarrow> True | Some x \<Rightarrow> x \<noteq> [] \<and> CHR ''&'' \<notin> set x"
    and w: "case w of None \<Rightarrow> True | Some y \<Rightarrow> y \<noteq> [] \<and> CHR ''&'' \<notin> set y" by auto
  have disp: "source_display s = ''cosmos://'' @ path @ write_query CHR ''?'' [(''pk'', v), (''field'', w)]"
    using s p by (simp del: write_query.simps)
  have "split_query (path @ write_query CHR ''?'' [(''pk'', v), (''field'', w)]) r [''pk'', ''field''] = Inr (path, [v, w])" for r
    by (rule split_query_write_two) (use path v w in auto)
  then have "parse_trimmed (source_display s) = Inr s"
    unfolding disp parse_trimmed_on parse_cosmos_def using so s by simp
  then show ?thesis unfolding disp set_append [of "''cosmos://''"] chars by simp
qed

lemma parse_trimmed_back:
  assumes "parse_trimmed raw = Inr s"
  shows "parse_trimmed (source_display s) = Inr s \<and> set (source_display s) = set raw"
proof -
  have same: ?thesis if "source_display s = raw" using assms that by simp
  note ok = assms [unfolded parse_trimmed_def]
  show ?thesis
    using ok
  proof (elim on_prefixE)
    fix rest assume "raw = ''s3://'' @ rest" "and_then (split_bucket rest raw) (\<lambda>(b, k). Ok (S3 b k)) = Inr s"
    then show ?thesis by (intro same) (auto simp: and_then_Inr_iff split_bucket_ok)
  next
    fix rest assume "raw = ''gs://'' @ rest" "and_then (split_bucket rest raw) (\<lambda>(b, k). Ok (Gcs b k)) = Inr s"
    then show ?thesis by (intro same) (auto simp: and_then_Inr_iff split_bucket_ok)
  next
    fix rest assume "raw = ''az://'' @ rest" "and_then (split_bucket rest raw) (\<lambda>(b, k). Ok (Azure b k)) = Inr s"
    then show ?thesis by (intro same) (auto simp: and_then_Inr_iff split_bucket_ok)
  next
    fix rest assume "raw = ''appconfig://'' @ rest" "parse_app_config rest raw = Inr s"
    then show ?thesis by (intro same) (auto dest: parse_app_config_ok)
  next
    fix rest assume "raw = ''azappconfig://'' @ rest" "parse_azure_app_config rest raw = Inr s"
    then show ?thesis by (intro same) (simp only: parse_azure_app_config_ok)
  next
    fix rest assume "raw = ''dynamodb://'' @ rest" "parse_dynamo_db rest raw = Inr s"
    then show ?thesis using parse_dynamo_db_back by (simp only: set_append)
  next
    fix rest assume "raw = ''firestore://'' @ rest" "parse_firestore rest raw = Inr s"
    then show ?thesis using parse_firestore_back by (simp only: set_append)
  next
    fix rest assume "raw = ''cosmos://'' @ rest" "parse_cosmos rest raw = Inr s"
    then show ?thesis using parse_cosmos_back by (simp only: set_append)
  next
    fix rest assume "parse_http rest raw = Inr s"
    then show ?thesis by (intro same) (auto simp: parse_http_def split: if_splits)
  next
    assume "(if contains_sub ''://'' raw then Err (Config_Error (raw @ '': unsupported scheme (use a local path, https://, s3://, gs://, az://, '' @
       ''appconfig://, azappconfig://, dynamodb://, firestore:// or cosmos://)'')) else Ok (File raw)) = Inr s"
    then show ?thesis by (intro same) (auto split: if_splits)
  next
    fix rest assume "Inr (Http raw) = Inr s"
    then show ?thesis by (intro same) auto
  qed
qed

lemma parse_source_again:
  assumes "parse_source raw = Ok s" "list_all (\<lambda>c. \<not> is_ws c) (trim raw)"
  shows "parse_source (source_display s) = Ok s"
proof -
  from assms(1) have again: "parse_trimmed (source_display s) = Inr s" "set (source_display s) = set (trim raw)"
    using parse_trimmed_back [of "trim raw" s] by (simp_all add: parse_source_def)
  have "trim (source_display s) = source_display s"
    by (rule trim_id) (use assms(2) again(2) hd_in_set last_in_set in \<open>fastforce simp: list_all_iff\<close>)
  with again show ?thesis by (simp add: parse_source_def)
qed

text \<open>
  C34. The text of a source is a faithful key: a source parsed from a value without white space inside
  is read back as itself from the text it is printed as, so the files of a config chain, which are
  told apart by that text, are the same file exactly when they are the same source.
\<close>

theorem source_text_is_a_key:
  assumes "parse_source raw = Ok s" "list_all (\<lambda>c. \<not> is_ws c) (trim raw)"
  shows "parse_source (source_display s) = Ok s"
  by (rule parse_source_again [OF assms])

theorem source_text_is_a_key_witness:
  "parse_source (source_display (Dynamo_Db ''cfg'' ''prod'' (Some ''pk'') (Some ''yaml''))) =
     Ok (Dynamo_Db ''cfg'' ''prod'' (Some ''pk'') (Some ''yaml''))"
  by (rule source_text_is_a_key [of "''  dynamodb://cfg/prod?value=yaml&key=pk''"]) (code_simp, code_simp)

end
