(* ===== verification/Addons.thy ===== *)
theory Addons
  imports Sources
begin

text \<open>
  What a build can reach of the three clouds: the registries of add-on fetchers
  (\<^verbatim>\<open>crates/core/src/source.rs\<close>) and senders (\<^verbatim>\<open>crates/core/src/providers/external.rs\<close>), and handing
  work to one of them. An add-on is code outside the repository; it is a function of its request and
  of the number of the attempt, run on its own thread, which may not start, not answer or not end.
\<close>

datatype 'a answer = No_Thread string | Answered 'a | No_Answer | Timed_Out

text \<open>
  What becomes of the thread an add-on call is given: it cannot be started, the call returns in time,
  the thread ends before it returned, or the time to wait for it is over first.
\<close>

datatype thread_fate = Cannot_Start string | Returns | Dies | Too_Late

definition run_on_thread :: "thread_fate \<Rightarrow> 'a \<Rightarrow> 'a answer" where
  "run_on_thread fate x =
     (case fate of Cannot_Start m \<Rightarrow> No_Thread m | Returns \<Rightarrow> Answered x | Dies \<Rightarrow> No_Answer | Too_Late \<Rightarrow> Timed_Out)"

type_synonym fetcher = "string \<Rightarrow> (string, string) res answer"
type_synonym sender = "string \<Rightarrow> string \<Rightarrow> string \<Rightarrow> nat \<Rightarrow> (string, unit) res answer"

record addons =
  ad_features :: "string list"
  ad_fetchers :: "(string \<times> fetcher) list"
  ad_senders :: "(string \<times> sender) list"

definition built_in :: "addons \<Rightarrow> string \<Rightarrow> bool" where
  "built_in ad c = ((c = ''aws'' \<and> ''aws'' \<in> set (ad_features ad)) \<or> (c = ''gcp'' \<and> ''gcp'' \<in> set (ad_features ad)) \<or>
     (c = ''azure'' \<and> ''azure'' \<in> set (ad_features ad)))"

subsection \<open>Fetchers\<close>

definition register_fetcher :: "string \<Rightarrow> fetcher \<Rightarrow> addons \<Rightarrow> addons" where
  "register_fetcher s f ad = ad\<lparr>ad_fetchers := AList.update s f (ad_fetchers ad)\<rparr>"

definition register_cloud_fetcher :: "string \<Rightarrow> fetcher \<Rightarrow> addons \<Rightarrow> addons" where
  "register_cloud_fetcher c f ad =
     fold (\<lambda>(name, schemes) ad. if name = c then fold (\<lambda>s. register_fetcher s f) schemes ad else ad) CLOUD_SCHEMES ad"

definition registered_fetcher :: "addons \<Rightarrow> string \<Rightarrow> fetcher option" where
  "registered_fetcher ad s = map_of (ad_fetchers ad) s"

definition has_fetcher :: "addons \<Rightarrow> string \<Rightarrow> bool" where
  "has_fetcher ad s = (registered_fetcher ad s \<noteq> None)"

definition install_hint :: "string \<Rightarrow> string" where
  "install_hint c = ''pip install '' @ quoted (''opssignal['' @ c @ '']'') @ '' for Python, or a CLI or C library built with '' @
     ''`--features '' @ c @ ''`''"

definition missing_source_support :: "string \<Rightarrow> string" where
  "missing_source_support s =
     (let c = unwrap_or ''aws'' (cloud_of_scheme s);
          what = (case map_of STORES s of
              Some store \<Rightarrow> store @ '' secrets ('' @ s @ '':)''
            | None \<Rightarrow> s @ '':// configs'')
      in ''this build cannot read '' @ what @ ''; install the '' @ c @ '' add-on: '' @ install_hint c @
         '' (the `'' @ c @ ''` cargo feature of opssignal-core)'')"

definition fetch_external :: "addons \<Rightarrow> string \<Rightarrow> string \<Rightarrow> (signal_error, string) res" where
  "fetch_external ad s u =
     and_then (ok_or (Config_Error (missing_source_support s)) (registered_fetcher ad s)) (\<lambda>f.
       case f u of
         No_Thread e \<Rightarrow> Err (Config_Error (''cannot start fetch thread: '' @ e))
       | Answered r \<Rightarrow> map_err Config_Error r
       | No_Answer \<Rightarrow> Err (Config_Error ''the add-on fetcher failed without an answer'')
       | Timed_Out \<Rightarrow> Err (Config_Error (''timed out after '' @ debug_duration 20000)))"

definition check_supported :: "addons \<Rightarrow> config_source \<Rightarrow> (signal_error, unit) res" where
  "check_supported ad src =
     (case cloud src of
        None \<Rightarrow> Ok ()
      | Some c \<Rightarrow>
          if built_in ad c \<or> has_fetcher ad (scheme src) then Ok ()
          else Err (Config_Error (source_display src @ '': '' @ missing_source_support (scheme src))))"

subsection \<open>Senders\<close>

definition register_cloud_sender :: "string \<Rightarrow> sender \<Rightarrow> addons \<Rightarrow> addons" where
  "register_cloud_sender c f ad = ad\<lparr>ad_senders := AList.update c f (ad_senders ad)\<rparr>"

definition registered_sender :: "addons \<Rightarrow> string \<Rightarrow> sender option" where
  "registered_sender ad c = map_of (ad_senders ad) c"

definition cloud_supported :: "addons \<Rightarrow> string \<Rightarrow> bool" where
  "cloud_supported ad c = (built_in ad c \<or> registered_sender ad c \<noteq> None)"

definition missing_support :: "string \<Rightarrow> string \<Rightarrow> string" where
  "missing_support what c = what @ '' needs the '' @ c @ '' add-on: '' @ install_hint c"

text \<open>\<open>signal_text\<close> is the signal as JSON text, which may fail to be written.\<close>

definition send_external :: "addons \<Rightarrow> (string, string) res \<Rightarrow> string \<Rightarrow> string \<Rightarrow> string \<Rightarrow> nat \<Rightarrow> (signal_error, unit) res" where
  "send_external ad signal_text c prov config_json k =
     and_then (ok_or (Delivery_Error (missing_support prov c)) (registered_sender ad c)) (\<lambda>f.
     and_then (map_err Delivery_Error signal_text) (\<lambda>signal_json.
       case f prov config_json signal_json k of
         No_Thread e \<Rightarrow> Err (Delivery_Error (''cannot start send thread: '' @ e))
       | Answered r \<Rightarrow> map_err Delivery_Error r
       | No_Answer \<Rightarrow> Err (Delivery_Error ''the add-on sender failed without an answer'')
       | Timed_Out \<Rightarrow> Err (Delivery_Error (''timed out after '' @ debug_duration 60000))))"

subsection \<open>Facts\<close>

lemma register_fetcher_fetchers:
  "registered_fetcher (register_fetcher s f ad) s' = (if s' = s then Some f else registered_fetcher ad s')"
  by (simp add: registered_fetcher_def register_fetcher_def map_of_update)

lemma cloud_schemes: "cloud_of_scheme s = Some c \<Longrightarrow> c \<in> {''aws'', ''gcp'', ''azure''}"
  by (auto simp: cloud_of_scheme_def CLOUD_SCHEMES_def split: if_splits)

lemma fetchers_fold:
  "registered_fetcher (fold (\<lambda>s. register_fetcher s f) ss ad) s = (if s \<in> set ss then Some f else registered_fetcher ad s)"
  by (induction ss arbitrary: ad) (simp_all add: register_fetcher_fetchers)

text \<open>Registering an add-on for a cloud makes every config source of that cloud readable.\<close>

lemma registered_cloud_is_supported:
  assumes "cloud src = Some c"
  shows "check_supported (register_cloud_fetcher c f ad) src = Ok ()"
proof -
  have "has_fetcher (register_cloud_fetcher c f ad) (scheme src)"
    using assms by (auto simp: cloud_def cloud_of_scheme_def CLOUD_SCHEMES_def register_cloud_fetcher_def
        has_fetcher_def fetchers_fold register_fetcher_fetchers split: if_splits)
  then show ?thesis using assms by (simp add: check_supported_def)
qed

lemma local_is_supported [simp]: "check_supported ad (File p) = Ok ()"
  by (simp add: check_supported_def cloud_def cloud_of_scheme_def CLOUD_SCHEMES_def)

end
