(* ===== verification/Config_Data.thy ===== *)
theory Config_Data
  imports Templates Signal_Groups Addons
begin

text \<open>
  The data of \<^verbatim>\<open>crates/core/src/config.rs\<close>: the provider entries of \<open>signal.yaml\<close>, the storage
  section, a whole config and one layer of it, with the checks an entry makes of itself. Parsing an
  e-mail address (the lettre crate), the template engine and the registered add-ons are parameters.
\<close>

definition config_err :: "string \<Rightarrow> signal_error" where
  "config_err msg = Config_Error msg"

subsection \<open>Provider entries\<close>

record console_config =
  cc_enabled :: "bool option"
  cc_template :: template_config

record slack_config =
  sc_webhook_url :: "string option"
  sc_bot_token :: "string option"
  sc_channel :: "string option"
  sc_api_url :: "string option"
  sc_template :: template_config

record webhook_config =
  wc_url :: string
  wc_template :: template_config

record pagerduty_config =
  pc_routing_key :: string
  pc_url :: "string option"
  pc_template :: template_config

record teams_config =
  tc_webhook_url :: string
  tc_template :: template_config

record opsgenie_config =
  oc_api_key :: string
  oc_url :: "string option"
  oc_tags :: "string list"
  oc_template :: template_config

datatype smtp_tls = Starttls | Tls | Plain

record smtp_config =
  sm_host :: string
  sm_port :: "nat option"
  sm_username :: "string option"
  sm_password :: "string option"
  sm_tls :: smtp_tls

definition smtp_port :: "smtp_config \<Rightarrow> nat" where
  "smtp_port c = unwrap_or (case sm_tls c of Starttls \<Rightarrow> 587 | Tls \<Rightarrow> 465 | Plain \<Rightarrow> 25) (sm_port c)"

record ses_config =
  ss_region :: "string option"
  ss_configuration_set :: "string option"

record email_config =
  ec_from :: string
  ec_to :: "string list"
  ec_cc :: "string list"
  ec_subject_prefix :: "string option"
  ec_smtp :: "smtp_config option"
  ec_ses :: "ses_config option"
  ec_template :: template_config

datatype email_transport = Smtp smtp_config | Ses ses_config

definition transport :: "email_config \<Rightarrow> email_transport option" where
  "transport c = (case (ec_smtp c, ec_ses c) of
      (Some smtp, None) \<Rightarrow> Some (Smtp smtp)
    | (None, Some ses) \<Rightarrow> Some (Ses ses)
    | _ \<Rightarrow> None)"

definition slack_check :: "slack_config \<Rightarrow> (signal_error, unit) res" where
  "slack_check c = (case (sc_webhook_url c, sc_bot_token c, sc_channel c) of
      (Some _, None, None) \<Rightarrow> Ok ()
    | (None, Some _, Some _) \<Rightarrow> Ok ()
    | (Some _, Some _, _) \<Rightarrow> Err (config_err ''providers.slack: set webhook_url or bot_token, not both'')
    | (None, Some _, None) \<Rightarrow> Err (config_err ''providers.slack.bot_token needs a channel to post to'')
    | (Some _, None, Some _) \<Rightarrow> Err (config_err (''providers.slack.channel is used only with bot_token; '' @
        ''a webhook posts to its own channel''))
    | (None, None, _) \<Rightarrow> Err (config_err ''providers.slack needs webhook_url or bot_token''))"

text \<open>What the checks take from libraries and the build.\<close>

record check_env =
  ce_mailbox :: "string \<Rightarrow> (string, string) res"
  ce_addons :: addons
  ce_jinja :: jinja

definition address_check :: "check_env \<Rightarrow> string \<Rightarrow> (signal_error, string) res" where
  "address_check env a =
     map_err (\<lambda>e. config_err (''providers.email: invalid address '' @ debug_str a @ '': '' @ e)) (ce_mailbox env a)"

definition email_check :: "check_env \<Rightarrow> email_config \<Rightarrow> (signal_error, unit) res" where
  "email_check env c =
     (if ec_to c = [] then Err (config_err ''providers.email.to lists no recipients'')
      else and_then
        (collect_res (address_check env) (ec_from c # ec_to c @ ec_cc c))
        (\<lambda>_. case transport c of
           Some (Smtp smtp) \<Rightarrow>
             (if (sm_username smtp \<noteq> None) \<noteq> (sm_password smtp \<noteq> None)
              then Err (config_err ''providers.email.smtp needs both username and password, or neither'')
              else Ok ())
         | Some (Ses _) \<Rightarrow>
             (if \<not> cloud_supported (ce_addons env) ''aws''
              then Err (config_err (''providers.email: '' @ missing_support ''email over Amazon SES'' ''aws''))
              else Ok ())
         | None \<Rightarrow> Err (config_err ''providers.email needs exactly one of smtp and ses'')))"

subsection \<open>Configs and layers\<close>

record providers_config =
  pr_console :: "console_config option"
  pr_slack :: "slack_config option"
  pr_webhook :: "webhook_config option"
  pr_pagerduty :: "pagerduty_config option"
  pr_teams :: "teams_config option"
  pr_opsgenie :: "opsgenie_config option"
  pr_email :: "email_config option"

definition no_providers :: providers_config where
  "no_providers = \<lparr>pr_console = None, pr_slack = None, pr_webhook = None, pr_pagerduty = None,
     pr_teams = None, pr_opsgenie = None, pr_email = None\<rparr>"

datatype sink_kind = Sqlite

definition DEFAULT_SQLITE_PATH :: string where "DEFAULT_SQLITE_PATH = ''./signals.db''"

record storage_config =
  st_sink :: sink_kind
  st_path :: string

definition default_storage :: storage_config where
  "default_storage = \<lparr>st_sink = Sqlite, st_path = DEFAULT_SQLITE_PATH\<rparr>"

record config =
  cf_providers :: providers_config
  cf_routes :: "route list"
  cf_storage :: storage_config

definition default_config :: config where
  "default_config = \<lparr>cf_providers = no_providers, cf_routes = [], cf_storage = default_storage\<rparr>"

record layer =
  ly_extends :: "string list"
  ly_providers :: providers_config
  ly_routes :: "route list"
  ly_storage :: "storage_config option"

text \<open>\<open>extends\<close> is one name or a list of them.\<close>

datatype one_or_many = One string | Many "string list"

fun one_or_many_list :: "one_or_many \<Rightarrow> string list" where
  "one_or_many_list (One s) = [s]"
| "one_or_many_list (Many v) = v"

definition check_templates :: "check_env \<Rightarrow> providers_config \<Rightarrow> (signal_error, unit) res" where
  "check_templates env p =
     and_then (collect_res (\<lambda>(name, t). case t of None \<Rightarrow> Ok () | Some t \<Rightarrow>
                 (case compile (ce_jinja env) name t of Inl e \<Rightarrow> Err e | Inr _ \<Rightarrow> Ok ()))
       [(''console'', map_option cc_template (pr_console p)), (''slack'', map_option sc_template (pr_slack p)),
        (''webhook'', map_option wc_template (pr_webhook p)), (''pagerduty'', map_option pc_template (pr_pagerduty p)),
        (''teams'', map_option tc_template (pr_teams p)), (''opsgenie'', map_option oc_template (pr_opsgenie p)),
        (''email'', map_option ec_template (pr_email p))])
       (\<lambda>_. Ok ())"

definition provider_names :: "config \<Rightarrow> string list" where
  "provider_names c = (let p = cf_providers c in
     [''console''] @ (if pr_slack p \<noteq> None then [''slack''] else []) @
     (if pr_webhook p \<noteq> None then [''webhook''] else []) @ (if pr_pagerduty p \<noteq> None then [''pagerduty''] else []) @
     (if pr_teams p \<noteq> None then [''teams''] else []) @ (if pr_opsgenie p \<noteq> None then [''opsgenie''] else []) @
     (if pr_email p \<noteq> None then [''email''] else []))"

lemma transport_Some:
  "transport c = Some t \<longleftrightarrow>
     (\<exists>smtp. t = Smtp smtp \<and> ec_smtp c = Some smtp \<and> ec_ses c = None) \<or>
     (\<exists>ses. t = Ses ses \<and> ec_ses c = Some ses \<and> ec_smtp c = None)"
  by (auto simp: transport_def split: option.splits)

lemma slack_check_ok:
  "slack_check c = Inr () \<longleftrightarrow>
     (sc_webhook_url c \<noteq> None \<and> sc_bot_token c = None \<and> sc_channel c = None) \<or>
     (sc_webhook_url c = None \<and> sc_bot_token c \<noteq> None \<and> sc_channel c \<noteq> None)"
  by (auto simp: slack_check_def split: option.splits)

lemma email_check_ok:
  assumes "email_check env c = Inr ()"
  shows "ec_to c \<noteq> [] \<and> transport c \<noteq> None \<and> (\<forall>a \<in> set (ec_from c # ec_to c @ ec_cc c). is_ok (ce_mailbox env a))"
proof -
  from assms have to: "ec_to c \<noteq> []" by (auto simp: email_check_def)
  with assms obtain ys where ys: "collect_res (address_check env) (ec_from c # ec_to c @ ec_cc c) = Inr ys"
    and t: "transport c \<noteq> None"
    by (auto simp: email_check_def and_then_Inr_iff simp del: collect_res.simps split: option.splits)
  have "is_ok (ce_mailbox env a)" if "a \<in> set (ec_from c # ec_to c @ ec_cc c)" for a
  proof -
    from ys that obtain y where "address_check env a = Inr y"
      unfolding collect_res_Inr_iff list_all2_conv_all_nth by (metis in_set_conv_nth)
    then show ?thesis by (simp add: address_check_def is_ok_iff)
  qed
  with to t show ?thesis by blast
qed

end
