(* ===== verification/Secret_Values.thy ===== *)
theory Secret_Values
  imports Addons "HOL-Library.List_Lexorder" "HOL-Library.Char_ord"
begin

text \<open>
  Reading secrets, from \<^verbatim>\<open>crates/core/src/secrets.rs\<close>: the stores a build supports, the cache with
  its time to live, resolving the names of a file, and the fingerprint of the values. The cloud code
  behind a feature, the JSON library, SHA-256, the environment and the clock are the parameters in
  \<open>secret_env\<close>; \<open>sv_times\<close> gives for a secret the times at which the cache is looked up and filled.
\<close>

record secret_env =
  sv_addons :: addons
  sv_native :: "string \<Rightarrow> string \<Rightarrow> (signal_error, string) res"
  sv_parse_json :: "string \<Rightarrow> json option"
  sv_json_text :: "json \<Rightarrow> string"
  sv_sha :: "string \<Rightarrow> string"
  sv_ttl_var :: "string option"
  sv_times :: "string \<Rightarrow> int \<times> int"

type_synonym secret_cache = "(string \<times> int \<times> string) list"

type_synonym secret_values = "(string \<times> string) list"

record resolve_error =
  rs_err :: signal_error
  rs_fatal :: bool

text \<open>The text of a config error without its prefix.\<close>

fun message :: "signal_error \<Rightarrow> string" where
  "message (Config_Error m) = m"
| "message e = error_display e"

definition ref_supported :: "addons \<Rightarrow> secret_ref \<Rightarrow> (signal_error, unit) res" where
  "ref_supported ad r =
     (if built_in ad (cloud_of_store r) \<or> has_fetcher ad (rf_scheme r) then Ok ()
      else Err (Config_Error (braced (secret_url r) @ '': '' @ missing_source_support (rf_scheme r))))"

definition json_field :: "secret_env \<Rightarrow> string \<Rightarrow> string \<Rightarrow> (string, string) res" where
  "json_field e secret field =
     (case sv_parse_json e secret of
        None \<Rightarrow> Err (''the secret is not JSON, so it has no field '' @ quoted field)
      | Some v \<Rightarrow>
          (case jget v field of
             Some (JStr s) \<Rightarrow> Ok s
           | Some JNull \<Rightarrow> Err (''the secret has no field '' @ quoted field)
           | None \<Rightarrow> Err (''the secret has no field '' @ quoted field)
           | Some other \<Rightarrow> Ok (sv_json_text e other)))"

definition DEFAULT_TTL :: nat where "DEFAULT_TTL = 300"

text \<open>Milliseconds.\<close>

definition ttl :: "secret_env \<Rightarrow> int" where
  "ttl e = 1000 * int (unwrap_or DEFAULT_TTL (case sv_ttl_var e of None \<Rightarrow> None | Some raw \<Rightarrow> parse_u64 (trim raw)))"

definition read_secret :: "secret_env \<Rightarrow> string \<Rightarrow> (signal_error, string) res" where
  "read_secret e u =
     and_then (parse_ref u) (\<lambda>r.
       if built_in (sv_addons e) (cloud_of_store r) then sv_native e (rf_scheme r) (rf_path r)
       else fetch_external (sv_addons e) (rf_scheme r) (secret_url r))"

definition cached_read :: "secret_env \<Rightarrow> secret_cache \<Rightarrow> string \<Rightarrow> secret_cache \<times> (signal_error, string) res" where
  "cached_read e cache u =
     (let fresh = (case read_secret e u of
            Inl err \<Rightarrow> (cache, Err err)
          | Inr v \<Rightarrow> (if ttl e \<noteq> 0 then AList.update u (snd (sv_times e u), v) cache else cache, Ok v))
      in case map_of cache u of
           Some (at, v) \<Rightarrow> if fst (sv_times e u) - at < ttl e then (cache, Ok v) else fresh
         | None \<Rightarrow> fresh)"

definition parse_supported :: "secret_env \<Rightarrow> string \<Rightarrow> (resolve_error, string \<times> secret_ref) res" where
  "parse_supported e name =
     map_err (\<lambda>err. \<lparr>rs_err = err, rs_fatal = True\<rparr>)
       (and_then (parse_ref name) (\<lambda>r. and_then (ref_supported (sv_addons e) r) (\<lambda>_. Ok (name, r))))"

definition secret_field_value :: "secret_env \<Rightarrow> string \<Rightarrow> secret_ref \<Rightarrow> string \<Rightarrow> (resolve_error, string) res" where
  "secret_field_value e name r v =
     (case rf_field r of
        Some field \<Rightarrow>
          map_err (\<lambda>m. \<lparr>rs_err = Config_Error (braced name @ '': '' @ m), rs_fatal = False\<rparr>) (json_field e v field)
      | None \<Rightarrow> Ok v)"

fun resolve_loop :: "secret_env \<Rightarrow> secret_cache \<Rightarrow> (string \<times> string) list \<Rightarrow> secret_values \<Rightarrow>
    (string \<times> secret_ref) list \<Rightarrow> secret_cache \<times> (resolve_error, secret_values) res" where
  "resolve_loop e cache raw vals [] = (cache, Ok vals)"
| "resolve_loop e cache raw vals ((name, r) # rest) =
     (let u = secret_url r;
          (cache', got) = (case map_of raw u of
              Some v \<Rightarrow> (cache, Ok (raw, v))
            | None \<Rightarrow>
                (case cached_read e cache u of
                   (cache', Inl err) \<Rightarrow>
                     (cache', Err \<lparr>rs_err = Config_Error (braced u @ '': '' @ message err), rs_fatal = False\<rparr>)
                 | (cache', Inr v) \<Rightarrow> (cache', Ok (AList.update u v raw, v))))
      in case got of
           Inl err \<Rightarrow> (cache', Err err)
         | Inr (raw', v) \<Rightarrow>
             (case secret_field_value e name r v of
                Inl err \<Rightarrow> (cache', Err err)
              | Inr x \<Rightarrow> resolve_loop e cache' raw' (AList.update name x vals) rest))"

definition resolve_secrets :: "secret_env \<Rightarrow> secret_cache \<Rightarrow> string list \<Rightarrow> secret_cache \<times> (resolve_error, secret_values) res" where
  "resolve_secrets e cache names =
     (case collect_res (parse_supported e) names of
        Inl err \<Rightarrow> (cache, Err err)
      | Inr refs \<Rightarrow> resolve_loop e cache [] [] refs)"

definition secrets_digest :: "secret_env \<Rightarrow> secret_values \<Rightarrow> string" where
  "secrets_digest e vals =
     (if vals = [] then []
      else sv_sha e (concat (map (\<lambda>(name, v). name @ [CHR 0x00] @ v @ [CHR 0x00]) (sort_key fst vals))))"

subsection \<open>Facts\<close>

lemma resolve_loop_covers:
  "snd (resolve_loop e cache raw vals refs) = Inr vals' \<Longrightarrow>
     dom (map_of vals') = dom (map_of vals) \<union> fst ` set refs"
proof (induction refs arbitrary: cache raw vals)
  case (Cons x rest)
  obtain name r where x: "x = (name, r)" by (cases x)
  let ?got = "case map_of raw (secret_url r) of
              Some v \<Rightarrow> (cache, Ok (raw, v))
            | None \<Rightarrow>
                (case cached_read e cache (secret_url r) of
                   (cache', Inl err) \<Rightarrow>
                     (cache', Err \<lparr>rs_err = Config_Error (braced (secret_url r) @ '': '' @ message err), rs_fatal = False\<rparr>)
                 | (cache', Inr v) \<Rightarrow> (cache', Ok (AList.update (secret_url r) v raw, v)))"
  obtain cache' got where got: "?got = (cache', got)" by fastforce
  from Cons.prems obtain raw' v y where "got = Inr (raw', v)" "secret_field_value e name r v = Inr y"
    and "snd (resolve_loop e cache' raw' (AList.update name y vals) rest) = Inr vals'"
    unfolding x resolve_loop.simps Let_def got by (auto split: sum.splits)
  from Cons.IH [OF this(3)] show ?case by (auto simp: x map_of_update)
qed simp

text \<open>Every name of the list gets a value, and only those.\<close>

lemma resolve_covers:
  assumes "resolve_secrets e cache names = (cache', Inr vals)"
  shows "dom (map_of vals) = set names"
proof -
  from assms obtain refs where refs: "collect_res (parse_supported e) names = Inr refs"
    and vals: "snd (resolve_loop e cache [] [] refs) = Inr vals"
    by (auto simp: resolve_secrets_def split: sum.splits)
  have "map fst refs = names"
    using refs unfolding collect_res_Inr_iff
    by (induction rule: list_all2_induct) (auto simp: parse_supported_def and_then_Inr_iff)
  then have "fst ` set refs = set names" by (metis set_map)
  with resolve_loop_covers [OF vals] show ?thesis by simp
qed

text \<open>A second resolve within the time to live is served from the cache: the stores are not read.\<close>

lemma cached_read_fresh:
  assumes "map_of cache u = Some (at, v)" "fst (sv_times e u) - at < ttl e"
  shows "cached_read e cache u = (cache, Ok v)"
  using assms by (simp add: cached_read_def)

lemma cached_read_stores:
  assumes "cached_read e cache u = (cache', Ok v)" "ttl e \<noteq> 0"
  shows "\<exists>at. map_of cache' u = Some (at, v)"
  using assms by (auto simp: cached_read_def Let_def map_of_update split: option.splits sum.splits if_splits)

end
