(* ===== verification/Configs.thy ===== *)
theory Configs
  imports Config_Data Secret_Values
begin

text \<open>
  The rest of \<^verbatim>\<open>crates/core/src/config.rs\<close>: the placeholders of a YAML text and their replacement,
  the secrets a text names, one file of a chain, merging the files, and the checks a merged config
  passes. Parsing YAML and building a layer from a YAML value (serde) are parameters, as is the
  environment.
\<close>

subsection \<open>YAML values\<close>

datatype yaml =
    YNull
  | YBool bool
  | YNum string
  | YStr string
  | YSeq "yaml list"
  | YMap "(yaml \<times> yaml) list"
  | YTag string yaml

record config_env =
  cv_var :: "string \<Rightarrow> string option"
  cv_parse_yaml :: "string \<Rightarrow> (string, yaml) res"
  cv_layer_of_yaml :: "yaml \<Rightarrow> (string, layer) res"
  cv_check :: check_env

definition parse_value :: "config_env \<Rightarrow> string \<Rightarrow> (signal_error, yaml) res" where
  "parse_value env text =
     and_then (map_err (\<lambda>e. Config_Error (''invalid YAML: '' @ e)) (cv_parse_yaml env text))
       (\<lambda>v. Ok (if v = YNull then YMap [] else v))"

subsection \<open>Placeholders\<close>

lemma split_once_shorter: "split_once c s = Some (a, b) \<Longrightarrow> length b < length s"
  by (simp add: split_once_Some)

lemma find_sub_shorter: "find_sub p s = Some (a, b) \<Longrightarrow> length b \<le> length s"
  using find_sub_Some by fastforce

function placeholders_from :: "string \<Rightarrow> string \<Rightarrow> (signal_error, string list) res" where
  "placeholders_from input rest =
     (case find_sub ''${'' rest of
        None \<Rightarrow> Ok []
      | Some (_, after) \<Rightarrow>
          (case split_once CHR ''}'' after of
             None \<Rightarrow> Err (Config_Error (''unterminated ${...} in '' @ quoted input))
           | Some (name, rest') \<Rightarrow>
               if name = [] then Err (Config_Error (''empty ${} placeholder in '' @ quoted input))
               else and_then (placeholders_from input rest') (\<lambda>names. Ok (name # names))))"
  by pat_completeness auto

termination
  by (relation "measure (\<lambda>(_, rest). length rest)")
    (auto dest!: split_once_shorter find_sub_shorter)

declare placeholders_from.simps [simp del]

definition placeholders :: "string \<Rightarrow> (signal_error, string list) res" where
  "placeholders input = placeholders_from input input"

definition placeholder_value :: "config_env \<Rightarrow> secret_values \<Rightarrow> string \<Rightarrow> (signal_error, string) res" where
  "placeholder_value env secrets name =
     (if is_ref name then
        ok_or (Config_Error (''secret '' @ braced name @ '' can only be read when the config is loaded by a client''))
          (map_of secrets name)
      else
        ok_or (Config_Error (''environment variable '' @ name @ '' is referenced in signal.yaml but not set''))
          (cv_var env name))"

text \<open>The \<open>expect\<close> of the code is a panic, here \<open>Internal\<close>; it is never reached.\<close>

fun interpolate_names :: "config_env \<Rightarrow> secret_values \<Rightarrow> string \<Rightarrow> string \<Rightarrow> string list \<Rightarrow> (signal_error, string) res" where
  "interpolate_names env secrets out rest [] = Ok (out @ rest)"
| "interpolate_names env secrets out rest (name # names) =
     (case find_sub (braced name) rest of
        None \<Rightarrow> Err (Internal ''found by placeholders'')
      | Some (lit, rest') \<Rightarrow>
          and_then (placeholder_value env secrets name)
            (\<lambda>v. interpolate_names env secrets (out @ lit @ v) rest' names))"

definition interpolate_str :: "config_env \<Rightarrow> secret_values \<Rightarrow> string \<Rightarrow> (signal_error, string) res" where
  "interpolate_str env secrets input =
     and_then (placeholders input) (\<lambda>names. interpolate_names env secrets [] input names)"

text \<open>The keys of a mapping are left as they are.\<close>

fun interpolate :: "config_env \<Rightarrow> secret_values \<Rightarrow> yaml \<Rightarrow> (signal_error, yaml) res"
  and interpolate_seq :: "config_env \<Rightarrow> secret_values \<Rightarrow> yaml list \<Rightarrow> (signal_error, yaml list) res"
  and interpolate_map :: "config_env \<Rightarrow> secret_values \<Rightarrow> (yaml \<times> yaml) list \<Rightarrow> (signal_error, (yaml \<times> yaml) list) res" where
  "interpolate env secrets (YStr s) = and_then (interpolate_str env secrets s) (\<lambda>t. Ok (YStr t))"
| "interpolate env secrets (YSeq items) = and_then (interpolate_seq env secrets items) (\<lambda>xs. Ok (YSeq xs))"
| "interpolate env secrets (YMap kvs) = and_then (interpolate_map env secrets kvs) (\<lambda>xs. Ok (YMap xs))"
| "interpolate env secrets (YTag t v) = and_then (interpolate env secrets v) (\<lambda>x. Ok (YTag t x))"
| "interpolate env secrets YNull = Ok YNull"
| "interpolate env secrets (YBool b) = Ok (YBool b)"
| "interpolate env secrets (YNum n) = Ok (YNum n)"
| "interpolate_seq env secrets [] = Ok []"
| "interpolate_seq env secrets (v # vs) =
     and_then (interpolate env secrets v) (\<lambda>x. and_then (interpolate_seq env secrets vs) (\<lambda>xs. Ok (x # xs)))"
| "interpolate_map env secrets [] = Ok []"
| "interpolate_map env secrets ((k, v) # kvs) =
     and_then (interpolate env secrets v) (\<lambda>x. and_then (interpolate_map env secrets kvs) (\<lambda>xs. Ok ((k, x) # xs)))"

fun walk_refs :: "yaml \<Rightarrow> string list \<Rightarrow> (signal_error, string list) res"
  and walk_refs_seq :: "yaml list \<Rightarrow> string list \<Rightarrow> (signal_error, string list) res"
  and walk_refs_map :: "(yaml \<times> yaml) list \<Rightarrow> string list \<Rightarrow> (signal_error, string list) res" where
  "walk_refs (YStr s) out = and_then (placeholders s) (\<lambda>names. Ok (push_new out (filter is_ref names)))"
| "walk_refs (YSeq items) out = walk_refs_seq items out"
| "walk_refs (YMap kvs) out = walk_refs_map kvs out"
| "walk_refs (YTag t v) out = walk_refs v out"
| "walk_refs YNull out = Ok out"
| "walk_refs (YBool b) out = Ok out"
| "walk_refs (YNum n) out = Ok out"
| "walk_refs_seq [] out = Ok out"
| "walk_refs_seq (v # vs) out = and_then (walk_refs v out) (walk_refs_seq vs)"
| "walk_refs_map [] out = Ok out"
| "walk_refs_map ((k, v) # kvs) out = and_then (walk_refs v out) (walk_refs_map kvs)"

definition secret_refs :: "config_env \<Rightarrow> string \<Rightarrow> (signal_error, string list) res" where
  "secret_refs env text = and_then (parse_value env text) (\<lambda>v. walk_refs v [])"

subsection \<open>Layers and merging\<close>

definition layer_from_yaml :: "config_env \<Rightarrow> string \<Rightarrow> secret_values \<Rightarrow> (signal_error, layer) res" where
  "layer_from_yaml env text secrets =
     and_then (parse_value env text) (\<lambda>v.
     and_then (interpolate env secrets v) (\<lambda>v. map_err Config_Error (cv_layer_of_yaml env v)))"

definition merge_providers :: "providers_config \<Rightarrow> providers_config \<Rightarrow> providers_config" where
  "merge_providers p old = \<lparr>
     pr_console = or_opt (pr_console p) (pr_console old), pr_slack = or_opt (pr_slack p) (pr_slack old),
     pr_webhook = or_opt (pr_webhook p) (pr_webhook old), pr_pagerduty = or_opt (pr_pagerduty p) (pr_pagerduty old),
     pr_teams = or_opt (pr_teams p) (pr_teams old), pr_opsgenie = or_opt (pr_opsgenie p) (pr_opsgenie old),
     pr_email = or_opt (pr_email p) (pr_email old)\<rparr>"

type_synonym origin = "string option \<times> nat"

definition merge_layer :: "string option \<times> layer \<Rightarrow> config \<times> origin list \<Rightarrow> config \<times> origin list" where
  "merge_layer = (\<lambda>(name, ly) (c, origins).
     (\<lparr>cf_providers = merge_providers (ly_providers ly) (cf_providers c),
       cf_routes = ly_routes ly @ cf_routes c,
       cf_storage = (case ly_storage ly of Some s \<Rightarrow> s | None \<Rightarrow> cf_storage c)\<rparr>,
      map (\<lambda>i. (name, i)) [0..<length (ly_routes ly)] @ origins))"

definition at_text :: "origin \<Rightarrow> string" where
  "at_text = (\<lambda>(file, i). (case file of Some f \<Rightarrow> f @ '': '' | None \<Rightarrow> []) @ ''routes['' @ show_nat i @ '']'')"

fun check_group_fields :: "string \<Rightarrow> string list \<Rightarrow> (signal_error, unit) res" where
  "check_group_fields at [] = Ok ()"
| "check_group_fields at (f # fs) =
     (if \<not> is_group_field f
      then Err (Config_Error (at @ '': cannot group_by '' @ quoted f @ '' (use one of '' @ join '', '' GROUP_FIELDS @
        '', or metadata.<key>)''))
      else check_group_fields at fs)"

fun check_route_providers :: "string \<Rightarrow> string list \<Rightarrow> string list \<Rightarrow> (signal_error, unit) res" where
  "check_route_providers at configured [] = Ok ()"
| "check_route_providers at configured (p # ps) =
     (if p \<notin> set configured
      then Err (Config_Error (at @ '' references provider '' @ quoted p @
        '', which is not configured under providers (configured: '' @ join '', '' configured @ '')''))
      else check_route_providers at configured ps)"

definition check_route :: "string list \<Rightarrow> route \<times> origin \<Rightarrow> (signal_error, unit) res" where
  "check_route configured = (\<lambda>(r, orig).
     let at = at_text orig in
     if providers r = [] then Err (Config_Error (at @ '' lists no providers''))
     else if (case dedup r of Some w \<Rightarrow> w = 0 | None \<Rightarrow> False)
     then Err (Config_Error (at @ '': dedup must be longer than 0s''))
     else if (case route_rate_limit r of Some l \<Rightarrow> rl_max l = 0 \<or> rl_per l = 0 | None \<Rightarrow> False)
     then Err (Config_Error (at @ '': rate_limit needs max and per above 0''))
     else if (case group_wait r of Some w \<Rightarrow> w = 0 | None \<Rightarrow> False)
     then Err (Config_Error (at @ '': group_wait must be longer than 0s''))
     else and_then (check_group_fields at (unwrap_or [] (group_by r)))
            (\<lambda>_. check_route_providers at configured (providers r)))"

fun check_each :: "('a \<Rightarrow> (signal_error, unit) res) \<Rightarrow> 'a list \<Rightarrow> (signal_error, unit) res" where
  "check_each f [] = Ok ()"
| "check_each f (x # xs) = and_then (f x) (\<lambda>_. check_each f xs)"

definition check_routes :: "config \<Rightarrow> origin list \<Rightarrow> (signal_error, unit) res" where
  "check_routes c origins = check_each (check_route (provider_names c)) (zip (cf_routes c) origins)"

definition from_layers :: "config_env \<Rightarrow> (string option \<times> layer) list \<Rightarrow> (signal_error, config) res" where
  "from_layers env layers =
     (let (c, origins) = fold merge_layer layers (default_config, []) in
      and_then (case pr_email (cf_providers c) of Some e \<Rightarrow> email_check (cv_check env) e | None \<Rightarrow> Ok ()) (\<lambda>_.
      and_then (case pr_slack (cf_providers c) of Some s \<Rightarrow> slack_check s | None \<Rightarrow> Ok ()) (\<lambda>_.
      and_then (check_templates (cv_check env) (cf_providers c)) (\<lambda>_.
      and_then (check_routes c origins) (\<lambda>_. Ok c)))))"

definition config_from_yaml_str :: "config_env \<Rightarrow> string \<Rightarrow> (signal_error, config) res" where
  "config_from_yaml_str env text =
     and_then (layer_from_yaml env text []) (\<lambda>ly.
       if ly_extends ly \<noteq> [] then
         Err (Config_Error (''`extends` needs the file'' @ [CHR 0x27] @ ''s location; load it with '' @
           ''Config::from_file or $SIGNAL_CONFIG''))
       else from_layers env [(None, ly)])"

definition config_routing :: "config \<Rightarrow> route list" where
  "config_routing c = cf_routes c"

subsection \<open>Interpolation against a one-pass reading\<close>

text \<open>
  A text is a sequence of literals and placeholders. Reading it once, left to right, and putting the
  value of each placeholder in its place is what the code computes by searching the text again for
  every name it found.
\<close>

datatype piece = Literal string | Placeholder string

function pieces_from :: "string \<Rightarrow> string \<Rightarrow> (signal_error, piece list) res" where
  "pieces_from input rest =
     (case find_sub ''${'' rest of
        None \<Rightarrow> Ok [Literal rest]
      | Some (lit, after) \<Rightarrow>
          (case split_once CHR ''}'' after of
             None \<Rightarrow> Err (Config_Error (''unterminated ${...} in '' @ quoted input))
           | Some (name, rest') \<Rightarrow>
               if name = [] then Err (Config_Error (''empty ${} placeholder in '' @ quoted input))
               else and_then (pieces_from input rest') (\<lambda>ps. Ok (Literal lit # Placeholder name # ps))))"
  by pat_completeness auto

termination
  by (relation "measure (\<lambda>(_, rest). length rest)")
    (auto dest!: split_once_shorter find_sub_shorter)

declare pieces_from.simps [simp del]

fun piece_text :: "config_env \<Rightarrow> secret_values \<Rightarrow> piece \<Rightarrow> (signal_error, string) res" where
  "piece_text env secrets (Literal s) = Ok s"
| "piece_text env secrets (Placeholder name) = placeholder_value env secrets name"

fun names_of :: "piece list \<Rightarrow> string list" where
  "names_of [] = []"
| "names_of (Literal _ # ps) = names_of ps"
| "names_of (Placeholder n # ps) = n # names_of ps"

lemma placeholders_pieces: "placeholders_from input rest = and_then (pieces_from input rest) (\<lambda>ps. Ok (names_of ps))"
proof (induction input rest rule: pieces_from.induct)
  case (1 input rest)
  note unfold = placeholders_from.simps [of input rest] pieces_from.simps [of input rest]
  show ?case
  proof (cases "find_sub ''${'' rest")
    case (Some la)
    obtain lit after where la: "la = (lit, after)" by (cases la)
    show ?thesis
    proof (cases "split_once CHR ''}'' after")
      case (Some nr)
      obtain name rest' where nr: "nr = (name, rest')" by (cases nr)
      show ?thesis
      proof (cases "name = []")
        case False
        then show ?thesis
          using "1.IH" [OF \<open>find_sub ''${'' rest = Some la\<close> la [symmetric] Some nr [symmetric] False] \<open>find_sub ''${'' rest = Some la\<close> Some
          by (cases "pieces_from input rest'") (simp_all add: unfold la nr)
      qed (simp add: unfold \<open>find_sub ''${'' rest = Some la\<close> Some la nr)
    qed (simp add: unfold Some la)
  qed (simp add: unfold)
qed

text \<open>The first \<open>${\<close> of the text is where the first name is found again.\<close>

lemma find_sub_longer:
  "find_sub p s = Some (a, q @ b) \<Longrightarrow> find_sub (p @ q) s = Some (a, b)"
proof (induction s arbitrary: a)
  case Nil
  then show ?case by (auto simp: find_sub.simps [of _ "[]"] dest: strip_prefixD split: option.splits)
next
  case (Cons x xs)
  show ?case
  proof (cases "strip_prefix p (x # xs)")
    case None
    with Cons.prems obtain a' where a: "a = x # a'" "find_sub p xs = Some (a', q @ b)"
      by (auto simp: find_sub.simps [of p "x # xs"])
    have "strip_prefix (p @ q) (x # xs) = None"
      using None by (cases "strip_prefix (p @ q) (x # xs)") (auto simp: strip_prefix_Some [THEN iffD2] dest!: strip_prefixD)
    then show ?thesis using a Cons.IH by (simp add: find_sub.simps [of "p @ q" "x # xs"])
  next
    case (Some r)
    with Cons.prems have "a = []" "x # xs = p @ q @ b"
      by (auto simp: find_sub.simps [of p "x # xs"] dest!: strip_prefixD)
    then show ?thesis by (simp add: find_sub.simps [of "p @ q" "p @ q @ b"] strip_prefix_append [of "p @ q" b, simplified])
  qed
qed

lemma interpolate_names_pieces:
  "pieces_from input rest = Inr ps \<Longrightarrow>
     interpolate_names env secrets out rest (names_of ps) =
     and_then (collect_res (piece_text env secrets) ps) (\<lambda>ts. Ok (out @ concat ts))"
proof (induction input rest arbitrary: ps out rule: pieces_from.induct)
  case (1 input rest)
  show ?case
  proof (cases "find_sub ''${'' rest")
    case None
    with 1 show ?thesis by (auto simp: pieces_from.simps [of input rest])
  next
    case (Some la)
    obtain lit after where la: "la = (lit, after)" by (cases la)
    with Some "1.prems" obtain name rest' qs where s: "split_once CHR ''}'' after = Some (name, rest')" "name \<noteq> []"
      and qs: "pieces_from input rest' = Inr qs" and ps: "ps = Literal lit # Placeholder name # qs"
      by (auto simp: pieces_from.simps [of input rest] and_then_Inr_iff split: option.splits if_splits)
    have "after = (name @ ''}'') @ rest'" using s(1) by (simp add: split_once_Some)
    then have f: "find_sub (braced name) rest = Some (lit, rest')"
      using find_sub_longer [of "''${''" rest lit "name @ ''}''" rest'] Some la by (simp add: braced_def)
    have IH: "interpolate_names env secrets out' rest' (names_of qs) =
        and_then (collect_res (piece_text env secrets) qs) (\<lambda>ts. Ok (out' @ concat ts))" for out'
      using "1.IH" [OF Some la [symmetric] s(1) refl s(2) qs] .
    show ?thesis
      by (cases "placeholder_value env secrets name"; cases "collect_res (piece_text env secrets) qs")
        (simp_all add: ps f IH)
  qed
qed

text \<open>
  C31. Interpolating a string is one pass over it: the result is the literals and the placeholders' values
  in the order of the text, a value that itself contains a placeholder is not read again, the first
  error is the code's error, and the search for a name the code has just found never fails.
\<close>

theorem interpolation_is_one_pass:
  "interpolate_str env secrets input =
     and_then (pieces_from input input) (\<lambda>ps.
     and_then (collect_res (piece_text env secrets) ps) (\<lambda>ts. Ok (concat ts)))"
  using interpolate_names_pieces [of input input _ env secrets "[]"]
  by (cases "pieces_from input input") (simp_all add: interpolate_str_def placeholders_def placeholders_pieces)

subsection \<open>Merging layers\<close>

text \<open>The last value that is set.\<close>

definition last_some :: "'a option list \<Rightarrow> 'a option" where
  "last_some xs = (case filter (\<lambda>x. x \<noteq> None) xs of [] \<Rightarrow> None | y # ys \<Rightarrow> last (y # ys))"

lemma last_some_simps [simp]:
  "last_some [] = None" "last_some (x # xs) = or_opt (last_some xs) x"
proof -
  have some: "last_some xs = None \<longleftrightarrow> filter (\<lambda>x. x \<noteq> None) xs = []"
  proof (cases "filter (\<lambda>x. x \<noteq> None) xs")
    case (Cons y ys)
    then have "last (y # ys) \<in> set (filter (\<lambda>x. x \<noteq> None) xs)" by (metis last_in_set list.distinct(1))
    then have "last (y # ys) \<noteq> None" by (simp only: set_filter mem_Collect_eq simp_thms)
    with Cons show ?thesis by (simp only: last_some_def list.case list.distinct simp_thms)
  qed (simp add: last_some_def)
  show "last_some (x # xs) = or_opt (last_some xs) x"
  proof (cases "last_some xs")
    case None
    with some show ?thesis by (auto simp: last_some_def)
  next
    case (Some v)
    with some obtain y ys where "filter (\<lambda>x. x \<noteq> None) xs = y # ys" by (cases "filter (\<lambda>x. x \<noteq> None) xs") auto
    with Some show ?thesis by (auto simp: last_some_def)
  qed
qed (simp add: last_some_def)

lemma unwrap_or_or_opt: "unwrap_or (unwrap_or d y) x = unwrap_or d (or_opt x y)"
  by (cases x) simp_all

lemma fold_merge_layer:
  assumes "fold merge_layer layers (c0, os0) = (c, os)" "length os0 = length (cf_routes c0)"
  shows "cf_routes c = concat (map (ly_routes \<circ> snd) (rev layers)) @ cf_routes c0 \<and>
    cf_storage c = unwrap_or (cf_storage c0) (last_some (map (ly_storage \<circ> snd) layers)) \<and>
    cf_providers c = fold (\<lambda>(_, ly). merge_providers (ly_providers ly)) layers (cf_providers c0) \<and>
    length os = length (cf_routes c)"
  using assms
proof (induction layers arbitrary: c0 os0)
  case (Cons x layers)
  obtain n ly where x: "x = (n, ly)" by (cases x)
  obtain c1 os1 where step: "merge_layer x (c0, os0) = (c1, os1)" by fastforce
  then have c1: "cf_routes c1 = ly_routes ly @ cf_routes c0" "cf_storage c1 = unwrap_or (cf_storage c0) (ly_storage ly)"
    "cf_providers c1 = merge_providers (ly_providers ly) (cf_providers c0)"
    "length os1 = length (ly_routes ly) + length os0"
    by (auto simp: merge_layer_def x split: option.splits)
  have "fold merge_layer layers (c1, os1) = (c, os)" using Cons.prems(1) step by simp
  note IH = Cons.IH [OF this]
  show ?case
    using IH Cons.prems(2) c1 x by (simp add: unwrap_or_or_opt)
qed simp

lemma fold_merge_providers:
  fixes layers :: "(string option \<times> layer) list"
  assumes "\<And>p old. sel (merge_providers p old) = or_opt (sel p) (sel old)"
  shows "sel (fold (\<lambda>(_, ly). merge_providers (ly_providers ly)) layers p0) =
    or_opt (last_some (map (\<lambda>(_, ly). sel (ly_providers ly)) layers)) (sel p0)"
proof (induction layers arbitrary: p0)
  case (Cons x layers)
  obtain n ly where "x = (n, ly)" by (cases x)
  with Cons show ?case by (simp add: assms or_opt_assoc)
qed simp

lemma check_each_ok: "check_each f xs = Inr () \<longleftrightarrow> (\<forall>x \<in> set xs. f x = Inr ())"
  by (induction xs) (auto simp: and_then_Inr_iff)

lemma check_group_fields_ok: "check_group_fields at fs = Inr () \<longleftrightarrow> list_all is_group_field fs"
  by (induction fs) auto

lemma check_route_providers_ok: "check_route_providers at ks ps = Inr () \<longleftrightarrow> set ps \<subseteq> set ks"
  by (induction ps) auto

definition route_ok :: "string list \<Rightarrow> route \<Rightarrow> bool" where
  "route_ok configured r \<longleftrightarrow>
     providers r \<noteq> [] \<and> set (providers r) \<subseteq> set configured \<and> dedup r \<noteq> Some 0 \<and> group_wait r \<noteq> Some 0 \<and>
     (case route_rate_limit r of None \<Rightarrow> True | Some l \<Rightarrow> 0 < rl_max l \<and> 0 < rl_per l) \<and>
     list_all is_group_field (unwrap_or [] (group_by r))"

lemma check_route_ok: "check_route configured (r, orig) = Inr () \<longleftrightarrow> route_ok configured r"
proof -
  have w: "(case x of Some w \<Rightarrow> w = 0 | None \<Rightarrow> False) \<longleftrightarrow> x = Some (0 :: nat)" for x by (cases x) auto
  have l: "(case x of Some l \<Rightarrow> rl_max l = 0 \<or> rl_per l = 0 | None \<Rightarrow> False) \<longleftrightarrow>
      \<not> (case x of None \<Rightarrow> True | Some l \<Rightarrow> 0 < rl_max l \<and> 0 < rl_per l)" for x :: "rate_limit option"
    by (cases x) auto
  show ?thesis
    unfolding check_route_def route_ok_def prod.case Let_def w l
    by (auto simp: and_then_Inr_iff check_group_fields_ok check_route_providers_ok)
qed

lemma from_layers_ok:
  assumes "from_layers env layers = Inr c"
  obtains os where "fold merge_layer layers (default_config, []) = (c, os)" "length os = length (cf_routes c)"
    "check_routes c os = Inr ()" "check_templates (cv_check env) (cf_providers c) = Inr ()"
    "case pr_slack (cf_providers c) of Some s \<Rightarrow> slack_check s = Inr () | None \<Rightarrow> True"
    "case pr_email (cf_providers c) of Some e \<Rightarrow> email_check (cv_check env) e = Inr () | None \<Rightarrow> True"
proof -
  obtain c' os where f: "fold merge_layer layers (default_config, []) = (c', os)" by fastforce
  have len: "length os = length (cf_routes c')"
    using fold_merge_layer [OF f] by (simp add: default_config_def)
  have unit: "(\<exists>u. r = Inr u) \<longleftrightarrow> r = Inr ()" for r :: "(signal_error, unit) res" by (cases r) auto
  show thesis
    using assms that [of os] f len
    unfolding from_layers_def f Let_def prod.case and_then_Inr_iff unit
    by (auto split: option.splits)
qed

lemma from_layers_routes_ok:
  assumes "from_layers env layers = Inr c"
  shows "list_all (route_ok (provider_names c)) (cf_routes c)"
proof -
  from assms obtain os where os: "length os = length (cf_routes c)" "check_routes c os = Inr ()"
    by (rule from_layers_ok)
  have "route_ok (provider_names c) r" if "r \<in> set (cf_routes c)" for r
  proof -
    from that obtain i where "i < length (cf_routes c)" "cf_routes c ! i = r" by (metis in_set_conv_nth)
    then have "(r, os ! i) \<in> set (zip (cf_routes c) os)" using os(1) by (auto simp: set_zip)
    then show ?thesis using os(2) unfolding check_routes_def check_each_ok check_route_ok [of _ _ "os ! i", symmetric] by blast
  qed
  then show ?thesis by (simp add: list_all_iff)
qed

text \<open>
  C30. Merging layers, lowest priority first: the routes of a later layer come before those of an earlier
  one, the storage and each provider's entry are those of the last layer that sets them, and a
  layer that sets nothing changes nothing.
\<close>

theorem merge_gives_later_layers_precedence:
  assumes "from_layers env layers = Ok c"
  shows "cf_routes c = concat (map (ly_routes \<circ> snd) (rev layers)) \<and>
    cf_storage c = unwrap_or default_storage (last_some (map (ly_storage \<circ> snd) layers)) \<and>
    pr_console (cf_providers c) = last_some (map (\<lambda>(_, ly). pr_console (ly_providers ly)) layers) \<and>
    pr_slack (cf_providers c) = last_some (map (\<lambda>(_, ly). pr_slack (ly_providers ly)) layers) \<and>
    pr_webhook (cf_providers c) = last_some (map (\<lambda>(_, ly). pr_webhook (ly_providers ly)) layers) \<and>
    pr_pagerduty (cf_providers c) = last_some (map (\<lambda>(_, ly). pr_pagerduty (ly_providers ly)) layers) \<and>
    pr_teams (cf_providers c) = last_some (map (\<lambda>(_, ly). pr_teams (ly_providers ly)) layers) \<and>
    pr_opsgenie (cf_providers c) = last_some (map (\<lambda>(_, ly). pr_opsgenie (ly_providers ly)) layers) \<and>
    pr_email (cf_providers c) = last_some (map (\<lambda>(_, ly). pr_email (ly_providers ly)) layers)"
proof -
  from assms obtain os where f: "fold merge_layer layers (default_config, []) = (c, os)" by (rule from_layers_ok)
  then have "cf_routes c = concat (map (ly_routes \<circ> snd) (rev layers))"
    "cf_storage c = unwrap_or default_storage (last_some (map (ly_storage \<circ> snd) layers))"
    "cf_providers c = fold (\<lambda>(_, ly). merge_providers (ly_providers ly)) layers no_providers"
    using fold_merge_layer [OF f] by (simp_all add: default_config_def)
  then show ?thesis
    by (simp add: no_providers_def fold_merge_providers merge_providers_def)
qed

text \<open>
  C32. A config that loads is well formed: every route lists at least one provider and only configured
  ones, its windows and rate limit are positive, and it groups by fields that exist; and a Slack or
  e-mail entry says in exactly one way how it sends.
\<close>

theorem loaded_config_is_well_formed:
  assumes "from_layers env layers = Ok c"
  shows "list_all (route_ok (provider_names c)) (cf_routes c) \<and>
    (case pr_slack (cf_providers c) of None \<Rightarrow> True
     | Some s \<Rightarrow> (sc_webhook_url s = None) \<noteq> (sc_bot_token s = None) \<and> (sc_bot_token s = None) = (sc_channel s = None)) \<and>
    (case pr_email (cf_providers c) of None \<Rightarrow> True
     | Some m \<Rightarrow> ec_to m \<noteq> [] \<and> (ec_smtp m = None) \<noteq> (ec_ses m = None) \<and>
         list_all (\<lambda>a. is_ok (ce_mailbox (cv_check env) a)) (ec_from m # ec_to m @ ec_cc m))"
proof -
  from assms obtain os where
    slack: "case pr_slack (cf_providers c) of Some s \<Rightarrow> slack_check s = Inr () | None \<Rightarrow> True"
    and email: "case pr_email (cf_providers c) of Some e \<Rightarrow> email_check (cv_check env) e = Inr () | None \<Rightarrow> True"
    by (rule from_layers_ok)
  show ?thesis
  proof (intro conjI)
    show "list_all (route_ok (provider_names c)) (cf_routes c)" by (rule from_layers_routes_ok [OF assms])
    show "case pr_slack (cf_providers c) of None \<Rightarrow> True
     | Some s \<Rightarrow> (sc_webhook_url s = None) \<noteq> (sc_bot_token s = None) \<and> (sc_bot_token s = None) = (sc_channel s = None)"
      using slack by (auto simp: slack_check_ok split: option.splits)
    show "case pr_email (cf_providers c) of None \<Rightarrow> True
     | Some m \<Rightarrow> ec_to m \<noteq> [] \<and> (ec_smtp m = None) \<noteq> (ec_ses m = None) \<and>
         list_all (\<lambda>a. is_ok (ce_mailbox (cv_check env) a)) (ec_from m # ec_to m @ ec_cc m)"
      using email email_check_ok by (fastforce simp: transport_Some list_all_iff split: option.splits)
  qed
qed

subsection \<open>A shared default and a team's file\<close>

definition sample_check :: check_env where
  "sample_check = \<lparr>ce_mailbox = Inr, ce_addons = \<lparr>ad_features = [], ad_fetchers = [], ad_senders = []\<rparr>,
     ce_jinja = \<lparr>jj_parse = (\<lambda>_. None), jj_undeclared = (\<lambda>_. [''title'']), jj_globals = [], jj_render = (\<lambda>s _. Inr s)\<rparr>\<rparr>"

definition sample_config_env :: config_env where
  "sample_config_env = \<lparr>cv_var = (\<lambda>v. if v = ''HOOK'' then Some ''https://h'' else None),
     cv_parse_yaml = (\<lambda>t. Inr (YStr t)), cv_layer_of_yaml = (\<lambda>_. Inl ''not a map''), cv_check = sample_check\<rparr>"

definition sample_slack :: slack_config where
  "sample_slack = \<lparr>sc_webhook_url = Some ''https://h'', sc_bot_token = None, sc_channel = None, sc_api_url = None,
     sc_template = [(''text'', ''alert'')]\<rparr>"

definition sample_base :: layer where
  "sample_base = \<lparr>ly_extends = [], ly_providers = no_providers\<lparr>pr_slack := Some sample_slack\<rparr>,
     ly_routes = [sample_route [] [''console'']], ly_storage = Some \<lparr>st_sink = Sqlite, st_path = ''/var/base.db''\<rparr>\<rparr>"

definition sample_team :: layer where
  "sample_team = \<lparr>ly_extends = [''base.yaml''], ly_providers = no_providers,
     ly_routes = [sample_route [Error] [''slack'', ''console'']], ly_storage = None\<rparr>"

definition sample_merged :: config where
  "sample_merged = \<lparr>cf_providers = no_providers\<lparr>pr_slack := Some sample_slack\<rparr>,
     cf_routes = [sample_route [Error] [''slack'', ''console''], sample_route [] [''console'']],
     cf_storage = \<lparr>st_sink = Sqlite, st_path = ''/var/base.db''\<rparr>\<rparr>"

lemma sample_loads:
  "from_layers sample_config_env [(Some ''base'', sample_base), (Some ''team'', sample_team)] = Ok sample_merged"
  by code_simp

theorem merge_gives_later_layers_precedence_witness:
  "cf_routes sample_merged = ly_routes sample_team @ ly_routes sample_base \<and>
   pr_slack (cf_providers sample_merged) = Some sample_slack"
  using merge_gives_later_layers_precedence [OF sample_loads]
  by (simp add: sample_base_def sample_team_def no_providers_def)

theorem loaded_config_is_well_formed_witness:
  "list_all (route_ok [''console'', ''slack'']) (cf_routes sample_merged)"
  using loaded_config_is_well_formed [OF sample_loads]
  by (simp add: provider_names_def sample_merged_def no_providers_def)

end
