(* ===== verification/Source_Reads.thy ===== *)
theory Source_Reads
  imports Secret_Values
begin

text \<open>
  Reading a config source and caching it on disk, from \<^verbatim>\<open>crates/core/src/source.rs\<close>. The file
  system, the HTTP client and the cloud code behind a feature are the parameters in \<open>source_env\<close>;
  \<open>so_http\<close> is the outcome of building the client and sending the request, then the status and the
  body.
\<close>

record source_env =
  so_addons :: addons
  so_read_file :: "string \<Rightarrow> (string, string) res"
  so_http :: "string \<Rightarrow> (string, nat \<times> (string, string) res) res"
  so_status :: "nat \<Rightarrow> string"
  so_native :: "config_source \<Rightarrow> (signal_error, string) res"
  so_url_join :: "string \<Rightarrow> string \<Rightarrow> (string, string) res"
  so_sha :: "string \<Rightarrow> string"

definition fetch_http :: "source_env \<Rightarrow> string \<Rightarrow> (signal_error, string) res" where
  "fetch_http e u =
     (case so_http e u of
        Inl err \<Rightarrow> Err (Config_Error err)
      | Inr (status, body) \<Rightarrow>
          if \<not> (200 \<le> status \<and> status \<le> 299) then Err (Config_Error (''server returned '' @ so_status e status))
          else map_err Config_Error body)"

definition fetch_cloud :: "source_env \<Rightarrow> config_source \<Rightarrow> (signal_error, string) res" where
  "fetch_cloud e src =
     (if (case cloud src of Some c \<Rightarrow> built_in (so_addons e) c | None \<Rightarrow> False) then so_native e src
      else fetch_external (so_addons e) (scheme src) (source_display src))"

definition fetch_unprefixed :: "source_env \<Rightarrow> config_source \<Rightarrow> (signal_error, string) res" where
  "fetch_unprefixed e src =
     (case src of
        File p \<Rightarrow> map_err (\<lambda>err. Config_Error (''cannot read '' @ p @ '': '' @ err)) (so_read_file e p)
      | Http u \<Rightarrow> fetch_http e u
      | _ \<Rightarrow> fetch_cloud e src)"

definition fetch :: "source_env \<Rightarrow> config_source \<Rightarrow> (signal_error, string) res" where
  "fetch e src = map_err (\<lambda>err. Config_Error (source_display src @ '': '' @ message err)) (fetch_unprefixed e src)"

text \<open>What an add-on calls to serve a request; starting its runtime may fail.\<close>

definition fetch_blocking :: "string option \<Rightarrow> source_env \<Rightarrow> secret_env \<Rightarrow> string \<Rightarrow> (string, string) res" where
  "fetch_blocking runtime_error e se u =
     (case runtime_error of
        Some err \<Rightarrow> Err (''failed to start runtime: '' @ err)
      | None \<Rightarrow>
          (let is_secret = (case split_once CHR '':'' u of Some (s, _) \<Rightarrow> s \<in> set (map fst STORES) | None \<Rightarrow> False)
           in map_err message
             (if is_secret then read_secret se u else and_then (parse_source u) (fetch_unprefixed e))))"

subsection \<open>Options of a load\<close>

definition REFRESH_ENV_VAR :: string where "REFRESH_ENV_VAR = ''SIGNAL_CONFIG_REFRESH_SECS''"
definition CACHE_DIR_ENV_VAR :: string where "CACHE_DIR_ENV_VAR = ''SIGNAL_CONFIG_CACHE_DIR''"
definition DEFAULT_REFRESH :: nat where "DEFAULT_REFRESH = 60"

record load_options =
  lo_refresh :: "nat option"
  lo_cache_dir :: "string option"

text \<open>\<open>Path::join\<close> with a relative path.\<close>

definition path_join :: "string \<Rightarrow> string \<Rightarrow> string" where
  "path_join a b = (if a = [] then b else if last a = CHR ''/'' then a @ b else a @ ''/'' @ b)"

definition default_cache_dir :: "(string \<Rightarrow> string option) \<Rightarrow> string \<Rightarrow> string option" where
  "default_cache_dir env temp_dir =
     Some (path_join
       (unwrap_or temp_dir (or_opt (env ''XDG_CACHE_HOME'') (map_option (\<lambda>h. path_join h ''.cache'') (env ''HOME''))))
       ''opssignal'')"

definition default_load_options :: "(string \<Rightarrow> string option) \<Rightarrow> string \<Rightarrow> load_options" where
  "default_load_options env temp_dir =
     \<lparr>lo_refresh = Some DEFAULT_REFRESH, lo_cache_dir = default_cache_dir env temp_dir\<rparr>"

definition load_options_from_env :: "(string \<Rightarrow> string option) \<Rightarrow> string \<Rightarrow> (signal_error, load_options) res" where
  "load_options_from_env env temp_dir =
     and_then
       (case env REFRESH_ENV_VAR of
          None \<Rightarrow> Ok (default_load_options env temp_dir)
        | Some raw \<Rightarrow>
            (case parse_u64 (trim raw) of
               None \<Rightarrow> Err (Config_Error (''$'' @ REFRESH_ENV_VAR @ '' must be a whole number of seconds, got '' @ quoted raw))
             | Some secs \<Rightarrow>
                 Ok ((default_load_options env temp_dir)\<lparr>lo_refresh := (if secs > 0 then Some secs else None)\<rparr>)))
       (\<lambda>opts. Ok (case env CACHE_DIR_ENV_VAR of None \<Rightarrow> opts | Some dir \<Rightarrow> opts\<lparr>lo_cache_dir := Some dir\<rparr>))"

definition load_once :: "(string \<Rightarrow> string option) \<Rightarrow> string \<Rightarrow> load_options" where
  "load_once env temp_dir = (default_load_options env temp_dir)\<lparr>lo_refresh := None\<rparr>"

definition cache_path :: "source_env \<Rightarrow> load_options \<Rightarrow> config_source \<Rightarrow> string option" where
  "cache_path e opts src =
     (if \<not> is_remote src then None
      else map_option (\<lambda>dir. path_join dir (''signal-'' @ take 16 (so_sha e (source_display src)) @ ''.yaml''))
             (lo_cache_dir opts))"

subsection \<open>The cache on disk\<close>

type_synonym files = "(string \<times> string) list"

text \<open>
  Write to a temporary file, then rename. Each step may fail; a failed write may leave part of the
  text in the temporary file.
\<close>

datatype write_outcome = No_Dir | No_Write string | No_Rename | Written

definition with_extension :: "string \<Rightarrow> string \<Rightarrow> string" where
  "with_extension path ext = (case rsplit_once CHR ''.'' path of Some (stem, _) \<Rightarrow> stem @ ''.'' @ ext | None \<Rightarrow> path @ ''.'' @ ext)"

definition write_cache :: "write_outcome \<Rightarrow> nat \<Rightarrow> string \<Rightarrow> string \<Rightarrow> files \<Rightarrow> files" where
  "write_cache outcome pid path text fs =
     (let tmp = with_extension path (''tmp-'' @ show_nat pid) in
      case outcome of
        No_Dir \<Rightarrow> fs
      | No_Write part \<Rightarrow> AList.update tmp part fs
      | No_Rename \<Rightarrow> AList.update tmp text fs
      | Written \<Rightarrow> AList.update path text (AList.delete tmp (AList.update tmp text fs)))"

definition write_caches :: "source_env \<Rightarrow> (string \<Rightarrow> write_outcome) \<Rightarrow> nat \<Rightarrow> load_options \<Rightarrow>
    (config_source \<times> string) list \<Rightarrow> files \<Rightarrow> files" where
  "write_caches e outcome pid opts texts fs =
     fold (\<lambda>(src, text) fs. case cache_path e opts src of
        Some path \<Rightarrow> write_cache (outcome path) pid path text fs | None \<Rightarrow> fs) texts fs"

subsection \<open>Facts\<close>

lemma path_join_suffix: "\<exists>u. path_join a b = u @ b"
  by (auto simp: path_join_def)

lemma with_extension_yaml: "with_extension (s @ ''.yaml'') ext = s @ ''.'' @ ext"
proof -
  have "rsplit_once CHR ''.'' (s @ ''.yaml'') = Some (s, ''yaml'')" by (simp add: rsplit_once_Some)
  then show ?thesis by (simp add: with_extension_def)
qed

lemma tmp_not_yaml: "with_extension (s @ ''.yaml'') (''tmp-'' @ n) \<noteq> t @ ''.yaml''" if "CHR ''.'' \<notin> set n"
proof
  assume "with_extension (s @ ''.yaml'') (''tmp-'' @ n) = t @ ''.yaml''"
  then have "s @ CHR ''.'' # (''tmp-'' @ n) = t @ CHR ''.'' # ''yaml''" by (simp add: with_extension_yaml)
  then have "rsplit_once CHR ''.'' (s @ CHR ''.'' # (''tmp-'' @ n)) = Some (t, ''yaml'')"
    by (simp add: rsplit_once_Some)
  moreover have "rsplit_once CHR ''.'' (s @ CHR ''.'' # (''tmp-'' @ n)) = Some (s, ''tmp-'' @ n)"
    using that by (simp add: rsplit_once_Some)
  ultimately show False by simp
qed

lemma show_nat_no_dot: "CHR ''.'' \<notin> set (show_nat n)"
  using show_nat_digits [of n] by (auto simp: list_all_iff is_digit_def)

lemma cache_path_yaml: "cache_path e opts src = Some path \<Longrightarrow> \<exists>s. path = s @ ''.yaml''"
  by (auto simp: cache_path_def path_join_def split: if_splits)

text \<open>Whatever step fails, a cached copy is the old text or the whole new one.\<close>

lemma write_cache_whole:
  assumes "path = s @ ''.yaml''" "path' = s' @ ''.yaml''"
  shows "map_of (write_cache oc pid path text fs) path' =
    (if oc = Written \<and> path' = path then Some text else map_of fs path')"
  using assms tmp_not_yaml [OF show_nat_no_dot, of s pid s']
  by (cases oc) (auto simp: write_cache_def Let_def map_of_update map_of_delete)

lemma write_caches_other:
  assumes "path = s @ ''.yaml''" "\<And>src text. (src, text) \<in> set texts \<Longrightarrow> cache_path e opts src \<noteq> Some path"
  shows "map_of (write_caches e oc pid opts texts fs) path = map_of fs path"
  using assms(2)
proof (induction texts arbitrary: fs)
  case Nil
  then show ?case by (simp add: write_caches_def)
next
  case (Cons x texts)
  obtain src t where x: "x = (src, t)" by (cases x)
  let ?fs = "case cache_path e opts src of Some p \<Rightarrow> write_cache (oc p) pid p t fs | None \<Rightarrow> fs"
  have "map_of ?fs path = map_of fs path"
    using Cons.prems [of src t] cache_path_yaml write_cache_whole [OF _ assms(1)]
    by (fastforce simp: x split: option.splits)
  moreover have "write_caches e oc pid opts (x # texts) fs = write_caches e oc pid opts texts ?fs"
    by (simp add: write_caches_def x)
  moreover have "map_of (write_caches e oc pid opts texts ?fs) path = map_of ?fs path"
    by (rule Cons.IH) (use Cons.prems in auto)
  ultimately show ?case by simp
qed

text \<open>After a run of successful writes each remote file's cached copy is its text.\<close>

lemma write_caches_stored:
  assumes "\<exists>src. (src, text) \<in> set texts \<and> cache_path e opts src = Some path"
    "\<And>src' text'. (src', text') \<in> set texts \<Longrightarrow> cache_path e opts src' = Some path \<Longrightarrow> text' = text"
    "\<And>p. oc p = Written"
  shows "map_of (write_caches e oc pid opts texts fs) path = Some text"
  using assms(1, 2)
proof (induction texts arbitrary: fs)
  case (Cons x texts)
  obtain src' text' where x: "x = (src', text')" by (cases x)
  obtain s where s: "path = s @ ''.yaml''" using cache_path_yaml Cons.prems(1) by blast
  let ?fs = "case cache_path e opts src' of Some p \<Rightarrow> write_cache (oc p) pid p text' fs | None \<Rightarrow> fs"
  have step: "write_caches e oc pid opts (x # texts) fs = write_caches e oc pid opts texts ?fs"
    by (simp add: write_caches_def x)
  show ?case
  proof (cases "\<exists>src. (src, text) \<in> set texts \<and> cache_path e opts src = Some path")
    case True
    have "map_of (write_caches e oc pid opts texts ?fs) path = Some text"
      by (rule Cons.IH [OF True]) (use Cons.prems(2) in auto)
    with step show ?thesis by simp
  next
    case False
    with Cons.prems x have "cache_path e opts src' = Some path" "text' = text" by auto
    then have now: "map_of ?fs path = Some text"
      using write_cache_whole [OF s s] by (simp add: assms(3))
    have "map_of (write_caches e oc pid opts texts ?fs) path = map_of ?fs path"
      by (rule write_caches_other [OF s]) (use Cons.prems(2) False in fastforce)
    with now step show ?thesis by simp
  qed
qed simp

end
