(* ===== verification/Chains.thy ===== *)
theory Chains
  imports Configs Source_Reads
begin

text \<open>
  \<^verbatim>\<open>crates/core/src/chain.rs\<close>: loading every file a config is built from. A file is fetched (or read
  from its cached copy), its secrets are resolved, and the files it extends are visited before it.
  The cache of secrets outlives a failed walk, so it is threaded next to the result.
\<close>

definition MAX_DEPTH :: nat where "MAX_DEPTH = 8"
definition MAX_FILES :: nat where "MAX_FILES = 64"

datatype walk_mode = Startup load_options | Cache_Only load_options | Reload

record chain_error =
  xe_err :: signal_error
  xe_fatal :: bool

definition fatal_error :: "signal_error \<Rightarrow> chain_error" where
  "fatal_error err = \<lparr>xe_err = err, xe_fatal = True\<rparr>"

record fetched =
  ft_source :: config_source
  ft_text :: string
  ft_secrets :: string

record built =
  bt_text :: string
  bt_layer :: layer
  bt_secrets :: string

datatype failure = Text_Failure signal_error | Secrets_Failure chain_error

record chain_env =
  ch_source :: source_env
  ch_secret :: secret_env
  ch_config :: config_env
  ch_read :: "string \<Rightarrow> (string, string) res"

type_synonym 'a io = "secret_cache \<times> 'a"

definition then_do :: "secret_cache \<times> ('e, 'a) res \<Rightarrow> (secret_cache \<Rightarrow> 'a \<Rightarrow> secret_cache \<times> ('e, 'b) res) \<Rightarrow> secret_cache \<times> ('e, 'b) res" where
  "then_do r f = (case r of (c, Inl e) \<Rightarrow> (c, Inl e) | (c, Inr x) \<Rightarrow> f c x)"

subsection \<open>One file\<close>

definition described :: "config_source \<Rightarrow> signal_error \<Rightarrow> signal_error" where
  "described src err = Config_Error (source_display src @ '': '' @ message err)"

definition build :: "chain_env \<Rightarrow> config_source \<Rightarrow> string \<Rightarrow> secret_cache \<Rightarrow> secret_cache \<times> (failure, built) res" where
  "build e src text cache =
     (case secret_refs (ch_config e) text of
        Inl err \<Rightarrow> (cache, Err (Text_Failure (described src err)))
      | Inr names \<Rightarrow>
          (case (if names = [] then (cache, Ok []) else resolve_secrets (ch_secret e) cache names) of
             (cache', Inl r) \<Rightarrow>
               (cache', Err (Secrets_Failure \<lparr>xe_err = described src (rs_err r), xe_fatal = rs_fatal r\<rparr>))
           | (cache', Inr vals) \<Rightarrow>
               (case layer_from_yaml (ch_config e) text vals of
                  Inl err \<Rightarrow> (cache', Err (Text_Failure (described src err)))
                | Inr ly \<Rightarrow> (cache', Ok \<lparr>bt_text = text, bt_layer = ly, bt_secrets = secrets_digest (ch_secret e) vals\<rparr>))))"

definition read_cache :: "chain_env \<Rightarrow> load_options \<Rightarrow> config_source \<Rightarrow> secret_cache \<Rightarrow> secret_cache \<times> (failure, built) res" where
  "read_cache e opts src cache =
     (case cache_path (ch_source e) opts src of
        None \<Rightarrow> (cache, Err (Text_Failure (Config_Error (source_display src @ '': config cache is off''))))
      | Some path \<Rightarrow>
          (case ch_read e path of
             Inl err \<Rightarrow> (cache, Err (Text_Failure (Config_Error (source_display src @ '': no cached copy at '' @ path @ '': '' @ err))))
           | Inr text \<Rightarrow>
               (case build e src text cache of
                  (cache', Inl (Text_Failure err)) \<Rightarrow>
                    (cache', Err (Text_Failure (Config_Error (''cached config at '' @ path @ '' is unusable: '' @ message err))))
                | other \<Rightarrow> other)))"

definition unreachable :: "signal_error \<Rightarrow> chain_error" where
  "unreachable err = \<lparr>xe_err = err, xe_fatal = False\<rparr>"

definition load_file :: "chain_env \<Rightarrow> walk_mode \<Rightarrow> config_source \<Rightarrow> secret_cache \<Rightarrow> secret_cache \<times> (chain_error, built) res" where
  "load_file e m src cache =
     (case (if is_remote src then (case m of Cache_Only opts \<Rightarrow> Some opts | _ \<Rightarrow> None) else None) of
        Some opts \<Rightarrow>
          (case read_cache e opts src cache of
             (cache', Inr b) \<Rightarrow> (cache', Ok b)
           | (cache', Inl (Secrets_Failure x)) \<Rightarrow> (cache', Err x)
           | (cache', Inl (Text_Failure err)) \<Rightarrow> (cache', Err (unreachable err)))
      | None \<Rightarrow>
          (case (case fetch (ch_source e) src of
                   Inr text \<Rightarrow> build e src text cache
                 | Inl err \<Rightarrow> (cache, Err (Text_Failure err))) of
             (cache', Inr b) \<Rightarrow> (cache', Ok b)
           | (cache', Inl (Secrets_Failure x)) \<Rightarrow> (cache', Err x)
           | (cache', Inl (Text_Failure err)) \<Rightarrow>
               (if \<not> is_remote src then (cache', Err (fatal_error err))
                else
                  (case m of
                     Startup opts \<Rightarrow>
                       (case read_cache e opts src cache' of
                          (cache'', Inr b) \<Rightarrow> (cache'', Ok b)
                        | (cache'', Inl (Secrets_Failure x)) \<Rightarrow> (cache'', Err x)
                        | (cache'', Inl (Text_Failure _)) \<Rightarrow> (cache'', Err (unreachable err)))
                   | _ \<Rightarrow> (cache', Err (unreachable err))))))"

subsection \<open>The walk\<close>

text \<open>The files done so far: their keys, and the files themselves in merge order.\<close>

type_synonym walked = "string list \<times> (fetched \<times> layer) list"

definition file_of :: "config_source \<Rightarrow> built \<Rightarrow> fetched \<times> layer" where
  "file_of src b = (\<lparr>ft_source = src, ft_text = bt_text b, ft_secrets = bt_secrets b\<rparr>, bt_layer b)"

function visit :: "chain_env \<Rightarrow> walk_mode \<Rightarrow> string list \<Rightarrow> config_source \<Rightarrow> secret_cache \<Rightarrow> walked \<Rightarrow>
      secret_cache \<times> (chain_error, walked) res"
  and visit_parents :: "chain_env \<Rightarrow> walk_mode \<Rightarrow> string list \<Rightarrow> config_source \<Rightarrow> string list \<Rightarrow> secret_cache \<Rightarrow> walked \<Rightarrow>
      secret_cache \<times> (chain_error, walked) res" where
  "visit e m stack src cache st =
     (if source_display src \<in> set stack then
        (cache, Err (fatal_error (Config_Error (''`extends` cycle: '' @ join '' -> '' (stack @ [source_display src])))))
      else if source_display src \<in> set (fst st) then (cache, Ok st)
      else if MAX_DEPTH \<le> length stack then
        (cache, Err (fatal_error (Config_Error (source_display src @ '': `extends` chain is deeper than '' @
           show_nat MAX_DEPTH @ '' files''))))
      else if MAX_FILES \<le> length (fst st) then
        (cache, Err (fatal_error (Config_Error (source_display src @ '': config chain loads more than '' @
           show_nat MAX_FILES @ '' files''))))
      else
        then_do (cache, map_err fatal_error (check_supported (so_addons (ch_source e)) src)) (\<lambda>cache _.
        then_do (load_file e m src cache) (\<lambda>cache b.
        then_do (visit_parents e m (stack @ [source_display src]) src (ly_extends (bt_layer b)) cache st) (\<lambda>cache st'.
          (cache, Ok (List.insert (source_display src) (fst st'), snd st' @ [file_of src b]))))))"
| "visit_parents e m stack src [] cache st = (cache, Ok st)"
| "visit_parents e m stack src (p # ps) cache st =
     then_do (cache, map_err fatal_error (join_source (so_url_join (ch_source e)) src p)) (\<lambda>cache src'.
     then_do (visit e m stack src' cache st) (\<lambda>cache st'.
       visit_parents e m stack src ps cache st'))"
  by pat_completeness auto

termination
  by (relation "inv_image (less_than <*lex*> less_than)
      (\<lambda>x. case x of
         Inl (e, m, stack, src, cache, st) \<Rightarrow> (MAX_DEPTH - length stack, 0)
       | Inr (e, m, stack, src, ps, cache, st) \<Rightarrow> (MAX_DEPTH - length stack, Suc (length ps)))")
    auto

declare visit.simps [simp del]

fun walk_roots :: "chain_env \<Rightarrow> walk_mode \<Rightarrow> config_source list \<Rightarrow> secret_cache \<Rightarrow> walked \<Rightarrow>
    secret_cache \<times> (chain_error, walked) res" where
  "walk_roots e m [] cache st = (cache, Ok st)"
| "walk_roots e m (r # rs) cache st = then_do (visit e m [] r cache st) (\<lambda>cache st'. walk_roots e m rs cache st')"

definition walk :: "chain_env \<Rightarrow> config_source list \<Rightarrow> walk_mode \<Rightarrow> secret_cache \<Rightarrow>
    secret_cache \<times> (chain_error, (fetched \<times> layer) list) res" where
  "walk e roots m cache = then_do (walk_roots e m roots cache ([], [])) (\<lambda>cache st. (cache, Ok (snd st)))"

type_synonym texts = "(string \<times> string \<times> string) list"

definition texts_of :: "(fetched \<times> layer) list \<Rightarrow> texts" where
  "texts_of files = map (\<lambda>(f, _). (source_display (ft_source f), ft_text f, ft_secrets f)) files"

definition merge_chain :: "chain_env \<Rightarrow> (fetched \<times> layer) list \<Rightarrow> (chain_error, config) res" where
  "merge_chain e files =
     (let any_local = (\<exists>(f, _) \<in> set files. \<not> is_remote (ft_source f)) in
      map_err (\<lambda>err. \<lparr>xe_err = err, xe_fatal = any_local\<rparr>)
        (from_layers (ch_config e) (map (\<lambda>(f, ly). (Some (source_display (ft_source f)), ly)) files)))"

subsection \<open>The order of the files\<close>

abbreviation resolves :: "chain_env \<Rightarrow> config_source \<Rightarrow> string \<Rightarrow> (signal_error, config_source) res" where
  "resolves e src p \<equiv> join_source (so_url_join (ch_source e)) src p"

definition key_of :: "fetched \<times> layer \<Rightarrow> string" where
  "key_of f = source_display (ft_source (fst f))"

definition parents_before :: "chain_env \<Rightarrow> (fetched \<times> layer) list \<Rightarrow> bool" where
  "parents_before e order \<longleftrightarrow>
     (\<forall>a f b. order = a @ f # b \<longrightarrow>
        (\<forall>p \<in> set (ly_extends (snd f)). \<exists>s. resolves e (ft_source (fst f)) p = Ok s \<and> source_display s \<in> key_of ` set a))"

definition walked_ok :: "chain_env \<Rightarrow> walked \<Rightarrow> bool" where
  "walked_ok e st \<longleftrightarrow> fst st = rev (map key_of (snd st)) \<and> distinct (fst st) \<and> parents_before e (snd st)"

lemma walked_ok_start [simp]: "walked_ok e ([], [])"
  by (simp add: walked_ok_def parents_before_def)

lemma parents_before_snoc:
  assumes "parents_before e order"
    "\<forall>p \<in> set (ly_extends (snd f)). \<exists>s. resolves e (ft_source (fst f)) p = Ok s \<and> source_display s \<in> key_of ` set order"
  shows "parents_before e (order @ [f])"
  unfolding parents_before_def
proof (intro allI impI)
  fix a g b
  assume split: "order @ [f] = a @ g # b"
  show "\<forall>p \<in> set (ly_extends (snd g)). \<exists>s. resolves e (ft_source (fst g)) p = Ok s \<and> source_display s \<in> key_of ` set a"
  proof (cases b rule: rev_cases)
    case Nil
    with split assms(2) show ?thesis by simp
  next
    case (snoc b' z)
    with split have "order = a @ g # b'" by simp
    with assms(1) show ?thesis unfolding parents_before_def by blast
  qed
qed

lemma then_do_Inr: "then_do r f = (c', Inr y) \<longleftrightarrow> (\<exists>c x. r = (c, Inr x) \<and> f c x = (c', Inr y))"
  by (auto simp: then_do_def split: prod.splits sum.splits)

lemma visit_ok:
  assumes "visit e m stack src cache st = (c', Inr st')"
  obtains "source_display src \<notin> set stack" "source_display src \<in> set (fst st)" "st' = st" "c' = cache"
  | c1 b st2 where "source_display src \<notin> set stack" "source_display src \<notin> set (fst st)" "length stack < MAX_DEPTH"
    "length (fst st) < MAX_FILES" "check_supported (so_addons (ch_source e)) src = Ok ()" "load_file e m src cache = (c1, Inr b)"
    "visit_parents e m (stack @ [source_display src]) src (ly_extends (bt_layer b)) c1 st = (c', Inr st2)"
    "st' = (List.insert (source_display src) (fst st2), snd st2 @ [file_of src b])"
proof -
  from assms consider
      (old) "source_display src \<notin> set stack" "source_display src \<in> set (fst st)" "st' = st" "c' = cache"
    | (new) "source_display src \<notin> set stack" "source_display src \<notin> set (fst st)" "length stack < MAX_DEPTH"
      "length (fst st) < MAX_FILES"
      "then_do (cache, map_err fatal_error (check_supported (so_addons (ch_source e)) src)) (\<lambda>cache _.
        then_do (load_file e m src cache) (\<lambda>cache b.
        then_do (visit_parents e m (stack @ [source_display src]) src (ly_extends (bt_layer b)) cache st) (\<lambda>cache st'.
          (cache, Ok (List.insert (source_display src) (fst st'), snd st' @ [file_of src b]))))) = (c', Inr st')"
    unfolding visit.simps [of e m stack src cache st] by (simp split: if_splits)
  then show thesis
  proof cases
    case old
    then show thesis by (rule that(1))
  next
    case new
    then show thesis using that(2) unfolding then_do_Inr by fastforce
  qed
qed

lemma file_of_key [simp]: "key_of (file_of src b) = source_display src" "ft_source (fst (file_of src b)) = src"
  "snd (file_of src b) = bt_layer b"
  by (simp_all add: key_of_def file_of_def)

text \<open>
  One visit: the files done stay, the new ones are not on the stack and come after the files they
  extend, and the file asked for is among them.
\<close>

lemma visit_files:
  "visit e m stack src cache st = (c', Inr st') \<Longrightarrow> walked_ok e st \<Longrightarrow>
     \<exists>new. snd st' = snd st @ new \<and> walked_ok e st' \<and> source_display src \<in> set (fst st') \<and>
       key_of ` set new \<inter> set stack = {}"
  "visit_parents e m stack src ps cache st = (c', Inr st') \<Longrightarrow> walked_ok e st \<Longrightarrow>
     \<exists>new. snd st' = snd st @ new \<and> walked_ok e st' \<and> key_of ` set new \<inter> set stack = {} \<and>
       (\<forall>p \<in> set ps. \<exists>s. resolves e src p = Ok s \<and> source_display s \<in> set (fst st'))"
proof (induction e m stack src cache st and e m stack src ps cache st arbitrary: c' st' and c' st' rule: visit_visit_parents.induct)
  case (1 e m stack src cache st)
  from "1.prems"(1) show ?case
  proof (cases rule: visit_ok)
    case 1
    with "1.prems"(2) show ?thesis by auto
  next
    case (2 c1 b st2)
    from "1.IH" [OF 2(1,2) _ _ 2(7) "1.prems"(2)] 2(3,4) obtain new where
      new: "snd st2 = snd st @ new" "walked_ok e st2" "key_of ` set new \<inter> set (stack @ [source_display src]) = {}"
      "\<forall>p \<in> set (ly_extends (bt_layer b)). \<exists>s. resolves e src p = Ok s \<and> source_display s \<in> set (fst st2)"
      by (auto simp: not_le)
    have keys: "fst st2 = rev (map key_of (snd st2))" "fst st = rev (map key_of (snd st))"
      using new(2) "1.prems"(2) by (simp_all add: walked_ok_def)
    have fresh: "source_display src \<notin> set (fst st2)"
      using new(1,3) 2(2) keys by auto
    have "parents_before e (snd st2 @ [file_of src b])"
      by (rule parents_before_snoc) (use new(2,4) keys in \<open>auto simp: walked_ok_def\<close>)
    moreover have "distinct (map key_of (snd st2))"
      using new(2) keys(1) unfolding walked_ok_def by (metis distinct_rev)
    ultimately have "walked_ok e st'"
      using fresh 2(8) keys(1) by (simp add: walked_ok_def)
    then show ?thesis
      using new(1,3) 2(1,8) by (intro exI [of _ "new @ [file_of src b]"]) auto
  qed
next
  case (2 e m stack src cache st)
  then show ?case by simp
next
  case (3 e m stack src p ps cache st)
  from "3.prems"(1) obtain src1 c1 st1 where s: "resolves e src p = Inr src1"
    and v: "visit e m stack src1 cache st = (c1, Inr st1)" and r: "visit_parents e m stack src ps c1 st1 = (c', Inr st')"
    by (auto simp: then_do_Inr)
  from "3.IH"(1) [OF v "3.prems"(2)] obtain n1 where
    n1: "snd st1 = snd st @ n1" "walked_ok e st1" "source_display src1 \<in> set (fst st1)" "key_of ` set n1 \<inter> set stack = {}" by blast
  from "3.IH"(2) [OF r n1(2)] obtain n2 where
    n2: "snd st' = snd st1 @ n2" "walked_ok e st'" "key_of ` set n2 \<inter> set stack = {}"
    "\<forall>p \<in> set ps. \<exists>s. resolves e src p = Ok s \<and> source_display s \<in> set (fst st')" by blast
  have "set (fst st1) \<subseteq> set (fst st')" using n1(2) n2(1,2) by (auto simp: walked_ok_def)
  then show ?case
    using n1 n2 s by (intro exI [of _ "n1 @ n2"]) auto
qed

lemma visit_count:
  "visit e m stack src cache st = (c', Inr st') \<Longrightarrow>
     length (fst st') \<le> max (length (fst st)) (MAX_FILES + MAX_DEPTH - 1 - length stack)"
  "visit_parents e m stack src ps cache st = (c', Inr st') \<Longrightarrow>
     length (fst st') \<le> max (length (fst st)) (MAX_FILES + MAX_DEPTH - 1 - length stack)"
proof (induction e m stack src cache st and e m stack src ps cache st arbitrary: c' st' and c' st' rule: visit_visit_parents.induct)
  case (1 e m stack src cache st)
  from "1.prems"(1) show ?case
  proof (cases rule: visit_ok)
    case (2 c1 b st2)
    from "1.IH" [OF 2(1,2) _ _ 2(7)] 2(3,4)
    have "length (fst st2) \<le> max (length (fst st)) (MAX_FILES + MAX_DEPTH - 1 - length (stack @ [source_display src]))"
      by (simp add: not_le)
    moreover have "length (fst st') \<le> Suc (length (fst st2))" by (simp add: 2(8) List.insert_def)
    ultimately show ?thesis using 2(3,4) by (auto simp: MAX_FILES_def MAX_DEPTH_def max_def split: if_splits)
  qed simp
next
  case (3 e m stack src p ps cache st)
  from "3.prems"(1) obtain src1 c1 st1 where
    v: "visit e m stack src1 cache st = (c1, Inr st1)" and r: "visit_parents e m stack src ps c1 st1 = (c', Inr st')"
    by (auto simp: then_do_Inr)
  from "3.IH"(1) [OF v] "3.IH"(2) [OF r] show ?case by simp
qed simp

lemma walk_roots_files:
  assumes "walk_roots e m rs cache st = (c', Inr st')" "walked_ok e st"
  shows "walked_ok e st' \<and> set (snd st) \<subseteq> set (snd st') \<and> (\<forall>r \<in> set rs. source_display r \<in> set (fst st')) \<and>
    length (fst st') \<le> max (length (fst st)) (MAX_FILES + MAX_DEPTH - 1)"
  using assms
proof (induction rs arbitrary: cache st)
  case (Cons r rs)
  then obtain c1 st1 where v: "visit e m [] r cache st = (c1, Inr st1)"
    and rest: "walk_roots e m rs c1 st1 = (c', Inr st')"
    by (auto simp: then_do_Inr)
  from visit_files(1) [OF v Cons.prems(2)] obtain new where
    n: "snd st1 = snd st @ new" "walked_ok e st1" "source_display r \<in> set (fst st1)" by blast
  note IH = Cons.IH [OF rest n(2)]
  from IH have "walked_ok e st'" by blast
  with n(2) IH have "set (fst st1) \<subseteq> set (fst st')" by (auto simp: walked_ok_def)
  with n IH visit_count(1) [OF v] show ?case by auto
qed simp

lemma walk_ok:
  assumes "walk e roots m cache = (c', Ok files)"
  shows "distinct (map key_of files) \<and> parents_before e files \<and>
    (\<forall>r \<in> set roots. source_display r \<in> key_of ` set files) \<and> length files \<le> MAX_FILES + MAX_DEPTH - 1"
proof -
  from assms obtain st where st: "walk_roots e m roots cache ([], []) = (c', Inr st)" "files = snd st"
    by (auto simp: walk_def then_do_Inr)
  from walk_roots_files [OF st(1)] have "walked_ok e st" "\<forall>r \<in> set roots. source_display r \<in> set (fst st)"
    "length (fst st) \<le> MAX_FILES + MAX_DEPTH - 1" by auto
  then show ?thesis unfolding st(2) walked_ok_def by (metis distinct_rev length_map length_rev set_map set_rev)
qed

text \<open>
  C12. The files a chain loads come once each, every file after the files it extends, with every root
  among them; so in the merge a file overrides everything it builds on. The walk is bounded: it
  never loads more than 71 files, whatever the files say.
\<close>

theorem chain_loads_parents_first:
  assumes "walk e roots m cache = (cache', Ok files)"
  shows "distinct (map key_of files) \<and> set (map source_display roots) \<subseteq> set (map key_of files) \<and> length files \<le> 71 \<and>
    (\<forall>i < length files. \<forall>p \<in> set (ly_extends (snd (files ! i))).
       \<exists>s j. resolves e (ft_source (fst (files ! i))) p = Ok s \<and> j < i \<and> key_of (files ! j) = source_display s)"
proof (intro conjI allI impI ballI)
  note w = walk_ok [OF assms]
  show "distinct (map key_of files)" "set (map source_display roots) \<subseteq> set (map key_of files)" "length files \<le> 71"
    using w by (auto simp: MAX_FILES_def MAX_DEPTH_def)
  fix i p
  assume i: "i < length files" and p: "p \<in> set (ly_extends (snd (files ! i)))"
  have "files = take i files @ files ! i # drop (Suc i) files" using i by (rule id_take_nth_drop)
  with w p obtain s where s: "resolves e (ft_source (fst (files ! i))) p = Ok s" "source_display s \<in> key_of ` set (take i files)"
    unfolding parents_before_def by blast
  then obtain j where "j < i" "key_of (files ! j) = source_display s"
    using i by (auto simp: in_set_conv_nth)
  with s show "\<exists>s j. resolves e (ft_source (fst (files ! i))) p = Ok s \<and> j < i \<and> key_of (files ! j) = source_display s"
    by blast
qed

subsection \<open>What a walk depends on\<close>

lemma then_do_cong: "(\<And>c x. r = (c, Inr x) \<Longrightarrow> f c x = g c x) \<Longrightarrow> then_do r f = then_do r g"
  by (auto simp: then_do_def split: prod.splits sum.splits)

definition with_local_files :: "(string \<Rightarrow> (string, string) res) \<Rightarrow> chain_env \<Rightarrow> chain_env" where
  "with_local_files f e = e\<lparr>ch_source := (ch_source e)\<lparr>so_read_file := f\<rparr>\<rparr>"

lemma with_local_files_same [simp]:
  "so_addons (ch_source (with_local_files f e)) = so_addons (ch_source e)"
  "so_url_join (ch_source (with_local_files f e)) = so_url_join (ch_source e)"
  "ch_config (with_local_files f e) = ch_config e" "ch_secret (with_local_files f e) = ch_secret e"
  "ch_read (with_local_files f e) = ch_read e" "cache_path (ch_source (with_local_files f e)) = cache_path (ch_source e)"
  by (simp_all add: with_local_files_def cache_path_def fun_eq_iff)

lemma with_local_files_other:
  "so_http (ch_source (with_local_files f e)) = so_http (ch_source e)"
  "so_status (ch_source (with_local_files f e)) = so_status (ch_source e)"
  "so_native (ch_source (with_local_files f e)) = so_native (ch_source e)"
  by (simp_all add: with_local_files_def)

lemma fetch_remote: "is_remote src \<Longrightarrow> fetch (ch_source (with_local_files f e)) src = fetch (ch_source e) src"
proof -
  have h: "fetch_http (ch_source (with_local_files f e)) = fetch_http (ch_source e)"
    by (intro ext, unfold fetch_http_def with_local_files_other) (rule refl)
  have c: "fetch_cloud (ch_source (with_local_files f e)) = fetch_cloud (ch_source e)"
    by (intro ext, unfold fetch_cloud_def with_local_files_same with_local_files_other) (rule refl)
  show "is_remote src \<Longrightarrow> fetch (ch_source (with_local_files f e)) src = fetch (ch_source e) src"
    by (cases src) (simp_all only: fetch_def fetch_unprefixed_def h c config_source.case is_remote.simps)
qed

lemma load_remote: "is_remote src \<Longrightarrow> load_file (with_local_files f e) m src cache = load_file e m src cache"
proof -
  have b: "build (with_local_files f e) = build e" by (intro ext, unfold build_def with_local_files_same) (rule refl)
  have r: "read_cache (with_local_files f e) = read_cache e" by (intro ext, unfold read_cache_def b with_local_files_same) (rule refl)
  show "is_remote src \<Longrightarrow> load_file (with_local_files f e) m src cache = load_file e m src cache"
    by (unfold load_file_def b r, simp only: fetch_remote)
qed

lemma join_stays_remote: "join_source uj src p = Inr s \<Longrightarrow> is_remote src \<Longrightarrow> is_remote s"
  by (auto simp: join_source_def Let_def and_then_Inr_iff split: if_splits)

lemma visit_local_files:
  "is_remote src \<Longrightarrow> visit (with_local_files f e) m stack src cache st = visit e m stack src cache st"
  "is_remote src \<Longrightarrow> visit_parents (with_local_files f e) m stack src ps cache st = visit_parents e m stack src ps cache st"
proof (induction e m stack src cache st and e m stack src ps cache st rule: visit_visit_parents.induct)
  case (1 e m stack src cache st)
  have "visit_parents (with_local_files f e) m (stack @ [source_display src]) src (ly_extends (bt_layer b)) c st =
      visit_parents e m (stack @ [source_display src]) src (ly_extends (bt_layer b)) c st"
    if "source_display src \<notin> set stack" "source_display src \<notin> set (fst st)"
      "\<not> MAX_DEPTH \<le> length stack" "\<not> MAX_FILES \<le> length (fst st)" for b :: built and c
    by (rule "1.IH" [OF that "1.prems"])
  then show ?case
    unfolding visit.simps [of _ m stack src cache st] with_local_files_same load_remote [OF "1.prems"]
    by (intro if_cong refl then_do_cong) simp
next
  case (3 e m stack src p ps cache st)
  show ?case
    unfolding visit_parents.simps with_local_files_same
  proof (rule then_do_cong)
    fix c src1 assume "(cache, map_err fatal_error (resolves e src p)) = (c, Inr src1)"
    then have remote: "is_remote src1" using "3.prems" by (auto intro: join_stays_remote)
    show "then_do (visit (with_local_files f e) m stack src1 c st) (visit_parents (with_local_files f e) m stack src ps) =
        then_do (visit e m stack src1 c st) (visit_parents e m stack src ps)"
      unfolding "3.IH"(1) [OF remote] by (rule then_do_cong) (rule "3.IH"(2) [OF "3.prems"])
  qed
qed simp

text \<open>
  C33. A config served over the network reads no local file: when every root is remote, what the walk
  returns, errors included, does not depend on the contents of the local files, however the files
  it loads name their parents. (The cached copies, which are read apart, are the same in both.)
\<close>

theorem remote_chain_reads_no_local_file:
  assumes "list_all is_remote roots"
  shows "walk (with_local_files f e) roots m cache = walk e roots m cache"
proof -
  have "walk_roots (with_local_files f e) m roots cache st = walk_roots e m roots cache st" for st
    using assms
  proof (induction roots arbitrary: cache st)
    case (Cons r rs)
    then show ?case
      unfolding walk_roots.simps by (simp only: list.pred_inject visit_local_files(1)) (rule then_do_cong, simp)
  qed simp
  then show ?thesis by (simp add: walk_def)
qed

text \<open>A walk is repeated by any environment that loads its files the same.\<close>

lemma visit_replay:
  assumes same: "so_addons (ch_source e2) = so_addons (ch_source e)" "so_url_join (ch_source e2) = so_url_join (ch_source e)"
  shows "visit e m stack src cache st = (c', Inr st') \<Longrightarrow> walked_ok e st \<Longrightarrow>
     (\<And>f c. f \<in> set (snd st') \<Longrightarrow> \<exists>c2 b. load_file e2 m2 (ft_source (fst f)) c = (c2, Inr b) \<and> file_of (ft_source (fst f)) b = f) \<Longrightarrow>
     \<exists>c2'. visit e2 m2 stack src c2 st = (c2', Inr st')"
  and "visit_parents e m stack src ps cache st = (c', Inr st') \<Longrightarrow> walked_ok e st \<Longrightarrow>
     (\<And>f c. f \<in> set (snd st') \<Longrightarrow> \<exists>c2 b. load_file e2 m2 (ft_source (fst f)) c = (c2, Inr b) \<and> file_of (ft_source (fst f)) b = f) \<Longrightarrow>
     \<exists>c2'. visit_parents e2 m2 stack src ps c2 st = (c2', Inr st')"
  using same
proof (induction e m stack src cache st and e m stack src ps cache st arbitrary: c' st' c2 and c' st' c2 rule: visit_visit_parents.induct)
  case (1 e m stack src cache st)
  note env = "1.prems"(4,5)
  from "1.prems"(1) show ?case
  proof (cases rule: visit_ok)
    case 1
    then show ?thesis by (simp add: visit.simps [of e2])
  next
    case (2 c1 b st2)
    from "1.prems"(3) [of "file_of src b" c2] 2(8) obtain d b2 where
      b2: "load_file e2 m2 src c2 = (d, Inr b2)" "file_of src b2 = file_of src b" by auto
    have bl: "bt_layer b2 = bt_layer b" using b2(2) by (simp add: file_of_def)
    have "\<exists>d'. visit_parents e2 m2 (stack @ [source_display src]) src (ly_extends (bt_layer b)) d st = (d', Inr st2)"
      by (rule "1.IH" [OF 2(1,2) _ _ 2(7) "1.prems"(2) _ env]) (use 2 "1.prems"(3) in auto)
    then obtain d' where "visit_parents e2 m2 (stack @ [source_display src]) src (ly_extends (bt_layer b)) d st = (d', Inr st2)" ..
    then show ?thesis
      using 2 b2 bl env by (simp add: visit.simps [of e2] then_do_def)
  qed
next
  case (3 e m stack src p ps cache st)
  note env = "3.prems"(4,5)
  from "3.prems"(1) obtain src1 c1 st1 where s: "resolves e src p = Inr src1"
    and v: "visit e m stack src1 cache st = (c1, Inr st1)" and r: "visit_parents e m stack src ps c1 st1 = (c', Inr st')"
    by (auto simp: then_do_Inr)
  from visit_files(1) [OF v "3.prems"(2)] have ok1: "walked_ok e st1" by blast
  from visit_files(2) [OF r ok1] have sub: "set (snd st1) \<subseteq> set (snd st')" by auto
  have "\<exists>d. visit e2 m2 stack src1 c2 st = (d, Inr st1)"
    by (rule "3.IH"(1) [OF v "3.prems"(2) _ env]) (use sub "3.prems"(3) in blast)
  then obtain d where d: "visit e2 m2 stack src1 c2 st = (d, Inr st1)" ..
  have "\<exists>d'. visit_parents e2 m2 stack src ps d st1 = (d', Inr st')"
    by (rule "3.IH"(2) [OF r ok1 "3.prems"(3) env])
  then show ?case using s d env by (auto simp: then_do_def)
qed simp

lemma walk_replay:
  assumes "so_addons (ch_source e2) = so_addons (ch_source e)" "so_url_join (ch_source e2) = so_url_join (ch_source e)"
    "walk e roots m cache = (c', Ok files)"
    "\<And>f c. f \<in> set files \<Longrightarrow> \<exists>c2 b. load_file e2 m2 (ft_source (fst f)) c = (c2, Inr b) \<and> file_of (ft_source (fst f)) b = f"
  shows "\<exists>c2'. walk e2 roots m2 c2 = (c2', Ok files)"
proof -
  have "walk_roots e m roots cache st = (c', Inr st') \<Longrightarrow> walked_ok e st \<Longrightarrow> set (snd st') \<subseteq> set files \<Longrightarrow>
      \<exists>c2'. walk_roots e2 m2 roots c2 st = (c2', Inr st')" for c' st st' c2
  proof (induction roots arbitrary: cache st c2)
    case (Cons r rs)
    then obtain c1 st1 where v: "visit e m [] r cache st = (c1, Inr st1)" and rest: "walk_roots e m rs c1 st1 = (c', Inr st')"
      by (auto simp: then_do_Inr)
    from visit_files(1) [OF v Cons.prems(2)] have ok1: "walked_ok e st1" by blast
    have sub: "set (snd st1) \<subseteq> set files" using walk_roots_files [OF rest ok1] Cons.prems(3) by blast
    have "\<exists>d. visit e2 m2 [] r c2 st = (d, Inr st1)"
      by (rule visit_replay(1) [OF assms(1,2) v Cons.prems(2)]) (use sub assms(4) in blast)
    then obtain d where "visit e2 m2 [] r c2 st = (d, Inr st1)" ..
    with Cons.IH [OF rest ok1 Cons.prems(3), of d] show ?case by (auto simp: then_do_def)
  qed simp
  then show ?thesis using assms(3) walked_ok_start unfolding walk_def then_do_Inr by fastforce
qed

subsection \<open>A team's file and its parent, over HTTPS\<close>

definition named_layer :: "string list \<Rightarrow> layer" where
  "named_layer parents = \<lparr>ly_extends = parents, ly_providers = no_providers, ly_routes = [], ly_storage = None\<rparr>"

text \<open>Every file holds its own name; \<open>parents\<close> says what it extends.\<close>

definition sample_chain_env :: "(string \<Rightarrow> string list) \<Rightarrow> chain_env" where
  "sample_chain_env parents = \<lparr>
     ch_source = \<lparr>so_addons = \<lparr>ad_features = [], ad_fetchers = [], ad_senders = []\<rparr>,
       so_read_file = Inr, so_http = (\<lambda>u. Inr (200, Inr (drop 10 u))), so_status = show_nat,
       so_native = (\<lambda>_. Inl (Config_Error [])), so_url_join = (\<lambda>_ r. Inr (''https://c/'' @ r)), so_sha = (\<lambda>u. drop 10 u)\<rparr>,
     ch_secret = \<lparr>sv_addons = \<lparr>ad_features = [], ad_fetchers = [], ad_senders = []\<rparr>, sv_native = (\<lambda>_ _. Inl (Config_Error [])),
       sv_parse_json = (\<lambda>_. None), sv_json_text = (\<lambda>_. []), sv_sha = (\<lambda>s. s), sv_ttl_var = None, sv_times = (\<lambda>_. (0, 0))\<rparr>,
     ch_config = sample_config_env\<lparr>cv_layer_of_yaml :=
       (\<lambda>y. case y of YStr t \<Rightarrow> Inr (named_layer (parents t)) | _ \<Rightarrow> Inl ''not a file'')\<rparr>,
     ch_read = (\<lambda>_. Inl ''no such file'')\<rparr>"

definition team_parents :: "string \<Rightarrow> string list" where
  "team_parents t = (if t = ''team'' then [''base'', ''alerts''] else if t = ''alerts'' then [''base''] else [])"

definition sample_file :: "string \<Rightarrow> fetched \<times> layer" where
  "sample_file t = (\<lparr>ft_source = Http (''https://c/'' @ t), ft_text = t, ft_secrets = []\<rparr>, named_layer (team_parents t))"

lemma sample_walk:
  "walk (sample_chain_env team_parents) [Http ''https://c/team''] Reload [] =
     ([], Ok [sample_file ''base'', sample_file ''alerts'', sample_file ''team''])"
  by code_simp

theorem chain_loads_parents_first_witness:
  "length [sample_file ''base'', sample_file ''alerts'', sample_file ''team''] \<le> 71 \<and>
   distinct (map key_of [sample_file ''base'', sample_file ''alerts'', sample_file ''team''])"
  using chain_loads_parents_first [OF sample_walk] by blast

theorem remote_chain_reads_no_local_file_witness:
  "walk (with_local_files (\<lambda>_. Inl ''denied'') (sample_chain_env team_parents)) [Http ''https://c/team''] Reload [] =
     ([], Ok [sample_file ''base'', sample_file ''alerts'', sample_file ''team''])"
  unfolding sample_walk [symmetric] by (rule remote_chain_reads_no_local_file) simp

text \<open>A root that extends 64 files, each with a one-letter name.\<close>

definition fan_names :: "string list" where
  "fan_names = map (\<lambda>n. [char_of n]) [48..<112]"

definition fan_parents :: "string \<Rightarrow> string list" where
  "fan_parents t = (if t = ''root'' then fan_names else [])"

definition fan_file :: "string \<Rightarrow> fetched \<times> layer" where
  "fan_file t = (\<lparr>ft_source = File t, ft_text = t, ft_secrets = []\<rparr>, named_layer (fan_parents t))"

abbreviation fan_env :: chain_env where "fan_env \<equiv> sample_chain_env fan_parents"

lemma fan_names_plain:
  "length fan_names = 64" "distinct fan_names"
  "t \<in> set fan_names \<Longrightarrow> \<exists>c. t = [c] \<and> \<not> is_ws c \<and> c \<noteq> CHR ''/'' \<and> c \<noteq> CHR ''.''"
proof -
  show "length fan_names = 64" unfolding fan_names_def length_map length_upt by simp
  have code: "(of_char (char_of n :: char) :: nat) = n" if "n < 112" for n :: nat using that by simp
  have "inj_on (\<lambda>n. [char_of n :: char]) {48..<112 :: nat}"
    by (intro inj_onI) (metis code atLeastLessThan_iff list.inject)
  then show "distinct fan_names" unfolding fan_names_def distinct_map set_upt by (simp only: distinct_upt simp_thms)
  assume "t \<in> set fan_names"
  then obtain n where n: "t = [char_of n]" "48 \<le> n" "n < (112 :: nat)"
    unfolding fan_names_def set_map set_upt by auto
  let ?c = "char_of n :: char"
  have c: "(of_char ?c :: nat) = n" by (rule code [OF n(3)])
  then have "\<not> is_ws ?c" using n(2,3) by (simp add: is_ws_def Let_def)
  moreover have "?c \<noteq> d" if "(of_char d :: nat) < 48" for d using that c n(2) by auto
  then have "?c \<noteq> CHR ''/''" "?c \<noteq> CHR ''.''" by simp_all
  ultimately show "\<exists>c. t = [c] \<and> \<not> is_ws c \<and> c \<noteq> CHR ''/'' \<and> c \<noteq> CHR ''.''"
    using n(1) by blast
qed

lemma find_sub_short: "length s < length p \<Longrightarrow> find_sub p s = None"
  by (metis find_sub_Some length_append not_add_less1 not_Some_eq surj_pair add.left_commute le_add1 not_less)

lemma fan_load:
  assumes "t = ''root'' \<or> t \<in> set fan_names"
  shows "load_file fan_env Reload (File t) cache = (cache, Inr \<lparr>bt_text = t, bt_layer = named_layer (fan_parents t), bt_secrets = []\<rparr>)"
proof -
  have "find_sub ''${'' t = None"
    using assms
  proof
    assume "t = ''root''"
    moreover have "find_sub ''${'' ''root'' = None" by code_simp
    ultimately show ?thesis by simp
  next
    assume "t \<in> set fan_names"
    then have "length t < length ''${''" using fan_names_plain(3) by fastforce
    then show ?thesis by (rule find_sub_short)
  qed
  then show ?thesis
    by (simp add: load_file_def fetch_def fetch_unprefixed_def sample_chain_env_def build_def secret_refs_def parse_value_def
        sample_config_env_def placeholders_def placeholders_from.simps layer_from_yaml_def interpolate_str_def secrets_digest_def)
qed

lemma fan_join:
  assumes "t \<in> set fan_names"
  shows "join_source uj (File ''root'') t = Ok (File t)"
proof -
  from fan_names_plain(3) [OF assms] obtain c where t: "t = [c]" and c: "\<not> is_ws c" "c \<noteq> CHR ''/''" "c \<noteq> CHR ''.''" by blast
  have "trim t = t" by (rule trim_id) (simp add: t c)
  moreover have "\<not> absolute t" using c by (simp add: absolute_def contains_sub_def find_sub_short t starts_with_def)
  moreover have "join_file ''root'' t = File t"
    using c by (simp add: join_file_def components_def starts_with_def seg_component_def parent_path_def normalize_def t path_text_def)
  ultimately show ?thesis by (simp add: join_source_def)
qed

lemma fan_leaf:
  assumes "t \<in> set fan_names" "t \<notin> set (fst st)" "length (fst st) < MAX_FILES"
  shows "visit fan_env Reload [''root''] (File t) cache st = (cache, Ok (t # fst st, snd st @ [fan_file t]))"
proof -
  have "t \<noteq> ''root''" using fan_names_plain(3) [OF assms(1)] by auto
  then show ?thesis
    using assms by (simp add: visit.simps [of fan_env] fan_load then_do_def file_of_def fan_file_def MAX_DEPTH_def
        fan_parents_def named_layer_def not_le [symmetric])
qed

lemma fan_leaves:
  "distinct ts \<Longrightarrow> set ts \<subseteq> set fan_names \<Longrightarrow> set ts \<inter> set (fst st) = {} \<Longrightarrow> length (fst st) + length ts \<le> MAX_FILES \<Longrightarrow>
     visit_parents fan_env Reload [''root''] (File ''root'') ts cache st =
       (cache, Ok (rev ts @ fst st, snd st @ map fan_file ts))"
proof (induction ts arbitrary: st)
  case (Cons t ts)
  then show ?case
    using Cons.IH [of "(t # fst st, snd st @ [fan_file t])"] by (simp add: fan_join fan_leaf then_do_def)
qed simp

text \<open>
  C38. The limit on the number of files is checked against the files done, not those on the way: a file
  that extends 64 others loads 65, although at most 64 are meant to be loaded.
\<close>

theorem file_limit_is_exceeded:
  "walk fan_env [File ''root''] Reload [] = ([], Ok (map fan_file (fan_names @ [''root'']))) \<and>
   length (map fan_file (fan_names @ [''root''])) = MAX_FILES + 1"
proof -
  have "visit_parents fan_env Reload [''root''] (File ''root'') fan_names [] ([], []) =
      ([], Ok (rev fan_names, map fan_file fan_names))"
    using fan_leaves [of fan_names "([], [])"] fan_names_plain by (simp add: MAX_FILES_def)
  moreover have "''root'' \<notin> set fan_names" using fan_names_plain(3) by blast
  ultimately have "visit fan_env Reload [] (File ''root'') [] ([], []) =
      ([], Ok (''root'' # rev fan_names, map fan_file (fan_names @ [''root''])))"
    by (simp add: visit.simps [of fan_env] fan_load then_do_def file_of_def fan_file_def MAX_DEPTH_def MAX_FILES_def
        named_layer_def fan_parents_def)
  then show ?thesis by (simp add: walk_def then_do_def fan_names_plain(1) MAX_FILES_def)
qed

end
