(* ===== verification/Loads.thy ===== *)
theory Loads
  imports Chains
begin

text \<open>
  The initial load of a config, from \<^verbatim>\<open>crates/core/src/source.rs\<close> (\<open>load_initial\<close>) and
  \<^verbatim>\<open>crates/core/src/config.rs\<close> (\<open>load\<close>, \<open>from_file\<close>, \<open>discover\<close>): walk the files, merge them, fall back to
  the cached copies, and store the texts that worked.
\<close>

record loaded =
  ld_config :: config
  ld_texts :: "texts option"

definition walk_and_merge :: "chain_env \<Rightarrow> config_source list \<Rightarrow> walk_mode \<Rightarrow> secret_cache \<Rightarrow>
    secret_cache \<times> (chain_error, config \<times> (fetched \<times> layer) list) res" where
  "walk_and_merge e roots m cache =
     then_do (walk e roots m cache) (\<lambda>cache files. (cache, and_then (merge_chain e files) (\<lambda>cfg. Ok (cfg, files))))"

definition load_chain :: "chain_env \<Rightarrow> config_source list \<Rightarrow> load_options \<Rightarrow> secret_cache \<Rightarrow>
    secret_cache \<times> (chain_error, config \<times> (fetched \<times> layer) list) res" where
  "load_chain e roots opts cache =
     (case walk_and_merge e roots (Startup opts) cache of
        (c1, Inr x) \<Rightarrow> (c1, Ok x)
      | (c1, Inl err) \<Rightarrow>
          if \<not> xe_fatal err \<and> lo_cache_dir opts \<noteq> None then
            (case walk_and_merge e roots (Cache_Only opts) c1 of
               (c2, Inr x) \<Rightarrow> (c2, Ok x)
             | (c2, Inl _) \<Rightarrow> (c2, Err err))
          else (c1, Err err))"

definition load_initial :: "chain_env \<Rightarrow> (string \<Rightarrow> write_outcome) \<Rightarrow> nat \<Rightarrow> config_source list \<Rightarrow> load_options \<Rightarrow>
    secret_cache \<Rightarrow> files \<Rightarrow> secret_cache \<times> files \<times> (signal_error, loaded) res" where
  "load_initial e oc pid roots opts cache fs =
     (case check_each (check_supported (so_addons (ch_source e))) roots of
        Inl err \<Rightarrow> (cache, fs, Err err)
      | Inr _ \<Rightarrow>
          (case load_chain e roots opts cache of
             (c, Inr (cfg, files)) \<Rightarrow>
               (c, write_caches (ch_source e) oc pid opts (map (\<lambda>(f, _). (ft_source f, ft_text f)) files) fs,
                Ok \<lparr>ld_config = cfg, ld_texts = Some (texts_of files)\<rparr>)
           | (c, Inl err) \<Rightarrow>
               (if xe_fatal err then (c, fs, Err (xe_err err))
                else (c, fs, Ok \<lparr>ld_config = default_config, ld_texts = None\<rparr>))))"

definition load_blocking :: "string option \<Rightarrow> chain_env \<Rightarrow> (string \<Rightarrow> write_outcome) \<Rightarrow> nat \<Rightarrow> config_source list \<Rightarrow>
    load_options \<Rightarrow> secret_cache \<Rightarrow> files \<Rightarrow> secret_cache \<times> files \<times> (signal_error, loaded) res" where
  "load_blocking runtime_error e oc pid roots opts cache fs =
     (case runtime_error of
        Some err \<Rightarrow> (cache, fs, Err (Internal (''failed to start runtime: '' @ err)))
      | None \<Rightarrow> load_initial e oc pid roots opts cache fs)"

definition config_load :: "string option \<Rightarrow> chain_env \<Rightarrow> (string \<Rightarrow> write_outcome) \<Rightarrow> nat \<Rightarrow> config_source list \<Rightarrow>
    load_options \<Rightarrow> secret_cache \<Rightarrow> files \<Rightarrow> (signal_error, config) res" where
  "config_load runtime_error e oc pid roots opts cache fs =
     and_then (snd (snd (load_blocking runtime_error e oc pid roots opts cache fs))) (\<lambda>l. Ok (ld_config l))"

definition config_from_file :: "string option \<Rightarrow> chain_env \<Rightarrow> (string \<Rightarrow> write_outcome) \<Rightarrow> nat \<Rightarrow> load_options \<Rightarrow> string \<Rightarrow>
    secret_cache \<Rightarrow> files \<Rightarrow> (signal_error, config) res" where
  "config_from_file runtime_error e oc pid once path cache fs =
     config_load runtime_error e oc pid [File path] once cache fs"

definition config_discover :: "(string \<Rightarrow> string option) \<Rightarrow> string \<Rightarrow> (string \<Rightarrow> bool) \<Rightarrow> string option \<Rightarrow> chain_env \<Rightarrow>
    (string \<Rightarrow> write_outcome) \<Rightarrow> nat \<Rightarrow> secret_cache \<Rightarrow> files \<Rightarrow> (signal_error, config) res" where
  "config_discover env temp_dir is_file runtime_error e oc pid cache fs =
     and_then (discover env is_file) (\<lambda>found.
       case found of
         Some sources \<Rightarrow>
           and_then (load_options_from_env env temp_dir)
             (\<lambda>opts. config_load runtime_error e oc pid sources opts cache fs)
       | None \<Rightarrow> Ok default_config)"

subsection \<open>Every file of a walk was loaded\<close>

definition loads_as :: "chain_env \<Rightarrow> walk_mode \<Rightarrow> fetched \<times> layer \<Rightarrow> bool" where
  "loads_as e m f \<longleftrightarrow> (\<exists>c d b. load_file e m (ft_source (fst f)) c = (d, Inr b) \<and> file_of (ft_source (fst f)) b = f)"

lemma visit_loaded:
  "visit e m stack src cache st = (c', Inr st') \<Longrightarrow>
     \<forall>f \<in> set (snd st'). f \<in> set (snd st) \<or> loads_as e m f"
  "visit_parents e m stack src ps cache st = (c', Inr st') \<Longrightarrow>
     \<forall>f \<in> set (snd st'). f \<in> set (snd st) \<or> loads_as e m f"
proof (induction e m stack src cache st and e m stack src ps cache st arbitrary: c' st' and c' st' rule: visit_visit_parents.induct)
  case (1 e m stack src cache st)
  from "1.prems"(1) show ?case
  proof (cases rule: visit_ok)
    case (2 c1 b st2)
    from "1.IH" [OF 2(1,2) _ _ 2(7)] 2(3,4) have
      "\<forall>f \<in> set (snd st2). f \<in> set (snd st) \<or> loads_as e m f"
      by (simp add: not_le)
    moreover have "loads_as e m (file_of src b)"
      using 2(6) by (auto simp: loads_as_def)
    ultimately show ?thesis unfolding 2(8) by auto
  qed simp
next
  case (3 e m stack src p ps cache st)
  from "3.prems"(1) obtain src1 c1 st1 where
    v: "visit e m stack src1 cache st = (c1, Inr st1)" and r: "visit_parents e m stack src ps c1 st1 = (c', Inr st')"
    by (auto simp: then_do_Inr)
  from "3.IH"(1) [OF v] "3.IH"(2) [OF r] show ?case by blast
qed simp

lemma walk_loaded:
  assumes "walk e roots m cache = (c', Ok files)" "f \<in> set files"
  shows "loads_as e m f"
proof -
  have "\<forall>f \<in> set (snd st'). f \<in> set (snd st) \<or> loads_as e m f"
    if "walk_roots e m rs cache st = (c', Inr st')" for rs st st' c'
    using that
  proof (induction rs arbitrary: cache st)
    case (Cons r rs)
    then obtain c1 st1 where v: "visit e m [] r cache st = (c1, Inr st1)" and rest: "walk_roots e m rs c1 st1 = (c', Inr st')"
      by (auto simp: then_do_Inr)
    from visit_loaded(1) [OF v] Cons.IH [OF rest] show ?case by blast
  qed simp
  with assms show ?thesis by (fastforce simp: walk_def then_do_Inr)
qed

lemma load_file_built:
  assumes "load_file e m src c = (d, Inr b)" "secret_refs (ch_config e) (bt_text b) = Inr []"
  shows "layer_from_yaml (ch_config e) (bt_text b) [] = Inr (bt_layer b) \<and> bt_secrets b = [] \<and>
    (\<not> is_remote src \<longrightarrow> fetch (ch_source e) src = Inr (bt_text b))"
proof -
  have built: "layer_from_yaml (ch_config e) t [] = Inr (bt_layer b) \<and> bt_secrets b = [] \<and> bt_text b = t"
    if "build e src t k = (k', Inr b)" for t k k'
  proof -
    have "bt_text b = t" using that by (auto simp: build_def split: prod.splits sum.splits)
    then show ?thesis
      using that assms(2) by (cases b) (auto simp: build_def secrets_digest_def split: prod.splits sum.splits)
  qed
  have cached: "layer_from_yaml (ch_config e) (bt_text b) [] = Inr (bt_layer b) \<and> bt_secrets b = []"
    if "read_cache e opts src k = (k', Inr b)" for opts k k'
    using that built by (auto simp: read_cache_def split: option.splits sum.splits prod.splits failure.splits)
  show ?thesis
    using assms(1) built cached
    by (auto simp: load_file_def split: option.splits sum.splits prod.splits failure.splits if_splits walk_mode.splits)
qed

subsection \<open>Starting again while the sources are out\<close>

text \<open>The file system as the reader of cached copies sees it.\<close>

definition read_from :: "files \<Rightarrow> string \<Rightarrow> (string, string) res" where
  "read_from fs path = ok_or ''No such file or directory'' (map_of fs path)"

lemma path_join_inj: "path_join d a = path_join d b \<longleftrightarrow> a = b"
  by (simp add: path_join_def)

lemma cache_path_same:
  assumes "cache_path e opts src = Some path" "cache_path e opts src' = Some path"
  shows "take 16 (so_sha e (source_display src)) = take 16 (so_sha e (source_display src'))"
  using assms by (auto simp: cache_path_def path_join_inj split: if_splits)

lemma load_chain_ok:
  assumes "load_chain e roots opts cache = (c, Inr (cfg, files))"
  shows "\<exists>m k k'. walk e roots m k = (k', Ok files) \<and> merge_chain e files = Ok cfg"
proof -
  have "\<exists>k k'. walk e roots m k = (k', Ok files) \<and> merge_chain e files = Ok cfg"
    if "walk_and_merge e roots m k = (k', Inr (cfg, files))" for m k k'
    using that by (fastforce simp: walk_and_merge_def then_do_Inr and_then_Inr_iff)
  with assms show ?thesis
    by (fastforce simp: load_chain_def split: prod.splits sum.splits if_splits)
qed

lemma load_initial_ok:
  assumes "load_initial e oc pid roots opts cache fs = (c, fs', Ok ld)" "ld_texts ld = Some ts"
  obtains files where "check_each (check_supported (so_addons (ch_source e))) roots = Ok ()"
    "load_chain e roots opts cache = (c, Inr (ld_config ld, files))" "ts = texts_of files"
    "fs' = write_caches (ch_source e) oc pid opts (map (\<lambda>(f, _). (ft_source f, ft_text f)) files) fs"
  using assms by (auto simp: load_initial_def split: sum.splits prod.splits if_splits)

lemma cached_copies:
  assumes files: "distinct (map key_of files)"
    and written: "\<And>p. oc p = Written"
    and sha: "inj_on (\<lambda>k. take 16 (so_sha e k)) (set (map key_of files))"
    and f: "f \<in> set files" and path: "cache_path e opts (ft_source (fst f)) = Some path"
  shows "map_of (write_caches e oc pid opts (map (\<lambda>(f, _). (ft_source f, ft_text f)) files) fs) path = Some (ft_text (fst f))"
proof (rule write_caches_stored)
  show "\<exists>src. (src, ft_text (fst f)) \<in> set (map (\<lambda>(f, _). (ft_source f, ft_text f)) files) \<and> cache_path e opts src = Some path"
    using path imageI [OF f, of "\<lambda>(f, _). (ft_source f, ft_text f)"]
    by (intro exI [of _ "ft_source (fst f)"]) (simp add: case_prod_beta)
next
  fix src' t'
  assume "(src', t') \<in> set (map (\<lambda>(f, _). (ft_source f, ft_text f)) files)" and p: "cache_path e opts src' = Some path"
  then obtain g where g: "g \<in> set files" "src' = ft_source (fst g)" "t' = ft_text (fst g)"
    by (auto simp: case_prod_beta)
  have "take 16 (so_sha e (key_of g)) = take 16 (so_sha e (key_of f))"
    using cache_path_same [OF p path] by (simp add: g key_of_def)
  then have same: "key_of g = key_of f"
    by (rule inj_onD [OF sha]) (use g(1) f in simp_all)
  have "inj_on key_of (set files)" using files by (simp add: distinct_map)
  then have "g = f" by (rule inj_onD) (use same g(1) f in simp_all)
  then show "t' = ft_text (fst f)" by (simp add: g)
qed (rule written)

text \<open>What the second start keeps of the first: everything but the network, and the files written.\<close>

definition during_outage :: "chain_env \<Rightarrow> files \<Rightarrow> chain_env \<Rightarrow> bool" where
  "during_outage e fs e2 \<longleftrightarrow>
     ch_config e2 = ch_config e \<and> so_addons (ch_source e2) = so_addons (ch_source e) \<and>
     so_url_join (ch_source e2) = so_url_join (ch_source e) \<and> so_sha (ch_source e2) = so_sha (ch_source e) \<and>
     so_read_file (ch_source e2) = so_read_file (ch_source e) \<and> ch_read e2 = read_from fs \<and>
     (\<forall>src. is_remote src \<longrightarrow> (\<exists>err. fetch (ch_source e2) src = Inl err))"

lemma outage_loads:
  assumes out: "during_outage e fs e2"
    and built: "load_file e m src c = (d, Inr b)" and plain: "secret_refs (ch_config e) (bt_text b) = Inr []"
    and cached: "\<And>path. cache_path (ch_source e) opts src = Some path \<Longrightarrow> map_of fs path = Some (bt_text b)"
    and dir: "lo_cache_dir opts \<noteq> None"
  shows "\<exists>b2. load_file e2 (Startup opts) src c2 = (c2, Inr b2) \<and> file_of src b2 = file_of src b"
proof -
  note l = load_file_built [OF built plain]
  have same: "ch_config e2 = ch_config e" and sha: "so_sha (ch_source e2) = so_sha (ch_source e)"
    and reads: "ch_read e2 = read_from fs" and local: "so_read_file (ch_source e2) = so_read_file (ch_source e)"
    using out by (simp_all add: during_outage_def)
  have again: "build e2 src (bt_text b) k = (k, Inr \<lparr>bt_text = bt_text b, bt_layer = bt_layer b, bt_secrets = []\<rparr>)" for k
    using l plain by (simp add: build_def same secrets_digest_def)
  have b: "file_of src \<lparr>bt_text = bt_text b, bt_layer = bt_layer b, bt_secrets = []\<rparr> = file_of src b"
    using l by (simp add: file_of_def)
  show ?thesis
  proof (cases "is_remote src")
    case False
    then have "fetch (ch_source e2) src = Inr (bt_text b)"
      using l local by (cases src) (simp_all add: fetch_def fetch_unprefixed_def)
    with False show ?thesis using again b by (simp add: load_file_def)
  next
    case True
    then obtain err where err: "fetch (ch_source e2) src = Inl err" using out unfolding during_outage_def by blast
    obtain path where path: "cache_path (ch_source e) opts src = Some path"
      using True dir by (auto simp: cache_path_def)
    then have "cache_path (ch_source e2) opts src = Some path" unfolding cache_path_def sha .
    then have "read_cache e2 opts src c2 = (c2, Inr \<lparr>bt_text = bt_text b, bt_layer = bt_layer b, bt_secrets = []\<rparr>)"
      using cached [OF path] again by (simp add: read_cache_def reads read_from_def ok_or_def)
    with True err b show ?thesis by (simp add: load_file_def)
  qed
qed

text \<open>
  C11. A client that has started once starts again with the same config while every remote source is
  out: the cached copies its first start wrote give the same files in the same order, hence the same
  providers and routes. (The files here name no secrets, whose stores would have to answer, and the
  shortened hashes that name the cached copies do not collide on the files of the chain.)
\<close>

theorem restart_survives_an_outage:
  assumes first: "load_initial e oc pid roots opts cache fs = (cache', fs', Ok ld)" "ld_texts ld = Some ts"
    and written: "\<And>p. oc p = Written"
    and dir: "lo_cache_dir opts = Some dir"
    and plain: "\<And>k t d. (k, t, d) \<in> set ts \<Longrightarrow> secret_refs (ch_config e) t = Ok []"
    and sha: "inj_on (\<lambda>k. take 16 (so_sha (ch_source e) k)) (fst ` set ts)"
    and out: "during_outage e fs' e2"
  shows "\<exists>c2 fs2. load_initial e2 oc2 pid2 roots opts cache2 fs' = (c2, fs2, Ok ld)"
proof -
  from first obtain files where sup: "check_each (check_supported (so_addons (ch_source e))) roots = Ok ()"
    and chain: "load_chain e roots opts cache = (cache', Inr (ld_config ld, files))" and ts: "ts = texts_of files"
    and fs': "fs' = write_caches (ch_source e) oc pid opts (map (\<lambda>(f, _). (ft_source f, ft_text f)) files) fs"
    by (rule load_initial_ok)
  from load_chain_ok [OF chain] obtain m k k' where w: "walk e roots m k = (k', Ok files)"
    and merged: "merge_chain e files = Ok (ld_config ld)" by blast
  have keys: "set (map key_of files) = fst ` set ts"
    by (force simp: ts texts_of_def key_of_def case_prod_beta image_iff)
  have distinct: "distinct (map key_of files)" using walk_ok [OF w] by blast
  have "\<exists>c2' b. load_file e2 (Startup opts) (ft_source (fst f)) c = (c2', Inr b) \<and> file_of (ft_source (fst f)) b = f"
    if f: "f \<in> set files" for f c
  proof -
    from walk_loaded [OF w f] obtain c1 d b where b: "load_file e m (ft_source (fst f)) c1 = (d, Inr b)"
      "file_of (ft_source (fst f)) b = f" unfolding loads_as_def by blast
    have t: "ft_text (fst f) = bt_text b" using b(2) by (metis file_of_def fetched.select_convs(2) fst_conv)
    have "(key_of f, ft_text (fst f), ft_secrets (fst f)) \<in> set ts"
      using f by (force simp: ts texts_of_def key_of_def case_prod_beta)
    then have p: "secret_refs (ch_config e) (bt_text b) = Ok []" using plain t by simp
    have "map_of fs' path = Some (bt_text b)" if "cache_path (ch_source e) opts (ft_source (fst f)) = Some path" for path
      unfolding fs' t [symmetric] by (rule cached_copies [OF distinct written _ f that]) (use sha keys in simp)
    from outage_loads [OF out b(1) p this] dir b(2) show ?thesis by fastforce
  qed
  from walk_replay [OF _ _ w this] out obtain c2 where w2: "walk e2 roots (Startup opts) cache2 = (c2, Ok files)"
    unfolding during_outage_def by blast
  have same: "ch_config e2 = ch_config e" "so_addons (ch_source e2) = so_addons (ch_source e)"
    using out by (simp_all add: during_outage_def)
  then have "walk_and_merge e2 roots (Startup opts) cache2 = (c2, Inr (ld_config ld, files))"
    using w2 merged by (simp add: walk_and_merge_def then_do_def merge_chain_def)
  then have "load_chain e2 roots opts cache2 = (c2, Inr (ld_config ld, files))" by (simp add: load_chain_def)
  then show ?thesis
    using sup same first(2) ts by (cases ld) (simp add: load_initial_def)
qed

subsection \<open>An outage of the team's files\<close>

definition sample_options :: load_options where
  "sample_options = \<lparr>lo_refresh = Some 60, lo_cache_dir = Some ''/c''\<rparr>"

definition sample_texts :: texts where
  "sample_texts = [(''https://c/base'', ''base'', []), (''https://c/alerts'', ''alerts'', []), (''https://c/team'', ''team'', [])]"

definition sample_loaded :: loaded where
  "sample_loaded = \<lparr>ld_config = default_config, ld_texts = Some sample_texts\<rparr>"

definition sample_copies :: files where
  "sample_copies = [(''/c/signal-base.yaml'', ''base''), (''/c/signal-alerts.yaml'', ''alerts''), (''/c/signal-team.yaml'', ''team'')]"

lemma sample_first_start:
  "load_initial (sample_chain_env team_parents) (\<lambda>_. Written) 7 [Http ''https://c/team''] sample_options [] [] =
     ([], sample_copies, Ok sample_loaded)"
  by code_simp

definition outage_env :: chain_env where
  "outage_env = (sample_chain_env team_parents)\<lparr>ch_read := read_from sample_copies,
     ch_source := (ch_source (sample_chain_env team_parents))\<lparr>so_http := (\<lambda>_. Inl ''timed out'')\<rparr>\<rparr>"

lemma outage_fetch: "is_remote src \<Longrightarrow> \<exists>err. fetch (ch_source outage_env) src = Inl err"
  by (cases src) (auto simp: fetch_def fetch_unprefixed_def fetch_http_def fetch_cloud_def outage_env_def
      sample_chain_env_def fetch_external_def registered_fetcher_def built_in_def ok_or_def split: option.splits)

theorem restart_survives_an_outage_witness:
  "\<exists>c2 fs2. load_initial outage_env (\<lambda>_. No_Dir) 8 [Http ''https://c/team''] sample_options [] sample_copies = (c2, fs2, Ok sample_loaded)"
proof (rule restart_survives_an_outage [OF sample_first_start])
  show "ld_texts sample_loaded = Some sample_texts" by (simp add: sample_loaded_def)
  show "lo_cache_dir sample_options = Some ''/c''" by (simp add: sample_options_def)
  show "inj_on (\<lambda>k. take 16 (so_sha (ch_source (sample_chain_env team_parents)) k)) (fst ` set sample_texts)"
    by (simp add: inj_on_def sample_texts_def sample_chain_env_def)
  show "during_outage (sample_chain_env team_parents) sample_copies outage_env"
    unfolding during_outage_def using outage_fetch by (simp add: outage_env_def)
next
  have plain: "list_all (\<lambda>(k, t, d). secret_refs (ch_config (sample_chain_env team_parents)) t = Ok []) sample_texts"
    by code_simp
  fix k t d assume "(k, t, d) \<in> set sample_texts"
  with plain show "secret_refs (ch_config (sample_chain_env team_parents)) t = Ok []" by (auto simp: list_all_iff)
qed simp

end
