(* ===== verification/Sinks.thy ===== *)
theory Sinks
  imports Deliveries Routing
begin

text \<open>
  \<^verbatim>\<open>crates/core/src/sink.rs\<close>: the trait \<open>SignalSink\<close> as a record of its operations, and the
  SQLite sink. A table with a primary key is an association list from the key to the other
  columns. Every statement may fail (the parameter \<open>fault\<close>); so may turning the signal into JSON.
\<close>

subsection \<open>The trait\<close>

record 's sink =
  sk_record :: "signal \<Rightarrow> 's \<Rightarrow> (signal_error, unit) res \<times> 's"
  sk_complete :: "signal \<Rightarrow> delivery_result \<Rightarrow> 's \<Rightarrow> (signal_error, unit) res \<times> 's"
  sk_outcome :: "signal \<Rightarrow> provider_outcome \<Rightarrow> 's \<Rightarrow> (signal_error, unit) res \<times> 's"

text \<open>
  The contract the trait's documentation states. \<open>stored\<close> reads the status, provider and error
  stored for a signal, \<open>outcome\<close> the stored status of one provider. \<open>complete\<close> must also work when
  \<open>record\<close> failed or never ran; a failing \<open>record\<close> stores nothing; writing one signal leaves the
  others alone; reporting an outcome leaves the overall result alone.
\<close>

locale signal_sink =
  fixes rec :: "signal \<Rightarrow> 's \<Rightarrow> (signal_error, unit) res \<times> 's"
    and compl :: "signal \<Rightarrow> delivery_result \<Rightarrow> 's \<Rightarrow> (signal_error, unit) res \<times> 's"
    and outc :: "signal \<Rightarrow> provider_outcome \<Rightarrow> 's \<Rightarrow> (signal_error, unit) res \<times> 's"
    and stored :: "'s \<Rightarrow> string \<Rightarrow> (delivery_status \<times> string option \<times> string option) option"
    and outcome :: "'s \<Rightarrow> string \<Rightarrow> string \<Rightarrow> (delivery_status \<times> string option \<times> nat) option"
  assumes record_ok: "fst (rec sg s) = Inr () \<Longrightarrow> stored (snd (rec sg s)) (sg_id sg) = Some (Pending, None, None)"
    and record_err: "fst (rec sg s) = Inl e \<Longrightarrow> snd (rec sg s) = s"
    and record_frame: "n \<noteq> sg_id sg \<Longrightarrow> stored (snd (rec sg s)) n = stored s n"
    and complete_ok: "fst (compl sg r s) = Inr () \<Longrightarrow>
      stored (snd (compl sg r s)) (sg_id sg) = Some (dr_status r, dr_provider r, dr_error r)"
    and complete_outcomes: "fst (compl sg r s) = Inr () \<Longrightarrow> o' \<in> set (dr_deliveries r) \<Longrightarrow>
      distinct (map po_provider (dr_deliveries r)) \<Longrightarrow>
      outcome (snd (compl sg r s)) (sg_id sg) (po_provider o') = Some (po_status o', po_error o', po_attempts o')"
    and complete_frame: "n \<noteq> sg_id sg \<Longrightarrow> stored (snd (compl sg r s)) n = stored s n"
    and outcome_frame: "stored (snd (outc sg p s)) n = stored s n"
begin

text \<open>Whatever happened before, a successful \<open>complete\<close> is the last word on its signal.\<close>

lemma complete_after_anything:
  "fst (compl sg r (snd (rec sg s))) = Inr () \<Longrightarrow>
     stored (snd (compl sg r (snd (rec sg s)))) (sg_id sg) = Some (dr_status r, dr_provider r, dr_error r)"
  by (rule complete_ok)

fun report_all :: "signal \<Rightarrow> provider_outcome list \<Rightarrow> 's \<Rightarrow> 's" where
  "report_all sg [] s = s"
| "report_all sg (p # ps) s = report_all sg ps (snd (outc sg p s))"

lemma report_all_stored [simp]: "stored (report_all sg ps s) n = stored s n"
  by (induction ps arbitrary: s) (simp_all add: outcome_frame)

text \<open>A process that exits while providers report leaves the signal visible as pending.\<close>

lemma pending_until_complete:
  "fst (rec sg s) = Inr () \<Longrightarrow>
     stored (report_all sg ps (snd (rec sg s))) (sg_id sg) = Some (Pending, None, None)"
  by (simp add: record_ok)

end

subsection \<open>The SQLite sink\<close>

record signal_row =
  sr_source :: string
  sr_event_type :: string
  sr_severity :: string
  sr_title :: string
  sr_environment :: "string option"
  sr_key :: "string option"
  sr_status :: string
  sr_provider :: "string option"
  sr_error :: "string option"
  sr_payload :: string
  sr_timestamp :: string

record delivery_row =
  de_status :: string
  de_error :: "string option"
  de_attempts :: nat
  de_updated_at :: string

record tables =
  tb_signals :: "(string \<times> signal_row) list"
  tb_deliveries :: "((string \<times> string) \<times> delivery_row) list"

text \<open>
  What the sink takes from libraries: the JSON text of a signal (or its failure), RFC 3339
  timestamps, the time of the write, and the faults of the statements: of the insert, and of the
  upsert of a provider's outcome.
\<close>

record sink_env =
  se_payload :: "signal \<Rightarrow> string option"
  se_rfc3339 :: "int \<Rightarrow> string"
  se_now :: string
  se_insert_fault :: "signal \<Rightarrow> string option"
  se_outcome_fault :: "signal \<Rightarrow> provider_outcome \<Rightarrow> string option"

definition row_of :: "sink_env \<Rightarrow> signal \<Rightarrow> delivery_result \<Rightarrow> string \<Rightarrow> signal_row" where
  "row_of env sg r payload =
     \<lparr>sr_source = sg_source sg, sr_event_type = sg_event_type sg,
      sr_severity = severity_display (sg_severity sg), sr_title = sg_title sg,
      sr_environment = sg_environment sg, sr_key = sg_dedup_key sg,
      sr_status = status_display (dr_status r), sr_provider = dr_provider r, sr_error = dr_error r,
      sr_payload = payload, sr_timestamp = se_rfc3339 env (sg_timestamp sg)\<rparr>"

text \<open>
  \<open>on_conflict\<close> is the clause after the values: \<open>None\<close> for the empty one, under which a second row
  with the same id violates the primary key.
\<close>

definition insert_row :: "sink_env \<Rightarrow> signal \<Rightarrow> delivery_result \<Rightarrow> (signal_row \<Rightarrow> signal_row \<Rightarrow> signal_row) option \<Rightarrow>
    tables \<Rightarrow> (signal_error, unit) res \<times> tables" where
  "insert_row env sg r on_conflict t =
     (case se_payload env sg of
        None \<Rightarrow> (Err (Sink_Error ''payload''), t)
      | Some payload \<Rightarrow>
          (case se_insert_fault env sg of
             Some e \<Rightarrow> (Err (Sink_Error e), t)
           | None \<Rightarrow>
               (let new = row_of env sg r payload in
                case map_of (tb_signals t) (sg_id sg) of
                  None \<Rightarrow> (Ok (), t\<lparr>tb_signals := AList.update (sg_id sg) new (tb_signals t)\<rparr>)
                | Some old \<Rightarrow>
                    (case on_conflict of
                       None \<Rightarrow> (Err (Sink_Error ''UNIQUE constraint failed: signals.id''), t)
                     | Some merge \<Rightarrow>
                         (Ok (), t\<lparr>tb_signals := AList.update (sg_id sg) (merge old new) (tb_signals t)\<rparr>)))))"

definition upsert_outcome :: "sink_env \<Rightarrow> signal \<Rightarrow> provider_outcome \<Rightarrow> tables \<Rightarrow> (signal_error, unit) res \<times> tables" where
  "upsert_outcome env sg p t =
     (case se_outcome_fault env sg p of
        Some e \<Rightarrow> (Err (Sink_Error e), t)
      | None \<Rightarrow>
          (Ok (), t\<lparr>tb_deliveries := AList.update (sg_id sg, po_provider p)
             \<lparr>de_status = status_display (po_status p), de_error = po_error p,
              de_attempts = po_attempts p, de_updated_at = se_now env\<rparr> (tb_deliveries t)\<rparr>))"

definition sqlite_record :: "sink_env \<Rightarrow> signal \<Rightarrow> tables \<Rightarrow> (signal_error, unit) res \<times> tables" where
  "sqlite_record env sg t = insert_row env sg pending_result None t"

definition keep_new_outcome :: "signal_row \<Rightarrow> signal_row \<Rightarrow> signal_row" where
  "keep_new_outcome old new = old\<lparr>sr_status := sr_status new, sr_provider := sr_provider new,
     sr_error := sr_error new\<rparr>"

fun upsert_outcomes :: "sink_env \<Rightarrow> signal \<Rightarrow> provider_outcome list \<Rightarrow> tables \<Rightarrow> (signal_error, unit) res \<times> tables" where
  "upsert_outcomes env sg [] t = (Ok (), t)"
| "upsert_outcomes env sg (p # ps) t =
     (case upsert_outcome env sg p t of
        (Inl e, t') \<Rightarrow> (Err e, t')
      | (Inr _, t') \<Rightarrow> upsert_outcomes env sg ps t')"

definition sqlite_complete :: "sink_env \<Rightarrow> signal \<Rightarrow> delivery_result \<Rightarrow> tables \<Rightarrow> (signal_error, unit) res \<times> tables" where
  "sqlite_complete env sg r t =
     (case insert_row env sg r (Some keep_new_outcome) t of
        (Inl e, t') \<Rightarrow> (Err e, t')
      | (Inr _, t') \<Rightarrow> upsert_outcomes env sg (dr_deliveries r) t')"

definition sqlite_outcome :: "sink_env \<Rightarrow> signal \<Rightarrow> provider_outcome \<Rightarrow> tables \<Rightarrow> (signal_error, unit) res \<times> tables" where
  "sqlite_outcome env sg p t = upsert_outcome env sg p t"

definition sqlite_sink :: "sink_env \<Rightarrow> tables sink" where
  "sqlite_sink env = \<lparr>sk_record = sqlite_record env, sk_complete = sqlite_complete env,
     sk_outcome = sqlite_outcome env\<rparr>"

subsection \<open>The SQLite sink keeps the contract\<close>

definition status_of :: "string \<Rightarrow> delivery_status option" where
  "status_of s = find (\<lambda>st. status_display st = s) [Pending, Delivered, Partial, Failed, Skipped, Grouped]"

definition stored_status :: "tables \<Rightarrow> string \<Rightarrow> (delivery_status \<times> string option \<times> string option) option" where
  "stored_status t n = (case map_of (tb_signals t) n of
      None \<Rightarrow> None
    | Some r \<Rightarrow> map_option (\<lambda>st. (st, sr_provider r, sr_error r)) (status_of (sr_status r)))"

definition stored_outcome :: "tables \<Rightarrow> string \<Rightarrow> string \<Rightarrow> (delivery_status \<times> string option \<times> nat) option" where
  "stored_outcome t n p = (case map_of (tb_deliveries t) (n, p) of
      None \<Rightarrow> None
    | Some d \<Rightarrow> map_option (\<lambda>st. (st, de_error d, de_attempts d)) (status_of (de_status d)))"

lemma status_of_display [simp]: "status_of (status_display st) = Some st"
  by (cases st) (simp_all add: status_of_def)

lemma row_of_simps [simp]:
  "sr_status (row_of env sg r payload) = status_display (dr_status r)"
  "sr_provider (row_of env sg r payload) = dr_provider r" "sr_error (row_of env sg r payload) = dr_error r"
  by (simp_all add: row_of_def)

lemma insert_row_cases:
  "insert_row env sg r oc t = (v, t') \<Longrightarrow>
     (case v of
        Inl e \<Rightarrow> t' = t
      | Inr _ \<Rightarrow>
          (\<exists>payload. t' = t\<lparr>tb_signals := AList.update (sg_id sg) (row_of env sg r payload) (tb_signals t)\<rparr>) \<or>
          (\<exists>merge old payload. oc = Some merge \<and> map_of (tb_signals t) (sg_id sg) = Some old \<and>
             t' = t\<lparr>tb_signals := AList.update (sg_id sg) (merge old (row_of env sg r payload)) (tb_signals t)\<rparr>))"
  by (auto simp: insert_row_def Let_def split: option.splits)

lemma insert_row_stored:
  assumes "insert_row env sg r oc t = (Inr u, t')" and "oc = None \<or> oc = Some keep_new_outcome"
  shows "stored_status t' (sg_id sg) = Some (dr_status r, dr_provider r, dr_error r)"
  using insert_row_cases [OF assms(1)] assms(2)
  by (auto simp: stored_status_def map_of_update keep_new_outcome_def)

lemma insert_row_frame:
  "insert_row env sg r oc t = (v, t') \<Longrightarrow> n \<noteq> sg_id sg \<Longrightarrow> stored_status t' n = stored_status t n"
  using insert_row_cases [of env sg r oc t v t']
  by (auto simp: stored_status_def map_of_update split: sum.splits)

lemma upsert_outcome_signals [simp]: "tb_signals (snd (upsert_outcome env sg p t)) = tb_signals t"
  by (simp add: upsert_outcome_def split: option.splits)

lemma upsert_outcomes_signals [simp]: "tb_signals (snd (upsert_outcomes env sg ps t)) = tb_signals t"
proof (induction ps arbitrary: t)
  case (Cons p ps)
  obtain v t' where u: "upsert_outcome env sg p t = (v, t')" by fastforce
  with upsert_outcome_signals [of env sg p t] Cons [of t'] show ?case by (cases v) simp_all
qed simp

lemma stored_status_upserts [simp]: "stored_status (snd (upsert_outcomes env sg ps t)) n = stored_status t n"
  by (simp add: stored_status_def)

lemma upsert_outcome_ok:
  "upsert_outcome env sg p t = (Inr u, t') \<Longrightarrow>
     stored_outcome t' n q =
       (if n = sg_id sg \<and> q = po_provider p then Some (po_status p, po_error p, po_attempts p)
        else stored_outcome t n q)"
  by (auto simp: upsert_outcome_def stored_outcome_def map_of_update split: option.splits)

lemma upsert_outcomes_ok:
  "upsert_outcomes env sg ps t = (Inr u, t') \<Longrightarrow> distinct (map po_provider ps) \<Longrightarrow>
     (\<forall>p \<in> set ps. stored_outcome t' (sg_id sg) (po_provider p) = Some (po_status p, po_error p, po_attempts p)) \<and>
     (\<forall>q. q \<notin> po_provider ` set ps \<longrightarrow> stored_outcome t' (sg_id sg) q = stored_outcome t (sg_id sg) q)"
proof (induction ps arbitrary: t)
  case (Cons p ps)
  then obtain u1 t1 where p: "upsert_outcome env sg p t = (Inr u1, t1)"
    and ps: "upsert_outcomes env sg ps t1 = (Inr u, t')"
    by (auto split: prod.splits sum.splits)
  from Cons.IH [OF ps] Cons.prems(2) upsert_outcome_ok [OF p] show ?case by auto
qed simp

lemma insert_row_outcomes:
  "insert_row env sg r oc t = (v, t') \<Longrightarrow> tb_deliveries t' = tb_deliveries t"
  using insert_row_cases [of env sg r oc t v t'] by (auto split: sum.splits)

lemma sqlite_complete_ok:
  assumes "sqlite_complete env sg r t = (Inr u, t')"
  obtains u1 t1 where "insert_row env sg r (Some keep_new_outcome) t = (Inr u1, t1)"
    and "upsert_outcomes env sg (dr_deliveries r) t1 = (Inr u, t')"
  using assms by (auto simp: sqlite_complete_def split: prod.splits sum.splits)

interpretation sqlite: signal_sink "sqlite_record env" "sqlite_complete env" "sqlite_outcome env"
  stored_status stored_outcome
proof unfold_locales
  fix sg :: signal and s and e and n and r and o' and p
  show "fst (sqlite_record env sg s) = Inr () \<Longrightarrow>
      stored_status (snd (sqlite_record env sg s)) (sg_id sg) = Some (Pending, None, None)"
    using insert_row_stored [of env sg pending_result None s] unfolding sqlite_record_def
    by (cases "insert_row env sg pending_result None s") (auto simp: pending_result_def)
  show "fst (sqlite_record env sg s) = Inl e \<Longrightarrow> snd (sqlite_record env sg s) = s"
    using insert_row_cases [of env sg pending_result None s] unfolding sqlite_record_def
    by (cases "insert_row env sg pending_result None s") auto
  show "n \<noteq> sg_id sg \<Longrightarrow> stored_status (snd (sqlite_record env sg s)) n = stored_status s n"
    using insert_row_frame [of env sg pending_result None s] unfolding sqlite_record_def
    by (cases "insert_row env sg pending_result None s") auto
  show "stored_status (snd (sqlite_outcome env sg p s)) n = stored_status s n"
    by (simp add: sqlite_outcome_def stored_status_def)
  show "n \<noteq> sg_id sg \<Longrightarrow> stored_status (snd (sqlite_complete env sg r s)) n = stored_status s n"
    using insert_row_frame [of env sg r "Some keep_new_outcome" s]
    by (auto simp: sqlite_complete_def split: prod.splits sum.splits)
  assume "fst (sqlite_complete env sg r s) = Inr ()"
  then obtain t' where c: "sqlite_complete env sg r s = (Inr (), t')" by (metis surjective_pairing)
  then obtain u1 t1 where i: "insert_row env sg r (Some keep_new_outcome) s = (Inr u1, t1)"
    and u: "upsert_outcomes env sg (dr_deliveries r) t1 = (Inr (), t')" by (rule sqlite_complete_ok)
  have "tb_signals t' = tb_signals t1" using upsert_outcomes_signals [of env sg "dr_deliveries r" t1] u by simp
  then show "stored_status (snd (sqlite_complete env sg r s)) (sg_id sg) = Some (dr_status r, dr_provider r, dr_error r)"
    using insert_row_stored [OF i] c by (simp add: stored_status_def)
  show "o' \<in> set (dr_deliveries r) \<Longrightarrow> distinct (map po_provider (dr_deliveries r)) \<Longrightarrow>
      stored_outcome (snd (sqlite_complete env sg r s)) (sg_id sg) (po_provider o') =
        Some (po_status o', po_error o', po_attempts o')"
    using upsert_outcomes_ok [OF u] c by simp
qed

lemma sqlite_complete_works:
  assumes "se_payload env sg \<noteq> None" "se_insert_fault env sg = None" "\<And>p. se_outcome_fault env sg p = None"
  shows "fst (sqlite_complete env sg r t) = Inr ()"
proof -
  have "fst (insert_row env sg r (Some keep_new_outcome) t) = Inr ()"
    using assms(1,2) by (auto simp: insert_row_def Let_def split: option.splits)
  moreover have "fst (upsert_outcomes env sg ps t) = Inr ()" for ps t
    using assms(3) by (induction ps arbitrary: t) (simp_all add: upsert_outcome_def)
  ultimately show ?thesis by (auto simp: sqlite_complete_def split: prod.splits)
qed

end
