(* ===== verification/Engine.thy ===== *)
theory Engine
  imports Sinks
begin

text \<open>
  The delivery engine of \<^verbatim>\<open>crates/core/src/lib.rs\<close>: \<open>Tracker\<close>, \<open>deliver_chain\<close>, \<open>deliver\<close> and
  \<open>summarize\<close>. A target's chain of providers is a small machine that runs from one await to the
  next; \<open>deliver\<close> polls the chains of all targets, so an execution is a schedule, the list of the
  chains in the order they are resumed. A timeout ends the schedule early.
\<close>

subsection \<open>The tracker\<close>

record 's tracker =
  tk_signal :: signal
  tk_outcomes :: "provider_outcome list"
  tk_prior_refs :: "(string \<times> string) list"
  tk_refs :: "(string \<times> string) list"
  tk_sink :: 's

definition new_tracker :: "signal \<Rightarrow> 's \<Rightarrow> (string \<times> string) list \<Rightarrow> 's tracker" where
  "new_tracker sg s prior = \<lparr>tk_signal = sg, tk_outcomes = [], tk_prior_refs = prior, tk_refs = [], tk_sink = s\<rparr>"

definition keep_ref :: "string \<Rightarrow> string \<Rightarrow> 's tracker \<Rightarrow> 's tracker" where
  "keep_ref p alert_ref tk = tk\<lparr>tk_refs := AList.update p alert_ref (tk_refs tk)\<rparr>"

fun put_outcome :: "provider_outcome \<Rightarrow> provider_outcome list \<Rightarrow> provider_outcome list" where
  "put_outcome o' [] = [o']"
| "put_outcome o' (x # xs) = (if po_provider x = po_provider o' then o' # xs else x # put_outcome o' xs)"

text \<open>A sink that fails to store the outcome is logged; the outcome counts all the same.\<close>

definition report :: "'s sink \<Rightarrow> provider_outcome \<Rightarrow> 's tracker \<Rightarrow> 's tracker" where
  "report sk o' tk = tk\<lparr>tk_sink := snd (sk_outcome sk (tk_signal tk) o' (tk_sink tk)),
     tk_outcomes := put_outcome o' (tk_outcomes tk)\<rparr>"

subsection \<open>One chain\<close>

definition MAX_RETRY_ATTEMPTS :: nat where "MAX_RETRY_ATTEMPTS = 3"

definition INITIAL_BACKOFF_MS :: nat where "INITIAL_BACKOFF_MS = 200"

definition backoff_ms :: "nat \<Rightarrow> nat" where
  "backoff_ms attempt = INITIAL_BACKOFF_MS * 2 ^ attempt"

text \<open>
  Where a chain is: about to try the providers of a list, waiting for the answer to an attempt, or
  sleeping after an attempt that failed.
\<close>

datatype chain_pos =
    Trying "string list"
  | Sending string "string list" nat
  | Sleeping string "string list" nat
  | Finished

type_synonym providers = "(string \<times> provider) list"

fun chain_step :: "'s sink \<Rightarrow> providers \<Rightarrow> chain_pos \<times> 's tracker \<Rightarrow> chain_pos \<times> 's tracker" where
  "chain_step sk ps (Trying [], tk) = (Finished, tk)"
| "chain_step sk ps (Trying (n # ns), tk) =
     (case map_of ps n of
        None \<Rightarrow> (Trying ns, tk)
      | Some _ \<Rightarrow>
          (Sending n ns 1,
           report sk \<lparr>po_provider = n, po_status = Pending, po_error = None, po_attempts = 0\<rparr> tk))"
| "chain_step sk ps (Sending n ns attempt, tk) =
     (case map_of ps n of
        None \<Rightarrow> (Trying ns, tk)
      | Some p \<Rightarrow>
          (case pv_send_with_ref p (tk_signal tk) (map_of (tk_prior_refs tk) n) attempt of
             Inr alert_ref \<Rightarrow>
               (let tk1 = (case alert_ref of Some r \<Rightarrow> keep_ref n r tk | None \<Rightarrow> tk) in
                (Finished, report sk
                   \<lparr>po_provider = n, po_status = Delivered, po_error = None, po_attempts = attempt\<rparr> tk1))
           | Inl e \<Rightarrow>
               (if attempt < MAX_RETRY_ATTEMPTS then (Sleeping n ns attempt, tk)
                else (Trying ns, report sk
                   \<lparr>po_provider = n, po_status = Failed, po_error = Some (error_display e),
                    po_attempts = MAX_RETRY_ATTEMPTS\<rparr> tk))))"
| "chain_step sk ps (Sleeping n ns attempt, tk) = (Sending n ns (Suc attempt), tk)"
| "chain_step sk ps (Finished, tk) = (Finished, tk)"

subsection \<open>All targets at once\<close>

definition poll :: "'s sink \<Rightarrow> providers \<Rightarrow> nat \<Rightarrow> chain_pos list \<times> 's tracker \<Rightarrow> chain_pos list \<times> 's tracker" where
  "poll sk ps i = (\<lambda>(cs, tk).
     if i < length cs then (let (c, tk') = chain_step sk ps (cs ! i, tk) in (cs[i := c], tk'))
     else (cs, tk))"

fun run_schedule :: "'s sink \<Rightarrow> providers \<Rightarrow> nat list \<Rightarrow> chain_pos list \<times> 's tracker \<Rightarrow> chain_pos list \<times> 's tracker" where
  "run_schedule sk ps [] st = st"
| "run_schedule sk ps (i # is) st = run_schedule sk ps is (poll sk ps i st)"

definition start_chains :: "delivery_plan \<Rightarrow> chain_pos list" where
  "start_chains p = map Trying (targets p)"

definition all_finished :: "chain_pos list \<Rightarrow> bool" where
  "all_finished cs \<longleftrightarrow> (\<forall>c \<in> set cs. c = Finished)"

subsection \<open>The result\<close>

definition find_outcome :: "provider_outcome list \<Rightarrow> string \<Rightarrow> provider_outcome option" where
  "find_outcome outs n = find (\<lambda>x. po_provider x = n) outs"

definition cut_pending :: "string option \<Rightarrow> provider_outcome \<Rightarrow> provider_outcome" where
  "cut_pending cut_off x = (case cut_off of
      None \<Rightarrow> x
    | Some msg \<Rightarrow> (if po_status x = Pending then x\<lparr>po_status := Failed, po_error := Some msg\<rparr> else x))"

definition tried :: "provider_outcome list \<Rightarrow> string option \<Rightarrow> string list \<Rightarrow> provider_outcome list" where
  "tried outs cut_off chain = map (cut_pending cut_off) (List.map_filter (find_outcome outs) chain)"

record summary_acc =
  sa_deliveries :: "provider_outcome list"
  sa_delivered :: "string list"
  sa_errors :: "string list"
  sa_attempts :: nat

definition summarize_target :: "nat \<Rightarrow> provider_outcome list \<Rightarrow> summary_acc \<Rightarrow> summary_acc" where
  "summarize_target ntargets ts a =
     (let a1 =
        (if ts = [] then a\<lparr>sa_errors := sa_errors a @ [''no provider delivered successfully'']\<rparr>
         else
           (let x = last ts in
            if po_status x = Delivered
            then a\<lparr>sa_delivered := sa_delivered a @ [po_provider x],
                   sa_attempts := max (sa_attempts a) (po_attempts x)\<rparr>
            else
              (let error = unwrap_or (status_display (po_status x)) (po_error x);
                   errors = sa_errors a @ [po_provider x @ '': '' @ error]
               in a\<lparr>sa_errors := (if ntargets = 1 then [error] else errors),
                    sa_attempts := max (sa_attempts a) (po_attempts x)\<rparr>)))
      in a1\<lparr>sa_deliveries := sa_deliveries a1 @ ts\<rparr>)"

definition empty_summary :: summary_acc where
  "empty_summary = \<lparr>sa_deliveries = [], sa_delivered = [], sa_errors = [], sa_attempts = 0\<rparr>"

definition summary_of :: "delivery_plan \<Rightarrow> provider_outcome list list \<Rightarrow> delivery_result" where
  "summary_of p tss =
     (let a = foldl (\<lambda>a ts. summarize_target (length (targets p)) ts a) empty_summary tss;
          (status, errors) =
            (if targets p = [] \<and> grouped p \<noteq> [] then (Grouped, sa_errors a)
             else if targets p = [] then (Skipped, suppressed p)
             else if length (sa_delivered a) = length (targets p) then (Delivered, sa_errors a)
             else if sa_delivered a = [] then (Failed, sa_errors a)
             else (Partial, sa_errors a))
      in \<lparr>dr_status = status,
          dr_provider = (if sa_delivered a \<noteq> [] then Some (join '','' (sa_delivered a)) else None),
          dr_error = (if errors \<noteq> [] then Some (join ''; '' errors) else None),
          dr_attempts = sa_attempts a,
          dr_deliveries = sa_deliveries a,
          dr_suppressed = suppressed p,
          dr_grouped = map snd (grouped p)\<rparr>)"

definition summarize :: "delivery_plan \<Rightarrow> provider_outcome list \<Rightarrow> string option \<Rightarrow> delivery_result" where
  "summarize p outs cut_off = summary_of p (map (tried outs cut_off) (targets p))"

text \<open>
  \<open>deliver\<close> under a schedule that finishes every chain, and \<open>deliver_within\<close>, the same with the
  timeout of \<open>send\<close>: when the schedule ends before the chains do, what was tried so far is summed
  up with the timeout's message.
\<close>

definition deliver :: "'s sink \<Rightarrow> providers \<Rightarrow> delivery_plan \<Rightarrow> nat list \<Rightarrow> 's tracker \<Rightarrow>
    (delivery_result \<times> 's tracker) option" where
  "deliver sk ps p schedule tk =
     (let (cs, tk') = run_schedule sk ps schedule (start_chains p, tk) in
      if all_finished cs then Some (summarize p (tk_outcomes tk') None, tk') else None)"

definition deliver_within :: "'s sink \<Rightarrow> providers \<Rightarrow> delivery_plan \<Rightarrow> nat \<Rightarrow> nat list \<Rightarrow> 's tracker \<Rightarrow>
    delivery_result \<times> 's tracker" where
  "deliver_within sk ps p timeout_ms schedule tk =
     (let (cs, tk') = run_schedule sk ps schedule (start_chains p, tk) in
      (if all_finished cs then summarize p (tk_outcomes tk') None
       else summarize p (tk_outcomes tk') (Some (''timed out after '' @ debug_duration timeout_ms)),
       tk'))"

subsection \<open>Where a chain can be\<close>

text \<open>The answer of provider \<open>n\<close> to attempt \<open>k\<close> at this signal, and the outcome it leads to.\<close>

definition answer :: "providers \<Rightarrow> signal \<Rightarrow> (string \<times> string) list \<Rightarrow> string \<Rightarrow> nat \<Rightarrow> (signal_error, string option) res" where
  "answer ps sg prior n k = (case map_of ps n of
      None \<Rightarrow> Inl (Internal [])
    | Some p \<Rightarrow> pv_send_with_ref p sg (map_of prior n) k)"

definition known :: "providers \<Rightarrow> string \<Rightarrow> bool" where
  "known ps n = (map_of ps n \<noteq> None)"

definition provider_final :: "(string \<Rightarrow> nat \<Rightarrow> (signal_error, string option) res) \<Rightarrow> string \<Rightarrow> provider_outcome" where
  "provider_final ans n =
     (case find (\<lambda>k. is_ok (ans n k)) [1, 2, 3] of
        Some k \<Rightarrow> \<lparr>po_provider = n, po_status = Delivered, po_error = None, po_attempts = k\<rparr>
      | None \<Rightarrow> \<lparr>po_provider = n, po_status = Failed,
          po_error = (case ans n 3 of Inl e \<Rightarrow> Some (error_display e) | Inr _ \<Rightarrow> None), po_attempts = 3\<rparr>)"

text \<open>The outcomes of a chain left to itself: known providers in order, up to the first success.\<close>

fun chain_outcomes :: "providers \<Rightarrow> (string \<Rightarrow> nat \<Rightarrow> (signal_error, string option) res) \<Rightarrow> string list \<Rightarrow> provider_outcome list" where
  "chain_outcomes ps ans [] = []"
| "chain_outcomes ps ans (n # ns) =
     (if \<not> known ps n then chain_outcomes ps ans ns
      else if po_status (provider_final ans n) = Delivered then [provider_final ans n]
      else provider_final ans n # chain_outcomes ps ans ns)"

type_synonym lookup = "string \<Rightarrow> provider_outcome option"

definition untouched :: "string list \<Rightarrow> lookup \<Rightarrow> bool" where
  "untouched ns m \<longleftrightarrow> (\<forall>n \<in> set ns. m n = None)"

definition given_up :: "providers \<Rightarrow> (string \<Rightarrow> nat \<Rightarrow> (signal_error, string option) res) \<Rightarrow> string list \<Rightarrow> lookup \<Rightarrow> bool" where
  "given_up ps ans ns m \<longleftrightarrow> (\<forall>n \<in> set ns.
     if known ps n then m n = Some (provider_final ans n) \<and> po_status (provider_final ans n) = Failed
     else m n = None)"

definition errs_before :: "(nat \<Rightarrow> (signal_error, string option) res) \<Rightarrow> nat \<Rightarrow> bool" where
  "errs_before a k \<longleftrightarrow> (\<forall>j. 1 \<le> j \<and> j < k \<longrightarrow> \<not> is_ok (a j))"

definition pending_outcome :: "string \<Rightarrow> provider_outcome" where
  "pending_outcome n = \<lparr>po_provider = n, po_status = Pending, po_error = None, po_attempts = 0\<rparr>"

inductive chain_at :: "providers \<Rightarrow> (string \<Rightarrow> nat \<Rightarrow> (signal_error, string option) res) \<Rightarrow>
    string list \<Rightarrow> chain_pos \<Rightarrow> lookup \<Rightarrow> bool"
  for ps ans where
  at_trying: "given_up ps ans before m \<Longrightarrow> untouched rest m \<Longrightarrow>
     chain_at ps ans (before @ rest) (Trying rest) m"
| at_sending: "given_up ps ans before m \<Longrightarrow> untouched rest m \<Longrightarrow> known ps n \<Longrightarrow>
     m n = Some (pending_outcome n) \<Longrightarrow> 1 \<le> k \<Longrightarrow> k \<le> 3 \<Longrightarrow> errs_before (ans n) k \<Longrightarrow>
     chain_at ps ans (before @ n # rest) (Sending n rest k) m"
| at_sleeping: "given_up ps ans before m \<Longrightarrow> untouched rest m \<Longrightarrow> known ps n \<Longrightarrow>
     m n = Some (pending_outcome n) \<Longrightarrow> 1 \<le> k \<Longrightarrow> k < 3 \<Longrightarrow> errs_before (ans n) (Suc k) \<Longrightarrow>
     chain_at ps ans (before @ n # rest) (Sleeping n rest k) m"
| at_end: "given_up ps ans names m \<Longrightarrow> chain_at ps ans names Finished m"
| at_delivered: "given_up ps ans before m \<Longrightarrow> untouched rest m \<Longrightarrow> known ps n \<Longrightarrow>
     m n = Some (provider_final ans n) \<Longrightarrow> po_status (provider_final ans n) = Delivered \<Longrightarrow>
     chain_at ps ans (before @ n # rest) Finished m"

inductive_cases chain_at_Trying: "chain_at ps ans names (Trying rest) m"
inductive_cases chain_at_Sending: "chain_at ps ans names (Sending n rest k) m"
inductive_cases chain_at_Sleeping: "chain_at ps ans names (Sleeping n rest k) m"
inductive_cases chain_at_Finished: "chain_at ps ans names Finished m"

subsection \<open>Lookups in the tracker\<close>

lemma find_put_outcome:
  "find_outcome (put_outcome o' outs) n = (if n = po_provider o' then Some o' else find_outcome outs n)"
  by (induction outs) (auto simp: find_outcome_def)

lemma distinct_put_outcome [simp]:
  "distinct (map po_provider (put_outcome o' outs)) \<longleftrightarrow> distinct (map po_provider outs)"
proof -
  have "set (map po_provider (put_outcome o' outs)) = insert (po_provider o') (set (map po_provider outs))" for outs
    by (induction outs) auto
  then show ?thesis by (induction outs) auto
qed

lemma report_simps [simp]:
  "tk_outcomes (report sk o' tk) = put_outcome o' (tk_outcomes tk)"
  "tk_signal (report sk o' tk) = tk_signal tk" "tk_prior_refs (report sk o' tk) = tk_prior_refs tk"
  "tk_refs (report sk o' tk) = tk_refs tk"
  by (simp_all add: report_def)

lemma keep_ref_simps [simp]:
  "tk_outcomes (keep_ref n r tk) = tk_outcomes tk" "tk_signal (keep_ref n r tk) = tk_signal tk"
  "tk_prior_refs (keep_ref n r tk) = tk_prior_refs tk"
  "tk_refs (keep_ref n r tk) = AList.update n r (tk_refs tk)"
  by (simp_all add: keep_ref_def)

lemma chain_step_const:
  "chain_step sk ps (c, tk) = (c', tk') \<Longrightarrow> tk_signal tk' = tk_signal tk \<and> tk_prior_refs tk' = tk_prior_refs tk"
  by (cases "(sk, ps, c, tk)" rule: chain_step.cases)
     (auto simp: Let_def split: option.splits sum.splits if_splits)

lemma given_up_cong:
  "\<forall>n \<in> set ns. m' n = m n \<Longrightarrow> given_up ps ans ns m' = given_up ps ans ns m"
  by (simp add: given_up_def)

lemma untouched_cong: "\<forall>n \<in> set ns. m' n = m n \<Longrightarrow> untouched ns m' = untouched ns m"
  by (simp add: untouched_def)

lemma chain_at_cong:
  assumes "chain_at ps ans names c m" and "\<forall>n \<in> set names. m' n = m n"
  shows "chain_at ps ans names c m'"
  using assms
proof (induction rule: chain_at.induct)
  case (at_trying before m rest)
  then show ?case by (intro chain_at.at_trying) (auto simp: given_up_def untouched_def)
next
  case (at_sending before m rest n k)
  then show ?case by (intro chain_at.at_sending) (auto simp: given_up_def untouched_def)
next
  case (at_sleeping before m rest n k)
  then show ?case by (intro chain_at.at_sleeping) (auto simp: given_up_def untouched_def)
next
  case (at_end names m)
  then show ?case by (intro chain_at.at_end) (auto simp: given_up_def)
next
  case (at_delivered before m rest n)
  then show ?case by (intro chain_at.at_delivered) (auto simp: given_up_def untouched_def)
qed

lemma attempt_cases: "1 \<le> k \<Longrightarrow> k \<le> 3 \<Longrightarrow> k = 1 \<or> k = 2 \<or> k = (3::nat)"
  by arith

lemma errs_before_one [simp]: "errs_before a (Suc 0)"
  by (auto simp: errs_before_def)

lemma errs_before_Suc: "1 \<le> k \<Longrightarrow> errs_before a (Suc k) \<longleftrightarrow> errs_before a k \<and> \<not> is_ok (a k)"
  by (auto simp: errs_before_def less_Suc_eq)

lemma errs_before_simps [simp]:
  "errs_before a 1"
  "errs_before a 2 \<longleftrightarrow> \<not> is_ok (a 1)"
  "errs_before a 3 \<longleftrightarrow> \<not> is_ok (a 1) \<and> \<not> is_ok (a 2)"
  using errs_before_Suc [of 1 a] errs_before_Suc [of 2 a] by (simp_all add: numeral_2_eq_2 numeral_3_eq_3)

lemma provider_final_delivered:
  assumes "1 \<le> k" "k \<le> 3" "errs_before (ans n) k" "is_ok (ans n k)"
  shows "provider_final ans n = \<lparr>po_provider = n, po_status = Delivered, po_error = None, po_attempts = k\<rparr>"
  using attempt_cases [OF assms(1,2)] assms(3,4) by (auto simp: provider_final_def)

lemma provider_final_failed:
  assumes "errs_before (ans n) 3" "ans n 3 = Inl e"
  shows "provider_final ans n =
    \<lparr>po_provider = n, po_status = Failed, po_error = Some (error_display e), po_attempts = 3\<rparr>"
  using assms by (simp add: provider_final_def)

lemma provider_final_simps [simp]:
  "po_provider (provider_final ans n) = n"
  "po_status (provider_final ans n) = Delivered \<or> po_status (provider_final ans n) = Failed"
  by (simp_all add: provider_final_def split: option.splits)

definition moves :: "string list \<Rightarrow> lookup \<Rightarrow> lookup \<Rightarrow> bool" where
  "moves names m m' \<longleftrightarrow> (\<forall>n. n \<notin> set names \<longrightarrow> m' n = m n)"

lemma step_Trying:
  assumes at: "chain_at ps ans names (Trying rest) m" and d: "distinct names"
    and st: "chain_step sk ps (Trying rest, tk) = (c', tk')" and m: "m = find_outcome (tk_outcomes tk)"
  shows "chain_at ps ans names c' (find_outcome (tk_outcomes tk')) \<and> moves names m (find_outcome (tk_outcomes tk'))"
proof -
  from at obtain before where names: "names = before @ rest"
    and g: "given_up ps ans before m" and u: "untouched rest m" by (auto elim: chain_at_Trying)
  show ?thesis
  proof (cases rest)
    case Nil
    with st m names g show ?thesis by (auto intro: chain_at.at_end simp: moves_def)
  next
    case (Cons n ns)
    show ?thesis
    proof (cases "map_of ps n")
      case None
      with g u Cons have "given_up ps ans (before @ [n]) m" "untouched ns m"
        by (auto simp: given_up_def untouched_def known_def)
      from chain_at.at_trying [OF this] None st m names Cons show ?thesis by (auto simp: moves_def)
    next
      case (Some p)
      let ?m = "m(n \<mapsto> pending_outcome n)"
      have tk': "tk_outcomes tk' = put_outcome (pending_outcome n) (tk_outcomes tk)" and c': "c' = Sending n ns 1"
        using st Cons Some by (auto simp: pending_outcome_def)
      then have m': "find_outcome (tk_outcomes tk') = ?m"
        by (auto simp: find_put_outcome m pending_outcome_def)
      from d names Cons have "given_up ps ans before ?m = given_up ps ans before m"
        "untouched ns ?m = untouched ns m"
        by (auto intro!: given_up_cong untouched_cong)
      with g u Cons Some have "chain_at ps ans (before @ n # ns) (Sending n ns 1) ?m"
        by (intro chain_at.at_sending) (auto simp: known_def untouched_def)
      then show ?thesis using names Cons m' c' by (auto simp: moves_def)
    qed
  qed
qed

lemma step_Sending:
  assumes at: "chain_at ps ans names (Sending n rest k) m" and d: "distinct names"
    and st: "chain_step sk ps (Sending n rest k, tk) = (c', tk')" and m: "m = find_outcome (tk_outcomes tk)"
    and ans: "ans = answer ps (tk_signal tk) (tk_prior_refs tk)"
  shows "chain_at ps ans names c' (find_outcome (tk_outcomes tk')) \<and> moves names m (find_outcome (tk_outcomes tk'))"
proof -
  from at obtain before where names: "names = before @ n # rest"
    and g: "given_up ps ans before m" and u: "untouched rest m" and kn: "known ps n"
    and pend: "m n = Some (pending_outcome n)" and k: "1 \<le> k" "k \<le> 3" and errs: "errs_before (ans n) k"
    by (auto elim: chain_at_Sending)
  from kn obtain p where p: "map_of ps n = Some p" by (auto simp: known_def)
  have a: "ans n k = pv_send_with_ref p (tk_signal tk) (map_of (tk_prior_refs tk) n) k"
    by (simp add: ans answer_def p)
  have upd: "given_up ps ans before (m(n \<mapsto> x))" "untouched rest (m(n \<mapsto> x))" for x
    using d names g u given_up_cong [of before "m(n \<mapsto> x)" m] untouched_cong [of rest "m(n \<mapsto> x)" m] by auto
  show ?thesis
  proof (cases "ans n k")
    case (Inr r)
    have f: "provider_final ans n = \<lparr>po_provider = n, po_status = Delivered, po_error = None, po_attempts = k\<rparr>"
      using Inr by (intro provider_final_delivered k errs) simp
    have c': "c' = Finished" and tk': "tk_outcomes tk' = put_outcome (provider_final ans n) (tk_outcomes tk)"
      using st a [symmetric] Inr p by (auto simp: f Let_def split: option.splits)
    have m': "find_outcome (tk_outcomes tk') = m(n \<mapsto> provider_final ans n)"
      by (auto simp: tk' find_put_outcome m)
    have "chain_at ps ans (before @ n # rest) Finished (m(n \<mapsto> provider_final ans n))"
      using upd kn f by (intro chain_at.at_delivered) auto
    then show ?thesis using names m' c' by (auto simp: moves_def)
  next
    case (Inl e)
    show ?thesis
    proof (cases "k < 3")
      case True
      have "errs_before (ans n) (Suc k)" using errs Inl k by (simp add: errs_before_Suc)
      with True g u kn pend k names have "chain_at ps ans names (Sleeping n rest k) m"
        by (auto intro: chain_at.at_sleeping)
      moreover have "c' = Sleeping n rest k" "tk' = tk"
        using st a [symmetric] Inl p True by (auto simp: MAX_RETRY_ATTEMPTS_def)
      ultimately show ?thesis by (simp add: m moves_def)
    next
      case False
      with k have k3: "k = 3" by simp
      have f: "provider_final ans n =
          \<lparr>po_provider = n, po_status = Failed, po_error = Some (error_display e), po_attempts = 3\<rparr>"
        using Inl errs k3 by (intro provider_final_failed) auto
      have c': "c' = Trying rest" and tk': "tk_outcomes tk' = put_outcome (provider_final ans n) (tk_outcomes tk)"
        using st a [symmetric] Inl p k3 by (auto simp: f MAX_RETRY_ATTEMPTS_def)
      have m': "find_outcome (tk_outcomes tk') = m(n \<mapsto> provider_final ans n)"
        by (auto simp: tk' find_put_outcome m)
      have "given_up ps ans (before @ [n]) (m(n \<mapsto> provider_final ans n))"
        using upd(1) [of "provider_final ans n"] kn f by (auto simp: given_up_def)
      from chain_at.at_trying [OF this upd(2)] show ?thesis using names m' c' by (auto simp: moves_def)
    qed
  qed
qed

lemma chain_step_at:
  assumes at: "chain_at ps ans names c m" and d: "distinct names"
    and st: "chain_step sk ps (c, tk) = (c', tk')" and m: "m = find_outcome (tk_outcomes tk)"
    and ans: "ans = answer ps (tk_signal tk) (tk_prior_refs tk)"
  shows "chain_at ps ans names c' (find_outcome (tk_outcomes tk')) \<and> moves names m (find_outcome (tk_outcomes tk'))"
proof (cases c)
  case (Trying rest)
  with step_Trying [of ps ans names rest m sk tk c' tk'] assms show ?thesis by simp
next
  case (Sending n rest k)
  with step_Sending [of ps ans names n rest k m sk tk c' tk'] assms show ?thesis by simp
next
  case (Sleeping n rest k)
  from at Sleeping obtain before where "names = before @ n # rest" "given_up ps ans before m"
    "untouched rest m" "known ps n" "m n = Some (pending_outcome n)" "1 \<le> k" "k < 3"
    "errs_before (ans n) (Suc k)" by (auto elim: chain_at_Sleeping)
  then have "chain_at ps ans names (Sending n rest (Suc k)) m" using chain_at.at_sending by fastforce
  with st m Sleeping show ?thesis by (auto simp: moves_def)
next
  case Finished
  with assms show ?thesis by (auto simp: moves_def)
qed

subsection \<open>All chains\<close>

definition chains_ok :: "providers \<Rightarrow> (string \<Rightarrow> nat \<Rightarrow> (signal_error, string option) res) \<Rightarrow>
    string list list \<Rightarrow> chain_pos list \<times> 's tracker \<Rightarrow> bool" where
  "chains_ok ps ans ts = (\<lambda>(cs, tk).
     ans = answer ps (tk_signal tk) (tk_prior_refs tk) \<and> length cs = length ts \<and>
     (\<forall>i < length ts. chain_at ps ans (ts ! i) (cs ! i) (find_outcome (tk_outcomes tk))))"

lemma distinct_concat_nth:
  "distinct (concat ts) \<Longrightarrow> i < length ts \<Longrightarrow> j < length ts \<Longrightarrow> i \<noteq> j \<Longrightarrow> set (ts ! i) \<inter> set (ts ! j) = {}"
proof (induction ts arbitrary: i j)
  case (Cons t ts)
  have other: "set t \<inter> set (ts ! k) = {}" if "k < length ts" for k
    using Cons.prems(1) that by fastforce
  show ?case
    using Cons.prems Cons.IH [of "i - 1" "j - 1"] other [of "j - 1"] other [of "i - 1"]
    by (cases i; cases j) auto
qed simp

lemma distinct_concat_nth_self: "distinct (concat ts) \<Longrightarrow> i < length ts \<Longrightarrow> distinct (ts ! i)"
  by (induction ts arbitrary: i) (auto simp: nth_Cons')

lemma chains_ok_start:
  assumes "tk_outcomes tk = []" and "ans = answer ps (tk_signal tk) (tk_prior_refs tk)"
  shows "chains_ok ps ans (targets p) (start_chains p, tk)"
proof -
  have "chain_at ps ans names (Trying names) (find_outcome (tk_outcomes tk))" for names
    using chain_at.at_trying [of ps ans "[]" "find_outcome (tk_outcomes tk)" names] assms(1)
    by (simp add: given_up_def untouched_def find_outcome_def)
  with assms(2) show ?thesis by (simp add: chains_ok_def start_chains_def)
qed

lemma chains_ok_poll:
  assumes d: "distinct (concat ts)" and ok: "chains_ok ps ans ts st"
  shows "chains_ok ps ans ts (poll sk ps i st)"
proof -
  obtain cs tk where st: "st = (cs, tk)" by (cases st)
  obtain c tk' where step: "chain_step sk ps (cs ! i, tk) = (c, tk')" by fastforce
  show ?thesis
  proof (cases "i < length cs")
    case False
    with ok show ?thesis by (simp add: poll_def st)
  next
    case True
    let ?m = "find_outcome (tk_outcomes tk)" and ?m' = "find_outcome (tk_outcomes tk')"
    from ok st have ans: "ans = answer ps (tk_signal tk) (tk_prior_refs tk)" and len: "length cs = length ts"
      and at: "\<And>j. j < length ts \<Longrightarrow> chain_at ps ans (ts ! j) (cs ! j) ?m" by (auto simp: chains_ok_def)
    note i = True [unfolded len]
    from chain_step_at [OF at [OF i] distinct_concat_nth_self [OF d i] step refl ans]
    have at_i: "chain_at ps ans (ts ! i) c ?m'" and mv: "moves (ts ! i) ?m ?m'" by auto
    have "chain_at ps ans (ts ! j) (cs ! j) ?m'" if j: "j < length ts" "j \<noteq> i" for j
    proof (rule chain_at_cong [OF at [OF j(1)]])
      show "\<forall>n \<in> set (ts ! j). ?m' n = ?m n"
        using mv distinct_concat_nth [OF d i j(1)] j(2) by (auto simp: moves_def)
    qed
    with at_i have "\<forall>j < length ts. chain_at ps ans (ts ! j) (cs[i := c] ! j) ?m'"
      using len i by (auto simp: nth_list_update)
    with ans chain_step_const [OF step] len i show ?thesis
      by (simp add: chains_ok_def poll_def st True step)
  qed
qed

lemma chains_ok_run:
  "distinct (concat ts) \<Longrightarrow> chains_ok ps ans ts st \<Longrightarrow> chains_ok ps ans ts (run_schedule sk ps is st)"
  by (induction "is" arbitrary: st) (simp_all add: chains_ok_poll)

subsection \<open>What was tried\<close>

lemma given_up_outcomes:
  assumes "given_up ps ans before m"
  shows "chain_outcomes ps ans (before @ rest) = map (provider_final ans) (filter (known ps) before) @ chain_outcomes ps ans rest"
    and "List.map_filter m before = map (provider_final ans) (filter (known ps) before)"
  using assms by (induction before) (auto simp: given_up_def List.map_filter_def split: if_splits)

lemma untouched_outcomes: "untouched rest m \<Longrightarrow> List.map_filter m rest = []"
  by (simp add: untouched_def List.map_filter_def filter_empty_conv)

lemma map_filter_append [simp]: "List.map_filter f (xs @ ys) = List.map_filter f xs @ List.map_filter f ys"
  by (simp add: List.map_filter_def)

lemma cut_pending_final [simp]: "cut_pending cut_off (provider_final ans n) = provider_final ans n"
  by (simp add: cut_pending_def provider_final_def split: option.splits)

lemma cut_pending_finals [simp]:
  "map (cut_pending cut_off) (map (provider_final ans) ns) = map (provider_final ans) ns"
  by simp

definition cut_outcome :: "string option \<Rightarrow> string \<Rightarrow> provider_outcome" where
  "cut_outcome cut_off n = cut_pending cut_off (pending_outcome n)"

text \<open>
  At any moment a chain has tried a prefix of the outcomes it would have if left to itself, and
  possibly the next provider is pending.
\<close>

definition prefix_tried :: "string option \<Rightarrow> provider_outcome list \<Rightarrow> provider_outcome list \<Rightarrow> bool" where
  "prefix_tried cut_off full ts \<longleftrightarrow>
     (\<exists>rest. full = ts @ rest) \<or>
     (\<exists>done' x rest. full = done' @ x # rest \<and> ts = done' @ [cut_outcome cut_off (po_provider x)])"

lemma chain_outcomes_known:
  "known ps n \<Longrightarrow> \<exists>rest'. chain_outcomes ps ans (n # rest) = provider_final ans n # rest'"
  by simp

lemma tried_prefix:
  assumes "chain_at ps ans names c (find_outcome outs)"
  shows "prefix_tried cut_off (chain_outcomes ps ans names) (tried outs cut_off names) \<and>
     (c = Finished \<longrightarrow> tried outs cut_off names = chain_outcomes ps ans names)"
  using assms
proof (cases rule: chain_at.cases)
  case (at_trying before rest)
  then show ?thesis
    using given_up_outcomes [OF at_trying(3)] untouched_outcomes [OF at_trying(4)]
    by (simp add: tried_def prefix_tried_def)
next
  case (at_sending before rest n k)
  obtain rest' where "chain_outcomes ps ans (n # rest) = provider_final ans n # rest'"
    using chain_outcomes_known [OF at_sending(5)] by blast
  then have "chain_outcomes ps ans names = map (provider_final ans) (filter (known ps) before) @ provider_final ans n # rest'"
    using given_up_outcomes(1) [OF at_sending(3)] at_sending(1) by simp
  moreover have "tried outs cut_off names = map (provider_final ans) (filter (known ps) before) @
      [cut_outcome cut_off (po_provider (provider_final ans n))]"
    using given_up_outcomes(2) [OF at_sending(3)] untouched_outcomes [OF at_sending(4)] at_sending(1,6)
    by (simp add: tried_def cut_outcome_def List.map_filter_def)
  ultimately show ?thesis using at_sending(2) unfolding prefix_tried_def by blast
next
  case (at_sleeping before rest n k)
  obtain rest' where "chain_outcomes ps ans (n # rest) = provider_final ans n # rest'"
    using chain_outcomes_known [OF at_sleeping(5)] by blast
  then have "chain_outcomes ps ans names = map (provider_final ans) (filter (known ps) before) @ provider_final ans n # rest'"
    using given_up_outcomes(1) [OF at_sleeping(3)] at_sleeping(1) by simp
  moreover have "tried outs cut_off names = map (provider_final ans) (filter (known ps) before) @
      [cut_outcome cut_off (po_provider (provider_final ans n))]"
    using given_up_outcomes(2) [OF at_sleeping(3)] untouched_outcomes [OF at_sleeping(4)] at_sleeping(1,6)
    by (simp add: tried_def cut_outcome_def List.map_filter_def)
  ultimately show ?thesis using at_sleeping(2) unfolding prefix_tried_def by blast
next
  case at_end
  then have "tried outs cut_off names = chain_outcomes ps ans names"
    using given_up_outcomes(1) [OF at_end(2), of "[]"] given_up_outcomes(2) [OF at_end(2)] by (simp add: tried_def)
  then show ?thesis by (simp add: prefix_tried_def)
next
  case (at_delivered before rest n)
  have "tried outs cut_off names = chain_outcomes ps ans names"
    using given_up_outcomes [OF at_delivered(3)] untouched_outcomes [OF at_delivered(4)] at_delivered(1,5,6,7)
    by (simp add: tried_def List.map_filter_def)
  then show ?thesis by (simp add: prefix_tried_def)
qed

subsection \<open>What the summary says\<close>

definition reached :: "provider_outcome list \<Rightarrow> bool" where
  "reached ts \<longleftrightarrow> ts \<noteq> [] \<and> po_status (last ts) = Delivered"

lemma summarize_target_simps:
  "sa_deliveries (summarize_target k ts a) = sa_deliveries a @ ts"
  "sa_delivered (summarize_target k ts a) = sa_delivered a @ (if reached ts then [po_provider (last ts)] else [])"
  by (simp_all add: summarize_target_def reached_def Let_def)

lemma summary_fold:
  "sa_deliveries (foldl (\<lambda>a ts. summarize_target k ts a) a tss) = sa_deliveries a @ concat tss \<and>
   sa_delivered (foldl (\<lambda>a ts. summarize_target k ts a) a tss) =
     sa_delivered a @ map (\<lambda>ts. po_provider (last ts)) (filter reached tss)"
  by (induction tss arbitrary: a) (simp_all add: summarize_target_simps)

lemma empty_summary_simps [simp]:
  "sa_deliveries empty_summary = []" "sa_delivered empty_summary = []"
  by (simp_all add: empty_summary_def)

lemma length_filter_all: "length (filter P xs) = length xs \<longleftrightarrow> (\<forall>x \<in> set xs. P x)"
proof (induction xs)
  case (Cons x xs)
  have "length (filter P xs) \<noteq> Suc (length xs)" using length_filter_le [of P xs] by linarith
  with Cons show ?case by auto
qed simp

lemma summary_of_simps:
  "dr_deliveries (summary_of p tss) = concat tss"
  "dr_suppressed (summary_of p tss) = suppressed p" "dr_grouped (summary_of p tss) = map snd (grouped p)"
  "dr_provider (summary_of p tss) = (if filter reached tss \<noteq> []
     then Some (join '','' (map (\<lambda>ts. po_provider (last ts)) (filter reached tss))) else None)"
  using summary_fold [of "length (targets p)" empty_summary tss]
  by (simp_all add: summary_of_def Let_def case_prod_beta)

lemma summary_of_status:
  assumes "length tss = length (targets p)"
  shows "dr_status (summary_of p tss) =
     (if targets p = [] then (if grouped p \<noteq> [] then Grouped else Skipped)
      else if \<forall>ts \<in> set tss. reached ts then Delivered
      else if \<exists>ts \<in> set tss. reached ts then Partial else Failed)"
proof -
  let ?a = "foldl (\<lambda>a ts. summarize_target (length (targets p)) ts a) empty_summary tss"
  have del: "sa_delivered ?a = map (\<lambda>ts. po_provider (last ts)) (filter reached tss)"
    using summary_fold [of "length (targets p)" empty_summary tss] by simp
  have all: "length (sa_delivered ?a) = length (targets p) \<longleftrightarrow> (\<forall>ts \<in> set tss. reached ts)"
  proof -
    have "length (sa_delivered ?a) = length (filter reached tss)" by (simp only: del length_map)
    then show ?thesis using assms length_filter_all [of reached tss] by simp
  qed
  have none: "sa_delivered ?a = [] \<longleftrightarrow> \<not> (\<exists>ts \<in> set tss. reached ts)"
    by (simp add: del filter_empty_conv)
  show ?thesis by (simp add: summary_of_def Let_def case_prod_beta all none)
qed

lemma reached_chain_outcomes:
  "reached (chain_outcomes ps ans names) \<longleftrightarrow>
     (\<exists>n \<in> set names. known ps n \<and> po_status (provider_final ans n) = Delivered)"
proof (induction names)
  case (Cons n ns)
  then show ?case by (cases "chain_outcomes ps ans ns") (auto simp: reached_def)
qed (simp add: reached_def)

lemma provider_final_status:
  "po_status (provider_final ans n) = Delivered \<longleftrightarrow> (\<exists>k \<in> {1, 2, 3}. is_ok (ans n k))"
  by (auto simp: provider_final_def)

lemma deliver_result:
  assumes d: "distinct (plan_providers p)" and fresh: "tk_outcomes tk = []"
    and del: "deliver sk ps p schedule tk = Some (r, tk')"
  shows "r = summary_of p (map (chain_outcomes ps (answer ps (tk_signal tk) (tk_prior_refs tk))) (targets p))"
proof -
  let ?ans = "answer ps (tk_signal tk) (tk_prior_refs tk)"
  obtain cs tk1 where run: "run_schedule sk ps schedule (start_chains p, tk) = (cs, tk1)" by fastforce
  from d have "distinct (concat (targets p))" by (simp add: plan_providers_def)
  from chains_ok_run [OF this chains_ok_start [of tk ?ans ps p, OF fresh refl], of sk schedule]
  have ok: "length cs = length (targets p)"
    "\<And>i. i < length (targets p) \<Longrightarrow> chain_at ps ?ans (targets p ! i) (cs ! i) (find_outcome (tk_outcomes tk1))"
    by (auto simp: run chains_ok_def)
  from del run have fin: "all_finished cs" and r: "r = summarize p (tk_outcomes tk1) None"
    by (auto simp: deliver_def split: if_splits)
  have "tried (tk_outcomes tk1) None (targets p ! i) = chain_outcomes ps ?ans (targets p ! i)"
    if "i < length (targets p)" for i
    using tried_prefix [OF ok(2) [OF that]] fin that ok(1) by (auto simp: all_finished_def)
  then have "map (tried (tk_outcomes tk1) None) (targets p) = map (chain_outcomes ps ?ans) (targets p)"
    by (simp add: list_eq_iff_nth_eq)
  with r show ?thesis by (simp add: summarize_def)
qed

lemma deliver_within_tried:
  assumes d: "distinct (plan_providers p)" and fresh: "tk_outcomes tk = []"
  obtains tss cut_off where "fst (deliver_within sk ps p ms schedule tk) = summary_of p tss"
    and "cut_off = Some (''timed out after '' @ debug_duration ms)"
    and "list_all2 (prefix_tried cut_off)
      (map (chain_outcomes ps (answer ps (tk_signal tk) (tk_prior_refs tk))) (targets p)) tss"
proof -
  let ?ans = "answer ps (tk_signal tk) (tk_prior_refs tk)"
  let ?cut = "Some (''timed out after '' @ debug_duration ms)"
  obtain cs tk1 where run: "run_schedule sk ps schedule (start_chains p, tk) = (cs, tk1)" by fastforce
  from d have "distinct (concat (targets p))" by (simp add: plan_providers_def)
  from chains_ok_run [OF this chains_ok_start [of tk ?ans ps p, OF fresh refl], of sk schedule]
  have ok: "length cs = length (targets p)"
    "\<And>i. i < length (targets p) \<Longrightarrow> chain_at ps ?ans (targets p ! i) (cs ! i) (find_outcome (tk_outcomes tk1))"
    by (auto simp: run chains_ok_def)
  define cut where "cut = (if all_finished cs then None else ?cut)"
  have pre: "prefix_tried ?cut (chain_outcomes ps ?ans (targets p ! i)) (tried (tk_outcomes tk1) cut (targets p ! i))"
    if i: "i < length (targets p)" for i
  proof (cases "all_finished cs")
    case True
    with i ok(1) have "cs ! i = Finished" by (simp add: all_finished_def)
    with tried_prefix [OF ok(2) [OF i], of cut] show ?thesis by (simp add: prefix_tried_def)
  next
    case False
    with tried_prefix [OF ok(2) [OF i], of ?cut] show ?thesis by (simp add: cut_def)
  qed
  show thesis
  proof (rule that)
    show "fst (deliver_within sk ps p ms schedule tk) = summary_of p (map (tried (tk_outcomes tk1) cut) (targets p))"
      by (simp add: deliver_within_def run summarize_def cut_def)
    show "list_all2 (prefix_tried ?cut) (map (chain_outcomes ps ?ans) (targets p)) (map (tried (tk_outcomes tk1) cut) (targets p))"
      using pre by (simp add: list_all2_conv_all_nth)
  qed (rule refl)
qed

subsection \<open>Termination\<close>

text \<open>The number of polls a chain still needs.\<close>

fun polls_left :: "chain_pos \<Rightarrow> nat" where
  "polls_left (Trying ns) = 6 * length ns + 1"
| "polls_left (Sending n ns k) = 6 * length ns + 2 + 2 * (3 - k)"
| "polls_left (Sleeping n ns k) = 6 * length ns + 1 + (if k < 3 then 2 * (3 - k) else 2)"
| "polls_left Finished = 0"

lemma chain_step_polls_left:
  "chain_step sk ps (c, tk) = (c', tk') \<Longrightarrow> polls_left c' \<le> polls_left c - 1"
  by (cases "(sk, ps, c, tk)" rule: chain_step.cases)
     (auto simp: Let_def MAX_RETRY_ATTEMPTS_def split: option.splits sum.splits if_splits)

lemma polls_left_0 [simp]: "polls_left c = 0 \<longleftrightarrow> c = Finished"
  by (cases c) auto

lemma poll_polls_left:
  "poll sk ps j (cs, tk) = (cs', tk') \<Longrightarrow> length cs' = length cs \<and>
     (i < length cs \<longrightarrow> polls_left (cs' ! i) \<le> polls_left (cs ! i) - (if i = j then 1 else 0))"
  using chain_step_polls_left [of sk ps "cs ! j" tk]
  by (auto simp: poll_def Let_def nth_list_update split: prod.splits if_splits)

lemma run_polls_left:
  "run_schedule sk ps schedule (cs, tk) = (cs', tk') \<Longrightarrow> length cs' = length cs \<and>
     (\<forall>i < length cs. polls_left (cs' ! i) \<le> polls_left (cs ! i) - count_list schedule i)"
proof (induction schedule arbitrary: cs tk)
  case (Cons j js)
  obtain cs1 tk1 where p: "poll sk ps j (cs, tk) = (cs1, tk1)" by fastforce
  with Cons have run: "run_schedule sk ps js (cs1, tk1) = (cs', tk')" by simp
  have one: "length cs1 = length cs"
    "\<And>i. i < length cs \<Longrightarrow> polls_left (cs1 ! i) \<le> polls_left (cs ! i) - (if i = j then 1 else 0)"
    using poll_polls_left [OF p] by auto
  from Cons.IH [OF run] one(1) have len: "length cs' = length cs"
    and more: "\<And>i. i < length cs \<Longrightarrow> polls_left (cs' ! i) \<le> polls_left (cs1 ! i) - count_list js i" by auto
  have "polls_left (cs' ! i) \<le> polls_left (cs ! i) - count_list (j # js) i" if "i < length cs" for i
    using one(2) [OF that] more [OF that] by (auto split: if_splits)
  with len show ?case by blast
qed simp

lemma run_finishes:
  assumes "\<forall>i < length (targets p). 6 * length (targets p ! i) + 1 \<le> count_list schedule i"
    and "run_schedule sk ps schedule (start_chains p, tk) = (cs, tk')"
  shows "all_finished cs"
proof -
  from run_polls_left [OF assms(2)] have len: "length cs = length (targets p)"
    and left: "\<And>i. i < length (targets p) \<Longrightarrow> polls_left (cs ! i) \<le> polls_left (start_chains p ! i) - count_list schedule i"
    by (auto simp: start_chains_def)
  have "cs ! i = Finished" if i: "i < length cs" for i
  proof -
    have "polls_left (start_chains p ! i) = 6 * length (targets p ! i) + 1"
      using i len by (simp add: start_chains_def)
    with left [of i] assms(1) i len have "polls_left (cs ! i) = 0" by fastforce
    then show ?thesis by simp
  qed
  then show ?thesis by (auto simp: all_finished_def in_set_conv_nth)
qed

subsection \<open>A sample delivery\<close>

text \<open>A provider that accepts from its third attempt on, one that never does, one that always does.\<close>

definition sample_providers :: providers where
  "sample_providers =
     [(''slack'', plain_provider ''slack'' (\<lambda>_ k. if k < 3 then Err (Delivery_Error ''status 500'') else Ok ())),
      (''webhook'', plain_provider ''webhook'' (\<lambda>_ _. Err (Delivery_Error ''refused''))),
      (''console'', plain_provider ''console'' (\<lambda>_ _. Ok ()))]"

definition sample_plan :: delivery_plan where
  "sample_plan = \<lparr>targets = [[''slack''], [''webhook'', ''console'']], suppressed = [], grouped = []\<rparr>"

definition quiet_sink :: "unit sink" where
  "quiet_sink = \<lparr>sk_record = (\<lambda>_ s. (Ok (), s)), sk_complete = (\<lambda>_ _ s. (Ok (), s)),
     sk_outcome = (\<lambda>_ _ s. (Ok (), s))\<rparr>"

definition sample_schedule :: "nat list" where
  "sample_schedule = concat (replicate 13 [0, 1])"

lemma sample_plan_distinct: "distinct (plan_providers sample_plan)"
  by (simp add: sample_plan_def plan_providers_def)

lemma sample_schedule_counts: "count_list sample_schedule 0 = 13 \<and> count_list sample_schedule 1 = 13"
proof -
  have "count_list (concat (replicate n [0, 1 :: nat])) 0 = n \<and> count_list (concat (replicate n [0, 1 :: nat])) 1 = n"
    for n :: nat by (induction n) auto
  then show ?thesis by (simp add: sample_schedule_def)
qed

lemma sample_schedule_enough:
  "\<forall>i < length (targets sample_plan). 6 * length (targets sample_plan ! i) + 1 \<le> count_list sample_schedule i"
proof (intro allI impI)
  fix i assume "i < length (targets sample_plan)"
  then have "i = 0 \<or> i = 1" by (auto simp: sample_plan_def)
  then show "6 * length (targets sample_plan ! i) + 1 \<le> count_list sample_schedule i"
    using sample_schedule_counts by (auto simp: sample_plan_def)
qed

lemma sample_delivery:
  "\<exists>r tk'. deliver quiet_sink sample_providers sample_plan sample_schedule (new_tracker sample_signal () []) = Some (r, tk')"
proof -
  obtain cs tk' where run: "run_schedule quiet_sink sample_providers sample_schedule
      (start_chains sample_plan, new_tracker sample_signal () []) = (cs, tk')" by fastforce
  from run_finishes [OF sample_schedule_enough run] show ?thesis by (simp add: deliver_def run)
qed

subsection \<open>Properties\<close>

text \<open>
  C7. However the deliveries of the targets interleave, the result is the same: the summary of what each
  target's chain does left to itself, provided no provider is in the plan twice (as in every plan
  of the routing).
\<close>

theorem delivery_independent_of_schedule:
  assumes "distinct (plan_providers p)"
    and "deliver sk ps p schedule (new_tracker sg s prior) = Some (r, tk')"
  shows "r = summary_of p (map (chain_outcomes ps (answer ps sg prior)) (targets p))"
  using deliver_result [OF assms(1) _ assms(2)] by (simp add: new_tracker_def)

theorem delivery_independent_of_schedule_witness:
  "\<exists>r tk'. deliver quiet_sink sample_providers sample_plan sample_schedule (new_tracker sample_signal () []) = Some (r, tk') \<and>
     r = summary_of sample_plan (map (chain_outcomes sample_providers (answer sample_providers sample_signal [])) (targets sample_plan))"
proof -
  obtain r tk' where d: "deliver quiet_sink sample_providers sample_plan sample_schedule (new_tracker sample_signal () []) = Some (r, tk')"
    using sample_delivery by (elim exE)
  from delivery_independent_of_schedule [OF sample_plan_distinct d] d show ?thesis by (intro exI conjI)
qed

text \<open>
  Delivery ends: a schedule that polls every chain at least six times per provider plus once lets
  all of them finish, whatever the providers answer, so \<open>deliver\<close> returns a result.
\<close>

theorem delivery_terminates:
  assumes "\<forall>i < length (targets p). 6 * length (targets p ! i) + 1 \<le> count_list schedule i"
  shows "deliver sk ps p schedule tk \<noteq> None"
proof -
  obtain cs tk' where run: "run_schedule sk ps schedule (start_chains p, tk) = (cs, tk')" by fastforce
  from run_finishes [OF assms run] show ?thesis by (simp add: deliver_def run)
qed

theorem delivery_terminates_witness:
  "deliver quiet_sink sample_providers sample_plan sample_schedule (new_tracker sample_signal () []) \<noteq> None"
  by (rule delivery_terminates [OF sample_schedule_enough])

text \<open>
  C3. The status tells the truth: with at least one target, a finished delivery is \<open>Delivered\<close> exactly
  when in every target some configured provider accepted the signal within three attempts, \<open>Failed\<close>
  exactly when that happened in none, and \<open>Partial\<close> otherwise.
\<close>

theorem delivery_status_truthful:
  assumes "distinct (plan_providers p)" and "targets p \<noteq> []"
    and "deliver sk ps p schedule (new_tracker sg s prior) = Some (r, tk')"
  shows "dr_status r =
     (let accepted = (\<lambda>chain. \<exists>n \<in> set chain. known ps n \<and> (\<exists>k \<in> {1, 2, 3}. is_ok (answer ps sg prior n k)))
      in if \<forall>chain \<in> set (targets p). accepted chain then Delivered
         else if \<exists>chain \<in> set (targets p). accepted chain then Partial else Failed)"
proof -
  let ?out = "chain_outcomes ps (answer ps sg prior)"
  from deliver_result [OF assms(1) _ assms(3)] have r: "r = summary_of p (map ?out (targets p))"
    by (simp add: new_tracker_def)
  have reach: "reached (?out chain) \<longleftrightarrow>
      (\<exists>n \<in> set chain. known ps n \<and> (\<exists>k \<in> {1, 2, 3}. is_ok (answer ps sg prior n k)))" for chain
    unfolding reached_chain_outcomes provider_final_status ..
  show ?thesis
    using assms(2) unfolding r Let_def reach [symmetric]
    by (simp add: summary_of_status)
qed

lemma prefix_tried_mem:
  assumes "prefix_tried (Some msg) (chain_outcomes ps ans names) ts" and "x \<in> set ts"
  shows "\<exists>y \<in> set (chain_outcomes ps ans names). po_provider x = po_provider y \<and>
     (x = y \<or> po_status x = Failed \<and> po_error x = Some msg)"
  using assms by (auto simp: prefix_tried_def cut_outcome_def cut_pending_def pending_outcome_def)

lemma chain_outcomes_mem:
  "x \<in> set (chain_outcomes ps ans names) \<Longrightarrow> \<exists>n \<in> set names. known ps n \<and> x = provider_final ans n"
  by (induction names) (auto split: if_splits)

lemma provider_final_sound:
  "po_status (provider_final ans n) = Delivered \<and> po_attempts (provider_final ans n) \<in> {1, 2, 3} \<and>
     is_ok (ans n (po_attempts (provider_final ans n))) \<and>
     errs_before (ans n) (po_attempts (provider_final ans n)) \<or>
   po_status (provider_final ans n) = Failed \<and> errs_before (ans n) 4"
proof -
  have "errs_before (ans n) 4 \<longleftrightarrow> errs_before (ans n) 3 \<and> \<not> is_ok (ans n 3)"
    using errs_before_Suc [of 3 "ans n"] by simp
  then show ?thesis by (auto simp: provider_final_def)
qed

theorem delivery_status_truthful_witness:
  "\<exists>r tk'. deliver quiet_sink sample_providers sample_plan sample_schedule (new_tracker sample_signal () []) = Some (r, tk') \<and>
     dr_status r = Delivered"
proof -
  obtain r tk' where d: "deliver quiet_sink sample_providers sample_plan sample_schedule (new_tracker sample_signal () []) = Some (r, tk')"
    using sample_delivery by (elim exE)
  have "targets sample_plan \<noteq> []" by (simp add: sample_plan_def)
  from delivery_status_truthful [OF sample_plan_distinct this d] have "dr_status r = Delivered"
    by (simp add: sample_plan_def sample_providers_def known_def answer_def plain_provider_def default_send_with_ref_def)
  with d show ?thesis by (intro exI conjI)
qed

text \<open>
  C23. A delivery cut short by its timeout reports nothing that did not happen: no provider is left
  \<open>pending\<close> in the result, every \<open>delivered\<close> one accepted the signal at the attempt the result
  names (at most the third) after refusing the earlier ones.
\<close>

theorem cut_off_delivery_sound:
  assumes "distinct (plan_providers p)" and "x \<in> set (dr_deliveries
     (fst (deliver_within sk ps p ms schedule (new_tracker sg s prior))))"
  shows "po_provider x \<in> set (plan_providers p) \<and>
     (po_status x = Delivered \<and> po_attempts x \<in> {1, 2, 3} \<and>
        is_ok (answer ps sg prior (po_provider x) (po_attempts x)) \<and>
        errs_before (answer ps sg prior (po_provider x)) (po_attempts x) \<or>
      po_status x = Failed \<and>
        (errs_before (answer ps sg prior (po_provider x)) 4 \<or>
         po_error x = Some (''timed out after '' @ debug_duration ms)))"
proof -
  let ?ans = "answer ps sg prior"
  obtain tss cut_off where r: "fst (deliver_within sk ps p ms schedule (new_tracker sg s prior)) = summary_of p tss"
    and cut: "cut_off = Some (''timed out after '' @ debug_duration ms)"
    and pre: "list_all2 (prefix_tried cut_off) (map (chain_outcomes ps ?ans) (targets p)) tss"
    using deliver_within_tried [OF assms(1), of "new_tracker sg s prior" sk ps ms schedule]
    by (auto simp: new_tracker_def)
  from assms(2) r obtain ts where ts: "ts \<in> set tss" "x \<in> set ts" by (auto simp: summary_of_simps)
  from ts(1) obtain i where i: "i < length tss" "ts = tss ! i" by (auto simp: in_set_conv_nth)
  define chain where "chain = targets p ! i"
  from pre i have chain: "chain \<in> set (targets p)" and pt: "prefix_tried cut_off (chain_outcomes ps ?ans chain) ts"
    by (simp_all add: list_all2_conv_all_nth chain_def)
  from prefix_tried_mem [OF pt [unfolded cut] ts(2)] obtain y where y: "y \<in> set (chain_outcomes ps ?ans chain)"
    "po_provider x = po_provider y"
    "x = y \<or> po_status x = Failed \<and> po_error x = Some (''timed out after '' @ debug_duration ms)" by blast
  from chain_outcomes_mem [OF y(1)] obtain n where n: "n \<in> set chain" "y = provider_final ?ans n" by blast
  have "po_provider x \<in> set (plan_providers p)"
    using n y(2) chain by (auto simp: plan_providers_def)
  with y(2,3) n(2) provider_final_sound [of ?ans n] show ?thesis by auto
qed

theorem cut_off_delivery_sound_witness:
  "\<exists>x \<in> set (dr_deliveries (fst (deliver_within quiet_sink sample_providers sample_plan 1500 [0, 0, 1] (new_tracker sample_signal () [])))).
     po_provider x = ''slack'' \<and> po_status x = Failed"
proof -
  let ?r = "fst (deliver_within quiet_sink sample_providers sample_plan 1500 [0, 0, 1] (new_tracker sample_signal () []))"
  let ?x = "\<lparr>po_provider = ''slack'', po_status = Failed, po_error = Some (''timed out after '' @ debug_duration 1500), po_attempts = 0\<rparr>"
  have x: "?x \<in> set (dr_deliveries ?r)"
    by (simp add: deliver_within_def sample_plan_def start_chains_def poll_def sample_providers_def
        new_tracker_def plain_provider_def default_send_with_ref_def MAX_RETRY_ATTEMPTS_def all_finished_def
        summarize_def summary_of_simps tried_def List.map_filter_def report_def find_outcome_def cut_pending_def)
  from cut_off_delivery_sound [OF sample_plan_distinct this]
  have "po_status ?x = Failed" by simp
  with x show ?thesis by force
qed

end
