(* ===== verification/Lifecycle.thy ===== *)
theory Lifecycle
  imports Engine
begin

text \<open>
  \<^verbatim>\<open>crates/core/src/lifecycle.rs\<close>: the table \<open>alerts\<close>, which remembers for each dedup key the
  providers holding its alert, one row per (key, provider) in \<open>rowid\<close> order. Reading the table may
  fail (then nothing is open) and so may writing a row (then it is logged and skipped).
\<close>

record alert_row =
  al_state :: string
  al_ref :: "string option"
  al_title :: string
  al_signal_id :: string
  al_updated_at :: string

type_synonym alert_book = "((string \<times> string) \<times> alert_row) list"

record open_alert =
  oa_provider :: string
  oa_ref :: "string option"
  oa_title :: string

definition open_alerts :: "bool \<Rightarrow> alert_book \<Rightarrow> string \<Rightarrow> open_alert list" where
  "open_alerts read_fault book key =
     (if read_fault then []
      else map (\<lambda>((_, p), a). \<lparr>oa_provider = p, oa_ref = al_ref a, oa_title = al_title a\<rparr>)
             (filter (\<lambda>((k, _), a). k = key \<and> al_state a \<noteq> ''resolved'') book))"

fun state_after :: "action \<Rightarrow> string" where
  "state_after Trigger = ''open''"
| "state_after Acknowledge = ''acknowledged''"
| "state_after Resolve = ''resolved''"

text \<open>\<open>UPDATE ... WHERE\<close>: nothing happens to a row that is not there.\<close>

definition set_state :: "string \<times> string \<Rightarrow> string \<Rightarrow> string \<Rightarrow> alert_book \<Rightarrow> alert_book" where
  "set_state k st now book = (case map_of book k of
      None \<Rightarrow> book
    | Some a \<Rightarrow> AList.update k (a\<lparr>al_state := st, al_updated_at := now\<rparr>) book)"

definition record_outcome :: "string \<Rightarrow> signal \<Rightarrow> (string \<times> string) list \<Rightarrow> string \<Rightarrow> provider_outcome \<Rightarrow>
    alert_book \<Rightarrow> alert_book" where
  "record_outcome key sg refs now x book =
     (case sg_action sg of
        Trigger \<Rightarrow> AList.update (key, po_provider x)
          \<lparr>al_state = ''open'', al_ref = map_of refs (po_provider x), al_title = sg_title sg,
           al_signal_id = sg_id sg, al_updated_at = now\<rparr> book
      | _ \<Rightarrow> set_state (key, po_provider x) (state_after (sg_action sg)) now book)"

definition record_alerts :: "(provider_outcome \<Rightarrow> bool) \<Rightarrow> string \<Rightarrow> signal \<Rightarrow> delivery_result \<Rightarrow>
    (string \<times> string) list \<Rightarrow> alert_book \<Rightarrow> alert_book" where
  "record_alerts write_fault now sg r refs book =
     (case sg_dedup_key sg of
        None \<Rightarrow> book
      | Some key \<Rightarrow>
          fold (\<lambda>x book. if write_fault x then book else record_outcome key sg refs now x book)
            (filter (\<lambda>x. po_status x = Delivered) (dr_deliveries r)) book)"

subsection \<open>What the table says about a provider\<close>

definition state_of :: "alert_book \<Rightarrow> string \<Rightarrow> string \<Rightarrow> string option" where
  "state_of book key p = map_option al_state (map_of book (key, p))"

definition holds_alert :: "alert_book \<Rightarrow> string \<Rightarrow> string \<Rightarrow> bool" where
  "holds_alert book key p \<longleftrightarrow> (\<exists>st. state_of book key p = Some st \<and> st \<noteq> ''resolved'')"

text \<open>The state machine of one (key, provider) pair that the code implements.\<close>

fun next_state :: "action \<Rightarrow> string option \<Rightarrow> string option" where
  "next_state Trigger st = Some ''open''"
| "next_state Acknowledge st = (if st = None then None else Some ''acknowledged'')"
| "next_state Resolve st = (if st = None then None else Some ''resolved'')"

lemma state_after_not_resolved: "state_after a = ''resolved'' \<longleftrightarrow> a = Resolve"
  by (cases a) simp_all

lemma record_outcome_state:
  "state_of (record_outcome key sg refs now x book) k p =
     (if k = key \<and> p = po_provider x then next_state (sg_action sg) (state_of book k p)
      else state_of book k p)"
  by (cases "sg_action sg")
     (auto simp: record_outcome_def set_state_def state_of_def map_of_update split: option.splits)

lemma wf_record_outcome: "wf_alist book \<Longrightarrow> wf_alist (record_outcome key sg refs now x book)"
  by (simp add: record_outcome_def set_state_def split: action.splits option.splits)

lemma next_state_idem [simp]: "next_state a (next_state a st) = next_state a st"
  by (cases a) simp_all

lemma fold_record_state:
  "state_of (fold (\<lambda>x book. if write_fault x then book else record_outcome key sg refs now x book) xs book) k p =
     (if k = key \<and> p \<in> po_provider ` {x \<in> set xs. \<not> write_fault x}
      then next_state (sg_action sg) (state_of book k p) else state_of book k p)"
  by (induction xs arbitrary: book) (auto simp: record_outcome_state)

lemma wf_record_alerts: "wf_alist book \<Longrightarrow> wf_alist (record_alerts write_fault now sg r refs book)"
proof -
  have "wf_alist book \<Longrightarrow>
      wf_alist (fold (\<lambda>x book. if write_fault x then book else record_outcome key sg refs now x book) xs book)"
    for key xs and book :: alert_book
    by (induction xs arbitrary: book) (simp_all add: wf_record_outcome)
  then show "wf_alist book \<Longrightarrow> wf_alist (record_alerts write_fault now sg r refs book)"
    by (simp add: record_alerts_def split: option.splits)
qed

lemma record_alerts_state:
  assumes "sg_dedup_key sg = Some key"
  shows "state_of (record_alerts write_fault now sg r refs book) k p =
     (if k = key \<and> (\<exists>x \<in> set (dr_deliveries r). po_status x = Delivered \<and> po_provider x = p \<and> \<not> write_fault x)
      then next_state (sg_action sg) (state_of book k p) else state_of book k p)"
  using assms by (auto simp: record_alerts_def fold_record_state)

lemma open_alerts_providers:
  assumes "wf_alist book"
  shows "oa_provider ` set (open_alerts False book key) = {p. holds_alert book key p}"
proof -
  have "p \<in> oa_provider ` set (open_alerts False book key) \<longleftrightarrow>
      (\<exists>a. ((key, p), a) \<in> set book \<and> al_state a \<noteq> ''resolved'')" for p
    by (force simp: open_alerts_def)
  moreover have "(\<exists>a. ((key, p), a) \<in> set book \<and> al_state a \<noteq> ''resolved'') \<longleftrightarrow> holds_alert book key p" for p
    using wf_alist_map_of [OF assms, of "(key, p)"] by (auto simp: holds_alert_def state_of_def)
  ultimately show ?thesis by blast
qed

lemma distinct_open_alerts:
  assumes "wf_alist book"
  shows "distinct (map oa_provider (open_alerts rf book key))"
proof -
  have "distinct (map (snd \<circ> fst) (filter (\<lambda>((k, _), a). k = key \<and> al_state a \<noteq> ''resolved'') book))"
    using assms
  proof (induction book)
    case (Cons x book)
    obtain k p a where "x = ((k, p), a)" by (cases x) auto
    with Cons show ?case by (auto simp: wf_alist_def image_iff)
  qed simp
  then show ?thesis by (simp add: open_alerts_def o_def case_prod_beta)
qed

subsection \<open>Properties\<close>

text \<open>
  Recording a delivery moves exactly the alerts of the providers that delivered: a trigger opens
  them, an acknowledge or resolve moves those already known to that state and creates none, and
  every other key and provider keeps its state. A write that fails leaves its provider as it was.
\<close>

theorem record_moves_delivered_alerts:
  assumes "sg_dedup_key sg = Some key"
  shows "state_of (record_alerts write_fault now sg r refs book) k p =
     (if k = key \<and> (\<exists>x \<in> set (dr_deliveries r). po_status x = Delivered \<and> po_provider x = p \<and> \<not> write_fault x)
      then next_state (sg_action sg) (state_of book k p) else state_of book k p)"
  by (rule record_alerts_state [OF assms])

definition sample_book :: alert_book where
  "sample_book = [((''etl.load'', ''slack''),
     \<lparr>al_state = ''resolved'', al_ref = None, al_title = ''Load failed'', al_signal_id = ''id-0'', al_updated_at = ''t''\<rparr>)]"

definition slack_delivered :: delivery_result where
  "slack_delivered = pending_result\<lparr>dr_deliveries :=
     [\<lparr>po_provider = ''slack'', po_status = Delivered, po_error = None, po_attempts = 1\<rparr>]\<rparr>"

theorem record_moves_delivered_alerts_witness:
  "state_of (record_alerts (\<lambda>_. False) ''t'' (sample_signal\<lparr>sg_dedup_key := Some ''etl.load''\<rparr>) slack_delivered [] sample_book)
     ''etl.load'' ''slack'' = Some ''open''"
proof -
  have "sg_dedup_key (sample_signal\<lparr>sg_dedup_key := Some ''etl.load''\<rparr>) = Some ''etl.load''" by simp
  from record_moves_delivered_alerts [OF this] show ?thesis
    by (simp add: slack_delivered_def sample_signal_def default_input_def)
qed

text \<open>
  After a resolve was delivered, the providers that delivered it no longer hold the alert and every
  other provider holds what it held; after a trigger all that delivered hold it. So the next
  acknowledge or resolve goes exactly to the providers that still have the alert open.
\<close>

theorem open_alerts_after_record:
  assumes "wf_alist book" and "sg_dedup_key sg = Some key" and "sg_action sg \<noteq> Acknowledge"
  shows "oa_provider ` set (open_alerts False (record_alerts (\<lambda>_. False) now sg r refs book) key) =
     (let delivered = po_provider ` {x \<in> set (dr_deliveries r). po_status x = Delivered};
          before = oa_provider ` set (open_alerts False book key)
      in if sg_action sg = Trigger then before \<union> delivered else before - delivered)"
proof -
  let ?book = "record_alerts (\<lambda>_. False) now sg r refs book"
  define D where "D = po_provider ` {x \<in> set (dr_deliveries r). po_status x = Delivered}"
  have D: "(\<exists>x \<in> set (dr_deliveries r). po_status x = Delivered \<and> po_provider x = p) \<longleftrightarrow> p \<in> D" for p
    by (auto simp: D_def)
  have h: "holds_alert ?book key p \<longleftrightarrow>
     (if sg_action sg = Trigger then holds_alert book key p \<or> p \<in> D else holds_alert book key p \<and> p \<notin> D)" for p
    using assms(3) unfolding holds_alert_def record_alerts_state [OF assms(2)] D simp_thms
    by (cases "sg_action sg") simp_all
  show ?thesis
    unfolding open_alerts_providers [OF wf_record_alerts [OF assms(1)]] open_alerts_providers [OF assms(1)]
      Let_def h D_def [symmetric]
    by (cases "sg_action sg = Trigger") auto
qed

theorem open_alerts_after_record_witness:
  "oa_provider ` set (open_alerts False (record_alerts (\<lambda>_. False) ''t''
     (sample_signal\<lparr>sg_dedup_key := Some ''etl.load''\<rparr>) slack_delivered [] sample_book) ''etl.load'') = {''slack''}"
proof -
  have "wf_alist sample_book" by (simp add: sample_book_def wf_alist_def)
  moreover have "sg_dedup_key (sample_signal\<lparr>sg_dedup_key := Some ''etl.load''\<rparr>) = Some ''etl.load''" by simp
  moreover have t: "sg_action (sample_signal\<lparr>sg_dedup_key := Some ''etl.load''\<rparr>) = Trigger"
    by (simp add: sample_signal_def default_input_def)
  ultimately show ?thesis
    by (subst open_alerts_after_record) (auto simp: slack_delivered_def sample_book_def open_alerts_def)
qed

text \<open>
  C37. An acknowledge that is delivered after the alert was resolved opens it again: the update does not
  look at the row's state, so a provider whose row says \<open>resolved\<close> is listed as holding the alert.
\<close>

theorem acknowledge_reopens_resolved:
  assumes "sg_dedup_key sg = Some key" and "sg_action sg = Acknowledge" and "wf_alist book"
    and "state_of book key p = Some ''resolved''"
    and "x \<in> set (dr_deliveries r)" and "po_status x = Delivered" and "po_provider x = p"
  shows "p \<notin> oa_provider ` set (open_alerts False book key) \<and>
     p \<in> oa_provider ` set (open_alerts False (record_alerts (\<lambda>_. False) now sg r refs book) key)"
proof -
  let ?book = "record_alerts (\<lambda>_. False) now sg r refs book"
  have "\<not> holds_alert book key p" using assms(4) by (simp add: holds_alert_def)
  moreover have "state_of ?book key p = Some ''acknowledged''"
    unfolding record_alerts_state [OF assms(1)] using assms(2,4-7) by auto
  then have "holds_alert ?book key p" by (simp add: holds_alert_def)
  ultimately show ?thesis
    unfolding open_alerts_providers [OF wf_record_alerts [OF assms(3)]] open_alerts_providers [OF assms(3)] by simp
qed

theorem acknowledge_reopens_resolved_witness:
  "''slack'' \<in> oa_provider ` set (open_alerts False (record_alerts (\<lambda>_. False) ''t''
     (sample_signal\<lparr>sg_dedup_key := Some ''etl.load'', sg_action := Acknowledge\<rparr>) slack_delivered [] sample_book) ''etl.load'')"
proof -
  let ?x = "\<lparr>po_provider = ''slack'', po_status = Delivered, po_error = None, po_attempts = 1\<rparr>"
  let ?sg = "sample_signal\<lparr>sg_dedup_key := Some ''etl.load'', sg_action := Acknowledge\<rparr>"
  have "sg_dedup_key ?sg = Some ''etl.load''" "sg_action ?sg = Acknowledge" by simp_all
  moreover have "wf_alist sample_book" "state_of sample_book ''etl.load'' ''slack'' = Some ''resolved''"
    by (simp_all add: sample_book_def wf_alist_def state_of_def)
  moreover have "?x \<in> set (dr_deliveries slack_delivered)" "po_status ?x = Delivered" "po_provider ?x = ''slack''"
    by (simp_all add: slack_delivered_def)
  ultimately show ?thesis by (rule conjunct2 [OF acknowledge_reopens_resolved])
qed

end
