(* ===== verification/Client.thy ===== *)
theory Client
  imports Lifecycle Signal_Groups
begin

text \<open>
  The client of \<^verbatim>\<open>crates/core/src/lib.rs\<close>: planning a signal, sending it now or in the background,
  holding it for digests and sending those. The client's state is explicit: the sink's, the
  throttle table and the alert book (\<open>None\<close> when they could not be opened), the open groups, the
  timers started and the background tasks not yet run. What a call takes from its surroundings
  (clock, fresh ids, storage faults) is the record \<open>world\<close>.
\<close>

subsection \<open>State\<close>

record pipeline =
  pl_routes :: "route list"
  pl_providers :: providers

record world =
  w_sha :: "string \<Rightarrow> string"
  w_rkey :: "route \<Rightarrow> string"
  w_json :: json_env
  w_uid :: string
  w_now :: int
  w_now_ms :: int
  w_stamp :: string
  w_fault :: fault
  w_release_fault :: "row \<Rightarrow> bool"
  w_read_fault :: bool
  w_write_fault :: "provider_outcome \<Rightarrow> bool"

record prepared =
  pp_signal :: signal
  pp_plan :: delivery_plan
  pp_admission :: admission
  pp_prior_refs :: "(string \<times> string) list"

datatype task =
    Deliver_Task pipeline prepared
  | Group_Task closed_group

record 's client =
  cl_sink :: 's
  cl_pipeline :: pipeline
  cl_rows :: "row list option"
  cl_alerts :: "alert_book option"
  cl_groups :: groups
  cl_timers :: "(string \<times> nat \<times> window) list"
  cl_tasks :: "task list"

subsection \<open>Planning\<close>

definition plan_signal :: "world \<Rightarrow> row list option \<Rightarrow> route list \<Rightarrow> signal \<Rightarrow> delivery_plan \<times> admission \<times> row list option" where
  "plan_signal w rows_opt routes sg =
     (case rows_opt of
        Some rows \<Rightarrow>
          (let (p, rows', adm) =
             plan_with (\<lambda>r. admit (w_rkey w) (w_fault w) r sg (w_now_ms w)) routes sg (rows, [])
           in (p, adm, Some rows'))
      | None \<Rightarrow> (plan routes sg, [], None))"

definition settle :: "world \<Rightarrow> admission \<Rightarrow> delivery_result \<Rightarrow> row list option \<Rightarrow> row list option" where
  "settle w adm r rows_opt =
     (case (rows_opt, dr_status r) of
        (Some rows, Failed) \<Rightarrow> Some (release (w_release_fault w) adm rows)
      | _ \<Rightarrow> rows_opt)"

definition lifecycle_plan :: "pipeline \<Rightarrow> signal \<Rightarrow> open_alert list \<Rightarrow> delivery_plan" where
  "lifecycle_plan pl sg opn =
     (let held = map (\<lambda>a. [oa_provider a]) (filter (\<lambda>a. known (pl_providers pl) (oa_provider a)) opn);
          ts = (if held = []
                then map (\<lambda>n. [n]) (filter
                       (\<lambda>n. case map_of (pl_providers pl) n of Some p \<Rightarrow> pv_resolves_by_key p | None \<Rightarrow> False)
                       (providers_any_severity (pl_routes pl) sg))
                else held)
      in \<lparr>targets = ts,
          suppressed = (if ts = []
            then [''no open alert with dedup key '' @ unwrap_or [] (sg_dedup_key sg) @ '' to '' @
                  action_display (sg_action sg) @ '', and no route to a provider that resolves by key'']
            else []),
          grouped = []\<rparr>)"

definition prepare :: "world \<Rightarrow> pipeline \<Rightarrow> signal_input \<Rightarrow> row list option \<Rightarrow> alert_book option \<Rightarrow> prepared \<times> row list option" where
  "prepare w pl i rows_opt alerts =
     (if \<not> is_lifecycle (in_action i) then
        (let sg = from_input (w_sha w) (w_uid w) (w_now w) i;
             (p, adm, rows') = plan_signal w rows_opt (pl_routes pl) sg
         in (\<lparr>pp_signal = sg, pp_plan = p, pp_admission = adm, pp_prior_refs = []\<rparr>, rows'))
      else
        (let opn = (case alerts of
               Some book \<Rightarrow> open_alerts (w_read_fault w) book (effective_dedup_key (w_sha w) i)
             | None \<Rightarrow> []);
             i' = fill_lifecycle_defaults (case opn of [] \<Rightarrow> None | a # _ \<Rightarrow> Some (oa_title a)) i;
             sg = from_input (w_sha w) (w_uid w) (w_now w) i'
         in (\<lparr>pp_signal = sg, pp_plan = lifecycle_plan pl sg opn, pp_admission = [],
              pp_prior_refs = concat (map (\<lambda>a. case oa_ref a of None \<Rightarrow> [] | Some r \<Rightarrow> [(oa_provider a, r)]) opn)\<rparr>,
             rows_opt)))"

subsection \<open>Holding signals for digests\<close>

definition spawn_group :: "closed_group \<Rightarrow> 's client \<Rightarrow> 's client" where
  "spawn_group c cl = cl\<lparr>cl_tasks := cl_tasks cl @ [Group_Task c]\<rparr>"

definition hold_one :: "world \<Rightarrow> route list \<Rightarrow> signal \<Rightarrow> bool \<Rightarrow> nat \<times> string \<Rightarrow> admission \<times> 's client \<Rightarrow> admission \<times> 's client" where
  "hold_one w routes sg owns_row x ac =
     (let (adm, cl) = ac; i = fst x in
      if i < length routes then
        (let r = routes ! i;
             (mine, rest) = split_off (w_rkey w) r adm;
             (a, gs) = add_member (w_rkey w) (w_json w) r
                \<lparr>mb_signal = sg, mb_admission = mine, mb_owns_row = owns_row\<rparr> (cl_groups cl);
             cl' = cl\<lparr>cl_groups := gs\<rparr>
         in (rest,
             case a of
               Joined \<Rightarrow> cl'
             | Full c \<Rightarrow> spawn_group c cl'
             | Opened key seq wait \<Rightarrow> cl'\<lparr>cl_timers := cl_timers cl' @ [(key, seq, wait)]\<rparr>))
      else (adm, cl))"

definition hold :: "world \<Rightarrow> route list \<Rightarrow> delivery_plan \<Rightarrow> signal \<Rightarrow> bool \<Rightarrow> admission \<Rightarrow> 's client \<Rightarrow> admission \<times> 's client" where
  "hold w routes p sg owns_row adm cl = fold (hold_one w routes sg owns_row) (grouped p) (adm, cl)"

text \<open>The task behind a timer: when it fires, the group is sent if it is still the one it was for.\<close>

definition timer_fires :: "string \<Rightarrow> nat \<Rightarrow> 's client \<Rightarrow> 's client" where
  "timer_fires key seq cl =
     (let (c, gs) = take_group key seq (cl_groups cl);
          cl' = cl\<lparr>cl_groups := gs\<rparr>
      in case c of Some c \<Rightarrow> spawn_group c cl' | None \<Rightarrow> cl')"

subsection \<open>Sending\<close>

text \<open>A sink that fails to store the signal is logged, and delivery goes on.\<close>

definition record_signal :: "'s sink \<Rightarrow> signal \<Rightarrow> 's client \<Rightarrow> 's client" where
  "record_signal sk sg cl = cl\<lparr>cl_sink := snd (sk_record sk sg (cl_sink cl))\<rparr>"

definition complete_signal :: "'s sink \<Rightarrow> signal \<Rightarrow> delivery_result \<Rightarrow> 's client \<Rightarrow> (signal_error, unit) res \<times> 's client" where
  "complete_signal sk sg r cl =
     (let (v, s) = sk_complete sk sg r (cl_sink cl) in (v, cl\<lparr>cl_sink := s\<rparr>))"

definition settle_unsent :: "'s sink \<Rightarrow> world \<Rightarrow> pipeline \<Rightarrow> prepared \<Rightarrow> 's client \<Rightarrow> delivery_result \<times> 's client" where
  "settle_unsent sk w pl pp cl =
     (let r = summarize (pp_plan pp) [] None;
          (_, cl1) = complete_signal sk (pp_signal pp) r cl;
          (_, cl2) = hold w (pl_routes pl) (pp_plan pp) (pp_signal pp) True (pp_admission pp) cl1
      in (r, cl2))"

text \<open>After a delivery: take back the sends of a failed one, and remember who holds the alert.\<close>

definition after_delivery :: "world \<Rightarrow> prepared \<Rightarrow> admission \<Rightarrow> delivery_result \<Rightarrow> 's tracker \<Rightarrow> 's client \<Rightarrow> 's client" where
  "after_delivery w pp adm r tk cl =
     cl\<lparr>cl_sink := tk_sink tk,
        cl_rows := settle w adm r (cl_rows cl),
        cl_alerts := map_option (record_alerts (w_write_fault w) (w_stamp w) (pp_signal pp) r (tk_refs tk)) (cl_alerts cl)\<rparr>"

definition send :: "'s sink \<Rightarrow> world \<Rightarrow> nat \<Rightarrow> nat list \<Rightarrow> signal_input \<Rightarrow> 's client \<Rightarrow> (signal_error, send_report) res \<times> 's client" where
  "send sk w timeout_ms schedule i cl =
     (case validate i of
        Inl e \<Rightarrow> (Err e, cl)
      | Inr _ \<Rightarrow>
          (let pl = cl_pipeline cl;
               (pp, rows') = prepare w pl i (cl_rows cl) (cl_alerts cl);
               sg = pp_signal pp;
               cl1 = record_signal sk sg (cl\<lparr>cl_rows := rows'\<rparr>)
           in if targets (pp_plan pp) = [] then
                (let (r, cl2) = settle_unsent sk w pl pp cl1
                 in (Ok \<lparr>sr_signal_id = sg_id sg, sr_dedup_key = sg_dedup_key sg, sr_result = r\<rparr>, cl2))
              else
                (let (adm, cl2) = hold w (pl_routes pl) (pp_plan pp) sg False (pp_admission pp) cl1;
                     (r, tk) = deliver_within sk (pl_providers pl) (pp_plan pp) timeout_ms schedule
                                 (new_tracker sg (cl_sink cl2) (pp_prior_refs pp));
                     (v, cl3) = complete_signal sk sg r (after_delivery w pp adm r tk cl2)
                 in case v of
                      Inl e \<Rightarrow> (Err e, cl3)
                    | Inr _ \<Rightarrow>
                        (Ok \<lparr>sr_signal_id = sg_id sg, sr_dedup_key = sg_dedup_key sg, sr_result = r\<rparr>, cl3))))"

definition notify_sync :: "'s sink \<Rightarrow> world \<Rightarrow> nat \<Rightarrow> nat list \<Rightarrow> signal_input \<Rightarrow> 's client \<Rightarrow> (signal_error, delivery_result) res \<times> 's client" where
  "notify_sync sk w timeout_ms schedule i cl =
     (case send sk w timeout_ms schedule i cl of
        (Inl e, cl') \<Rightarrow> (Err e, cl')
      | (Inr rep, cl') \<Rightarrow> (Ok (sr_result rep), cl'))"

definition notify_async :: "'s sink \<Rightarrow> world \<Rightarrow> signal_input \<Rightarrow> 's client \<Rightarrow> 's client" where
  "notify_async sk w i cl =
     (case validate i of
        Inl e \<Rightarrow> cl
      | Inr _ \<Rightarrow>
          (let pl = cl_pipeline cl;
               (pp, rows') = prepare w pl i (cl_rows cl) (cl_alerts cl);
               cl1 = record_signal sk (pp_signal pp) (cl\<lparr>cl_rows := rows'\<rparr>)
           in if targets (pp_plan pp) = [] then snd (settle_unsent sk w pl pp cl1)
              else
                (let (adm, cl2) = hold w (pl_routes pl) (pp_plan pp) (pp_signal pp) False (pp_admission pp) cl1
                 in cl2\<lparr>cl_groups := (cl_groups cl2)\<lparr>gs_in_flight := in_flight_start (gs_in_flight (cl_groups cl2))\<rparr>,
                        cl_tasks := cl_tasks cl2 @ [Deliver_Task pl (pp\<lparr>pp_admission := adm\<rparr>)]\<rparr>)))"

subsection \<open>Background tasks\<close>

definition finish_task :: "'s client \<Rightarrow> 's client" where
  "finish_task cl = cl\<lparr>cl_groups := (cl_groups cl)\<lparr>gs_in_flight := in_flight_finish (gs_in_flight (cl_groups cl))\<rparr>\<rparr>"

text \<open>The spawned half of \<open>notify_async\<close>.\<close>

definition run_deliver_task :: "'s sink \<Rightarrow> world \<Rightarrow> nat list \<Rightarrow> pipeline \<Rightarrow> prepared \<Rightarrow> 's client \<Rightarrow> (delivery_result \<times> 's client) option" where
  "run_deliver_task sk w schedule pl pp cl =
     (case deliver sk (pl_providers pl) (pp_plan pp) schedule (new_tracker (pp_signal pp) (cl_sink cl) (pp_prior_refs pp)) of
        None \<Rightarrow> None
      | Some (r, tk) \<Rightarrow>
          (let (_, cl') = complete_signal sk (pp_signal pp) r (after_delivery w pp (pp_admission pp) r tk cl)
           in Some (r, finish_task cl')))"

text \<open>\<open>GroupSender::send\<close>: what it sends, under which plan, and what it stores afterwards.\<close>

definition group_signal :: "world \<Rightarrow> closed_group \<Rightarrow> signal" where
  "group_signal w c =
     (if length (cg_members c) = 1 then mb_signal (cg_members c ! 0)
      else digest (w_sha w) (w_rkey w) (w_json w) (w_uid w) (w_now w) c)"

definition group_plan :: "world \<Rightarrow> closed_group \<Rightarrow> signal \<Rightarrow> row list option \<Rightarrow> delivery_plan \<times> admission \<times> row list option" where
  "group_plan w c sg rows_opt =
     (let r = cg_route c;
          (gate, rows', adm) =
            (case rows_opt of
               Some rows \<Rightarrow>
                 (let (v, rs, a) = admit_digest (w_rkey w) (w_fault w) r sg (w_now_ms w) (rows, []) in (v, Some rs, a))
             | None \<Rightarrow> (Ok (), None, []))
      in (case gate of
            Inr _ \<Rightarrow> \<lparr>targets = route_targets r, suppressed = [], grouped = []\<rparr>
          | Inl reason \<Rightarrow>
              \<lparr>targets = [], suppressed = [''route '' @ describe r @ '': '' @ reason], grouped = []\<rparr>,
          adm, rows'))"

definition settle_members :: "world \<Rightarrow> delivery_result \<Rightarrow> member list \<Rightarrow> row list option \<Rightarrow> row list option" where
  "settle_members w r ms rows = fold (\<lambda>m. settle w (mb_admission m) r) ms rows"

definition complete_members :: "'s sink \<Rightarrow> delivery_result \<Rightarrow> member list \<Rightarrow> 's client \<Rightarrow> 's client" where
  "complete_members sk r ms cl =
     fold (\<lambda>m cl. snd (complete_signal sk (mb_signal m) r cl)) (filter mb_owns_row ms) cl"

definition run_group_task :: "'s sink \<Rightarrow> world \<Rightarrow> nat list \<Rightarrow> closed_group \<Rightarrow> 's client \<Rightarrow> (delivery_result \<times> 's client) option" where
  "run_group_task sk w schedule c cl =
     (let ms = cg_members c;
          single = (length ms = 1);
          sg = group_signal w c;
          cl1 = (if single then cl else record_signal sk sg cl);
          (p, adm, rows') = group_plan w c sg (cl_rows cl1);
          cl2 = cl1\<lparr>cl_rows := rows'\<rparr>
      in case deliver sk (pl_providers (cl_pipeline cl2)) p schedule (new_tracker sg (cl_sink cl2) []) of
           None \<Rightarrow> None
         | Some (r, tk) \<Rightarrow>
             (let cl3 = cl2\<lparr>cl_sink := tk_sink tk,
                    cl_rows := settle_members w r ms (settle w adm r (cl_rows cl2))\<rparr>;
                  cl4 = (if single then cl3 else snd (complete_signal sk sg r cl3))
              in Some (r, finish_task (complete_members sk r ms cl4))))"

text \<open>
  \<open>flush\<close> starts a task for every open group; \<open>flush_wait\<close> is its verdict once the in-flight count
  has been waited for, over what the wait observes.
\<close>

definition flush_start :: "'s client \<Rightarrow> 's client" where
  "flush_start cl = (let (cs, gs) = take_all_groups (cl_groups cl)
     in fold spawn_group cs (cl\<lparr>cl_groups := gs\<rparr>))"

definition flush_wait :: "(bool \<times> nat) list \<Rightarrow> 's client \<Rightarrow> bool" where
  "flush_wait rounds cl = (in_flight_wait (gs_in_flight (cl_groups cl)) rounds = 0)"

text \<open>
  \<open>flush_groups\<close>: the tasks of the groups closed now, each with what it takes from its surroundings
  and the schedule it gets before the deadline; the results of those that finish are returned, in
  order, and the others carry on.
\<close>

fun run_group_tasks :: "'s sink \<Rightarrow> (world \<times> nat list) list \<Rightarrow> closed_group list \<Rightarrow> 's client \<Rightarrow> delivery_result list \<times> 's client" where
  "run_group_tasks sk runs [] cl = ([], cl)"
| "run_group_tasks sk [] (c # cs) cl = ([], fold spawn_group (c # cs) cl)"
| "run_group_tasks sk ((w, s) # runs) (c # cs) cl =
     (case run_group_task sk w s c cl of
        Some (r, cl') \<Rightarrow> (let (rs, cl'') = run_group_tasks sk runs cs cl' in (r # rs, cl''))
      | None \<Rightarrow> run_group_tasks sk runs cs (spawn_group c cl))"

definition flush_groups :: "'s sink \<Rightarrow> (world \<times> nat list) list \<Rightarrow> 's client \<Rightarrow> delivery_result list \<times> 's client" where
  "flush_groups sk runs cl =
     (let (cs, gs) = take_all_groups (cl_groups cl)
      in run_group_tasks sk runs cs (cl\<lparr>cl_groups := gs\<rparr>))"

subsection \<open>Frames\<close>

lemma spawn_group_simps [simp]:
  "cl_sink (spawn_group c cl) = cl_sink cl" "cl_rows (spawn_group c cl) = cl_rows cl"
  "cl_alerts (spawn_group c cl) = cl_alerts cl" "cl_pipeline (spawn_group c cl) = cl_pipeline cl"
  "cl_groups (spawn_group c cl) = cl_groups cl"
  by (simp_all add: spawn_group_def)

lemma record_signal_simps [simp]:
  "cl_sink (record_signal sk sg cl) = snd (sk_record sk sg (cl_sink cl))"
  "cl_rows (record_signal sk sg cl) = cl_rows cl" "cl_alerts (record_signal sk sg cl) = cl_alerts cl"
  "cl_pipeline (record_signal sk sg cl) = cl_pipeline cl" "cl_groups (record_signal sk sg cl) = cl_groups cl"
  by (simp_all add: record_signal_def)

lemma complete_signal_simps [simp]:
  "fst (complete_signal sk sg r cl) = fst (sk_complete sk sg r (cl_sink cl))"
  "cl_sink (snd (complete_signal sk sg r cl)) = snd (sk_complete sk sg r (cl_sink cl))"
  "cl_rows (snd (complete_signal sk sg r cl)) = cl_rows cl"
  "cl_alerts (snd (complete_signal sk sg r cl)) = cl_alerts cl"
  "cl_pipeline (snd (complete_signal sk sg r cl)) = cl_pipeline cl"
  "cl_groups (snd (complete_signal sk sg r cl)) = cl_groups cl"
  "cl_tasks (snd (complete_signal sk sg r cl)) = cl_tasks cl"
  "cl_timers (snd (complete_signal sk sg r cl)) = cl_timers cl"
  by (simp_all add: complete_signal_def case_prod_beta Let_def)

lemma after_delivery_simps [simp]:
  "cl_sink (after_delivery w pp adm r tk cl) = tk_sink tk"
  "cl_rows (after_delivery w pp adm r tk cl) = settle w adm r (cl_rows cl)"
  "cl_alerts (after_delivery w pp adm r tk cl) =
     map_option (record_alerts (w_write_fault w) (w_stamp w) (pp_signal pp) r (tk_refs tk)) (cl_alerts cl)"
  "cl_pipeline (after_delivery w pp adm r tk cl) = cl_pipeline cl"
  "cl_groups (after_delivery w pp adm r tk cl) = cl_groups cl"
  by (simp_all add: after_delivery_def)

lemma hold_one_frame:
  "hold_one w rs sg own x (adm, cl) = (adm', cl') \<Longrightarrow>
     cl_sink cl' = cl_sink cl \<and> cl_rows cl' = cl_rows cl \<and> cl_alerts cl' = cl_alerts cl \<and> cl_pipeline cl' = cl_pipeline cl"
  by (auto simp: hold_one_def Let_def split: prod.splits added.splits if_splits)

lemma fold_hold_frame:
  "fold (hold_one w rs sg own) xs (adm, cl) = (adm', cl') \<Longrightarrow>
     cl_sink cl' = cl_sink cl \<and> cl_rows cl' = cl_rows cl \<and> cl_alerts cl' = cl_alerts cl \<and> cl_pipeline cl' = cl_pipeline cl"
proof (induction xs arbitrary: adm cl)
  case (Cons x xs)
  obtain adm1 cl1 where h: "hold_one w rs sg own x (adm, cl) = (adm1, cl1)" by fastforce
  with Cons.prems have "fold (hold_one w rs sg own) xs (adm1, cl1) = (adm', cl')" by simp
  from Cons.IH [OF this] hold_one_frame [OF h] show ?case by simp
qed simp

lemma hold_frame:
  "hold w rs p sg own adm cl = (adm', cl') \<Longrightarrow>
     cl_sink cl' = cl_sink cl \<and> cl_rows cl' = cl_rows cl \<and> cl_alerts cl' = cl_alerts cl \<and> cl_pipeline cl' = cl_pipeline cl"
  unfolding hold_def by (rule fold_hold_frame)

lemma hold_none: "grouped p = [] \<Longrightarrow> hold w rs p sg own adm cl = (adm, cl)"
  by (simp add: hold_def)

lemma settle_simps [simp]:
  "settle w adm r None = None"
  "dr_status r \<noteq> Failed \<Longrightarrow> settle w adm r rows_opt = rows_opt"
  "settle w [] r rows_opt = rows_opt"
  "dr_status r = Failed \<Longrightarrow> settle w adm r (Some rows) = Some (release (w_release_fault w) adm rows)"
  by (auto simp: settle_def split: option.splits delivery_status.splits)

subsection \<open>Plans\<close>

lemma plan_signal_Some:
  "plan_signal w (Some rows) rs sg = (p, adm, rows') \<longleftrightarrow>
     (\<exists>rows1. rows' = Some rows1 \<and>
       plan_with (\<lambda>r. admit (w_rkey w) (w_fault w) r sg (w_now_ms w)) rs sg (rows, []) = (p, rows1, adm))"
  by (auto simp: plan_signal_def split: prod.splits)

lemma plan_signal_plan:
  assumes "plan_signal w rows_opt rs sg = (p, adm, rows')"
  shows "distinct (plan_providers p) \<and> [] \<notin> set (targets p)"
proof (cases rows_opt)
  case None
  with assms have "p = plan rs sg" by (simp add: plan_signal_def)
  with plan_with_wf [OF plan_pair [of rs sg]] show ?thesis by simp
next
  case (Some rows)
  with assms obtain rows1 where
    "plan_with (\<lambda>r. admit (w_rkey w) (w_fault w) r sg (w_now_ms w)) rs sg (rows, []) = (p, rows1, adm)"
    by (auto simp: plan_signal_Some)
  from plan_with_wf [OF this] show ?thesis by simp
qed

lemma lifecycle_plan_distinct:
  assumes "distinct (map oa_provider opn)"
  shows "distinct (plan_providers (lifecycle_plan pl sg opn))"
proof -
  have "distinct (map oa_provider (filter P opn))" for P using assms by (rule distinct_map_filter)
  moreover have "concat (map (\<lambda>a. [f a]) xs) = map f xs" for f :: "'x \<Rightarrow> string" and xs by (induction xs) auto
  ultimately show ?thesis by (simp add: lifecycle_plan_def plan_providers_def Let_def)
qed

lemma prepare_plan_distinct:
  assumes "prepare w pl i rows_opt alerts = (pp, rows')" and "\<And>book. alerts = Some book \<Longrightarrow> wf_alist book"
  shows "distinct (plan_providers (pp_plan pp))"
proof (cases "is_lifecycle (in_action i)")
  case False
  with assms(1) plan_signal_plan show ?thesis
    by (auto simp: prepare_def Let_def split: prod.splits)
next
  case True
  have d: "distinct (map oa_provider (case alerts of Some book \<Rightarrow> open_alerts rf book key | None \<Rightarrow> []))" for rf key
    using assms(2) by (auto simp: distinct_open_alerts split: option.splits)
  from assms(1) True lifecycle_plan_distinct [OF d] show ?thesis by (auto simp: prepare_def Let_def)
qed

lemma prepare_signal:
  assumes "prepare w pl i rows_opt alerts = (pp, rows')"
  shows "sg_id (pp_signal pp) = w_uid w" "sg_action (pp_signal pp) = in_action i"
    "sg_dedup_key (pp_signal pp) \<noteq> None"
  using assms by (auto simp: prepare_def Let_def split: prod.splits if_splits)

lemma prepare_lifecycle:
  assumes "prepare w pl i rows_opt alerts = (pp, rows')" and "is_lifecycle (in_action i)"
  shows "rows' = rows_opt" "pp_admission pp = []" "grouped (pp_plan pp) = []"
  using assms by (auto simp: prepare_def Let_def lifecycle_plan_def)

subsection \<open>What a blocking send did\<close>

lemma summarize_status:
  "dr_status (summarize p outs cut_off) =
     (if targets p = [] then (if grouped p \<noteq> [] then Grouped else Skipped)
      else if \<forall>chain \<in> set (targets p). reached (tried outs cut_off chain) then Delivered
      else if \<exists>chain \<in> set (targets p). reached (tried outs cut_off chain) then Partial else Failed)"
  by (simp add: summarize_def summary_of_status)

lemma deliver_within_status:
  assumes "deliver_within sk ps p ms sched tk = (r, tk')" and "targets p \<noteq> []"
  shows "dr_status r \<in> {Delivered, Partial, Failed}"
proof -
  obtain outs cut_off where "r = summarize p outs cut_off"
    using assms(1) by (auto simp: deliver_within_def Let_def split: prod.splits if_splits)
  with assms(2) show ?thesis by (simp add: summarize_status)
qed

lemma tried_names: "map po_provider (tried outs cut_off chain) = filter (\<lambda>n. find_outcome outs n \<noteq> None) chain"
proof (induction chain)
  case (Cons n ns)
  have "po_provider x = n" if "find_outcome outs n = Some x" for x
    using that by (auto simp: find_outcome_def find_Some_iff)
  then have "po_provider (cut_pending cut_off x) = n" if "find_outcome outs n = Some x" for x
    using that by (auto simp: cut_pending_def split: option.splits)
  with Cons show ?case by (auto simp: tried_def List.map_filter_def)
qed (simp add: tried_def List.map_filter_def)

lemma summarize_deliveries_names:
  "map po_provider (dr_deliveries (summarize p outs cut_off)) = filter (\<lambda>n. find_outcome outs n \<noteq> None) (plan_providers p)"
proof -
  have "map po_provider (concat (map (tried outs cut_off) ts)) = filter (\<lambda>n. find_outcome outs n \<noteq> None) (concat ts)" for ts
    by (induction ts) (simp_all add: tried_names)
  then show ?thesis by (simp add: summarize_def summary_of_simps plan_providers_def)
qed

lemma deliver_within_distinct:
  assumes "deliver_within sk ps p ms sched tk = (r, tk')" and "distinct (plan_providers p)"
  shows "distinct (map po_provider (dr_deliveries r))"
proof -
  obtain outs cut_off where "r = summarize p outs cut_off"
    using assms(1) by (auto simp: deliver_within_def Let_def split: prod.splits if_splits)
  with assms(2) show ?thesis by (simp add: summarize_deliveries_names)
qed

lemma send_sent:
  assumes "send sk w ms sched i cl = (Inr rep, cl')" and "dr_status (sr_result rep) \<in> {Delivered, Partial, Failed}"
  obtains pp rows1 adm cl2 tk where "is_ok (validate i)"
    and "prepare w (cl_pipeline cl) i (cl_rows cl) (cl_alerts cl) = (pp, rows1)"
    and "targets (pp_plan pp) \<noteq> []"
    and "hold w (pl_routes (cl_pipeline cl)) (pp_plan pp) (pp_signal pp) False (pp_admission pp)
           (record_signal sk (pp_signal pp) (cl\<lparr>cl_rows := rows1\<rparr>)) = (adm, cl2)"
    and "deliver_within sk (pl_providers (cl_pipeline cl)) (pp_plan pp) ms sched
           (new_tracker (pp_signal pp) (cl_sink cl2) (pp_prior_refs pp)) = (sr_result rep, tk)"
    and "complete_signal sk (pp_signal pp) (sr_result rep) (after_delivery w pp adm (sr_result rep) tk cl2) = (Inr (), cl')"
    and "sr_signal_id rep = sg_id (pp_signal pp)" and "sr_dedup_key rep = sg_dedup_key (pp_signal pp)"
proof -
  obtain pp rows1 where p: "prepare w (cl_pipeline cl) i (cl_rows cl) (cl_alerts cl) = (pp, rows1)" by fastforce
  from assms(1) have v: "is_ok (validate i)" by (auto simp: send_def is_ok_iff split: sum.splits)
  then have v': "validate i = Inr ()" by (simp add: is_ok_iff)
  show thesis
  proof (cases "targets (pp_plan pp) = []")
    case True
    with assms(1) v' p have "sr_result rep = summarize (pp_plan pp) [] None"
      by (auto simp: send_def settle_unsent_def Let_def split: prod.splits)
    with True assms(2) show thesis by (simp add: summarize_status split: if_splits)
  next
    case False
    obtain adm cl2 where h: "hold w (pl_routes (cl_pipeline cl)) (pp_plan pp) (pp_signal pp) False (pp_admission pp)
           (record_signal sk (pp_signal pp) (cl\<lparr>cl_rows := rows1\<rparr>)) = (adm, cl2)" by fastforce
    obtain r tk where d: "deliver_within sk (pl_providers (cl_pipeline cl)) (pp_plan pp) ms sched
           (new_tracker (pp_signal pp) (cl_sink cl2) (pp_prior_refs pp)) = (r, tk)" by fastforce
    obtain v cl3 where c: "complete_signal sk (pp_signal pp) r (after_delivery w pp adm r tk cl2) = (v, cl3)" by fastforce
    from assms(1) v' p False h d c have "v = Inr ()" "cl3 = cl'" "sr_result rep = r"
      "sr_signal_id rep = sg_id (pp_signal pp)" "sr_dedup_key rep = sg_dedup_key (pp_signal pp)"
      by (auto simp: send_def Let_def split: sum.splits)
    with that [OF v p False h] d c show thesis by simp
  qed
qed

lemma send_eq:
  assumes "validate i = Inr u" and "prepare w (cl_pipeline cl) i (cl_rows cl) (cl_alerts cl) = (pp, rows1)"
    and "targets (pp_plan pp) \<noteq> []"
    and "hold w (pl_routes (cl_pipeline cl)) (pp_plan pp) (pp_signal pp) False (pp_admission pp)
           (record_signal sk (pp_signal pp) (cl\<lparr>cl_rows := rows1\<rparr>)) = (adm, cl2)"
    and "deliver_within sk (pl_providers (cl_pipeline cl)) (pp_plan pp) ms sched
           (new_tracker (pp_signal pp) (cl_sink cl2) (pp_prior_refs pp)) = (r, tk)"
    and "fst (sk_complete sk (pp_signal pp) r (tk_sink tk)) = Inr ()"
  shows "\<exists>cl'. send sk w ms sched i cl =
     (Inr \<lparr>sr_signal_id = sg_id (pp_signal pp), sr_dedup_key = sg_dedup_key (pp_signal pp), sr_result = r\<rparr>, cl')"
proof -
  obtain cl3 where c: "complete_signal sk (pp_signal pp) r (after_delivery w pp adm r tk cl2) = (Inr (), cl3)"
    using assms(6) complete_signal_simps(1) [of sk "pp_signal pp" r "after_delivery w pp adm r tk cl2"]
    by (cases "complete_signal sk (pp_signal pp) r (after_delivery w pp adm r tk cl2)") simp
  show ?thesis by (simp add: send_def assms(1-5) c Let_def)
qed

subsection \<open>Over any sink that keeps its contract\<close>

locale client_sink = signal_sink +
  fixes sk :: "'a sink"
  assumes sk_record: "sk_record sk = rec" and sk_complete: "sk_complete sk = compl" and sk_outcome: "sk_outcome sk = outc"
begin

lemma send_stored:
  assumes "send sk w ms sched i cl = (Inr rep, cl')" and "dr_status (sr_result rep) \<in> {Delivered, Partial, Failed}"
  shows "stored (cl_sink cl') (sr_signal_id rep) =
    Some (dr_status (sr_result rep), dr_provider (sr_result rep), dr_error (sr_result rep))"
proof -
  obtain pp rows1 adm cl2 tk where
    c: "complete_signal sk (pp_signal pp) (sr_result rep) (after_delivery w pp adm (sr_result rep) tk cl2) = (Inr (), cl')"
    and i: "sr_signal_id rep = sg_id (pp_signal pp)"
    using assms by (rule send_sent)
  from c have "fst (compl (pp_signal pp) (sr_result rep) (tk_sink tk)) = Inr ()"
    "cl_sink cl' = snd (compl (pp_signal pp) (sr_result rep) (tk_sink tk))"
    using complete_signal_simps(1,2) [of sk "pp_signal pp" "sr_result rep" "after_delivery w pp adm (sr_result rep) tk cl2"]
    by (simp_all add: sk_complete)
  then show ?thesis using complete_ok i by simp
qed

lemma send_stored_outcomes:
  assumes "send sk w ms sched i cl = (Inr rep, cl')" and "dr_status (sr_result rep) \<in> {Delivered, Partial, Failed}"
    and wf: "\<And>book. cl_alerts cl = Some book \<Longrightarrow> wf_alist book" and x: "x \<in> set (dr_deliveries (sr_result rep))"
  shows "outcome (cl_sink cl') (sr_signal_id rep) (po_provider x) = Some (po_status x, po_error x, po_attempts x)"
proof -
  obtain pp rows1 adm cl2 tk where p: "prepare w (cl_pipeline cl) i (cl_rows cl) (cl_alerts cl) = (pp, rows1)"
    and d: "deliver_within sk (pl_providers (cl_pipeline cl)) (pp_plan pp) ms sched
           (new_tracker (pp_signal pp) (cl_sink cl2) (pp_prior_refs pp)) = (sr_result rep, tk)"
    and c: "complete_signal sk (pp_signal pp) (sr_result rep) (after_delivery w pp adm (sr_result rep) tk cl2) = (Inr (), cl')"
    and i: "sr_signal_id rep = sg_id (pp_signal pp)"
    using assms(1,2) by (rule send_sent)
  have dist: "distinct (map po_provider (dr_deliveries (sr_result rep)))"
    by (rule deliver_within_distinct [OF d prepare_plan_distinct [OF p wf]])
  from c have "fst (compl (pp_signal pp) (sr_result rep) (tk_sink tk)) = Inr ()"
    "cl_sink cl' = snd (compl (pp_signal pp) (sr_result rep) (tk_sink tk))"
    using complete_signal_simps(1,2) [of sk "pp_signal pp" "sr_result rep" "after_delivery w pp adm (sr_result rep) tk cl2"]
    by (simp_all add: sk_complete)
  then show ?thesis using complete_outcomes [OF _ x dist] i by simp
qed

lemma complete_members_stored:
  assumes works: "\<And>sg s. fst (compl sg r s) = Inr ()"
    and m: "m \<in> set ms" "mb_owns_row m"
    and same: "\<And>m'. m' \<in> set ms \<Longrightarrow> sg_id (mb_signal m') = sg_id (mb_signal m) \<Longrightarrow> m' = m"
  shows "stored (cl_sink (complete_members sk r ms cl)) (sg_id (mb_signal m)) = Some (dr_status r, dr_provider r, dr_error r)"
proof -
  let ?st = "\<lambda>cl. stored (cl_sink cl) (sg_id (mb_signal m)) = Some (dr_status r, dr_provider r, dr_error r)"
  let ?step = "\<lambda>m cl. snd (complete_signal sk (mb_signal m) r cl)"
  have keep: "?st (fold ?step xs cl)" if "?st cl" "set xs \<subseteq> set ms" for xs and cl :: "'a client"
    using that
  proof (induction xs arbitrary: cl)
    case (Cons x xs)
    have "?st (?step x cl)"
      using Cons.prems complete_ok [OF works, of "mb_signal x"] complete_frame [of "sg_id (mb_signal m)" "mb_signal x"] same [of x]
      by (cases "sg_id (mb_signal x) = sg_id (mb_signal m)") (auto simp: sk_complete)
    with Cons show ?case by simp
  qed simp
  have "?st (fold ?step xs cl)" if "m \<in> set xs" "set xs \<subseteq> set ms" for xs and cl :: "'a client"
    using that
  proof (induction xs arbitrary: cl)
    case (Cons x xs)
    show ?case
    proof (cases "x = m")
      case True
      have "?st (?step m cl)" using complete_ok [OF works] by (simp add: sk_complete)
      with keep [of "?step m cl" xs] True Cons.prems show ?thesis by simp
    next
      case False
      with Cons show ?thesis by simp
    qed
  qed simp
  then show ?thesis using m by (auto simp: complete_members_def)
qed

end

interpretation sqlite_client: client_sink "sqlite_record env" "sqlite_complete env" "sqlite_outcome env"
  stored_status stored_outcome "sqlite_sink env"
  by unfold_locales (simp_all add: sqlite_sink_def)

subsection \<open>Histories, tasks and groups\<close>

lemma failed_send_rows:
  assumes send: "send sk w ms sched i cl = (Inr rep, cl')" and failed: "dr_status (sr_result rep) = Failed"
    and trig: "in_action i = Trigger" and rows: "cl_rows cl = Some rows"
    and ok: "w_release_fault w = no_row_fault"
    and none: "grouped (pp_plan (fst (prepare w (cl_pipeline cl) i (cl_rows cl) (cl_alerts cl)))) = []"
    and routes: "\<forall>r \<in> set (pl_routes (cl_pipeline cl)). conf_knows conf (w_rkey w) r"
  shows "\<exists>rows'. cl_rows cl' = Some rows' \<and>
     live_rows conf (w_now_ms w) (rows', []) = live_rows conf (w_now_ms w) (rows, [])"
proof -
  obtain pp rows1 adm cl2 tk where p: "prepare w (cl_pipeline cl) i (cl_rows cl) (cl_alerts cl) = (pp, rows1)"
    and h: "hold w (pl_routes (cl_pipeline cl)) (pp_plan pp) (pp_signal pp) False (pp_admission pp)
           (record_signal sk (pp_signal pp) (cl\<lparr>cl_rows := rows1\<rparr>)) = (adm, cl2)"
    and c: "complete_signal sk (pp_signal pp) (sr_result rep) (after_delivery w pp adm (sr_result rep) tk cl2) = (Inr (), cl')"
    by (rule send_sent [OF send]) (use failed in simp)
  from p trig rows obtain rows2 where
    plan: "plan_with (\<lambda>r. admit (w_rkey w) (w_fault w) r (pp_signal pp) (w_now_ms w)) (pl_routes (cl_pipeline cl))
       (pp_signal pp) (rows, []) = (pp_plan pp, rows2, pp_admission pp)" and rows1: "rows1 = Some rows2"
    by (auto simp: prepare_def plan_signal_Some Let_def split: prod.splits)
  have "grouped (pp_plan pp) = []" using none p by simp
  then have adm: "adm = pp_admission pp" using h [unfolded hold_none [OF \<open>grouped (pp_plan pp) = []\<close>]] by simp
  have cl2: "cl_rows cl2 = Some rows2" using hold_frame [OF h] by (simp add: rows1)
  from c have "cl_rows cl' = settle w adm (sr_result rep) (cl_rows cl2)"
    using complete_signal_simps(3) [of sk "pp_signal pp" "sr_result rep" "after_delivery w pp adm (sr_result rep) tk cl2"] by simp
  then have rows': "cl_rows cl' = Some (release no_row_fault (pp_admission pp) rows2)"
    using failed by (simp add: adm cl2 ok)
  from plan_then_take_back [OF routes, of "w_now_ms w" "w_fault w" "pp_signal pp" "pp_signal pp" "(rows, [])"]
  have "live_rows conf (w_now_ms w) (release no_row_fault (pp_admission pp) rows2, []) = live_rows conf (w_now_ms w) (rows, [])"
    by (simp add: plan take_back_def others_rows_def live_rows_def)
  with rows' show ?thesis by simp
qed

lemma deliver_is_deliver_within:
  "deliver sk ps p sched tk = Some (r, tk') \<Longrightarrow> deliver_within sk ps p ms sched tk = (r, tk')"
  by (auto simp: deliver_def deliver_within_def Let_def split: prod.splits if_splits)

lemma finish_task_simps [simp]:
  "cl_sink (finish_task cl) = cl_sink cl" "cl_rows (finish_task cl) = cl_rows cl" "cl_alerts (finish_task cl) = cl_alerts cl"
  by (simp_all add: finish_task_def)

lemma async_then_task:
  assumes v: "validate i = Inr ()"
    and p: "prepare w (cl_pipeline cl) i (cl_rows cl) (cl_alerts cl) = (pp, rows1)" and t: "targets (pp_plan pp) \<noteq> []"
    and last: "last (cl_tasks (notify_async sk w i cl)) = Deliver_Task pl qq"
    and run: "run_deliver_task sk w sched pl qq (notify_async sk w i cl) = Some (r, cl3)"
  obtains u cl' where "send sk w ms sched i cl = (u, cl')" and "\<And>rep. u = Inr rep \<Longrightarrow> sr_result rep = r"
    and "cl_sink cl3 = cl_sink cl'" and "cl_rows cl3 = cl_rows cl'" and "cl_alerts cl3 = cl_alerts cl'"
proof -
  let ?pl = "cl_pipeline cl"
  obtain adm cl2 where h: "hold w (pl_routes ?pl) (pp_plan pp) (pp_signal pp) False (pp_admission pp)
      (record_signal sk (pp_signal pp) (cl\<lparr>cl_rows := rows1\<rparr>)) = (adm, cl2)" by fastforce
  have n: "cl_sink (notify_async sk w i cl) = cl_sink cl2" "cl_rows (notify_async sk w i cl) = cl_rows cl2"
    "cl_alerts (notify_async sk w i cl) = cl_alerts cl2"
    "last (cl_tasks (notify_async sk w i cl)) = Deliver_Task ?pl (pp\<lparr>pp_admission := adm\<rparr>)"
    by (simp_all add: notify_async_def v p t h Let_def)
  with last have pl: "pl = ?pl" and qq: "qq = pp\<lparr>pp_admission := adm\<rparr>" by simp_all
  obtain tk where d: "deliver sk (pl_providers ?pl) (pp_plan pp) sched (new_tracker (pp_signal pp) (cl_sink cl2) (pp_prior_refs pp)) = Some (r, tk)"
    and cl3: "cl3 = finish_task (snd (complete_signal sk (pp_signal pp) r (after_delivery w qq adm r tk (notify_async sk w i cl))))"
    using run by (auto simp: run_deliver_task_def pl qq n Let_def case_prod_beta split: option.splits)
  obtain u cl' where c: "complete_signal sk (pp_signal pp) r (after_delivery w pp adm r tk cl2) = (u, cl')" by fastforce
  have s: "send sk w ms sched i cl = (case u of Inl e \<Rightarrow> (Inl e, cl')
      | Inr _ \<Rightarrow> (Inr \<lparr>sr_signal_id = sg_id (pp_signal pp), sr_dedup_key = sg_dedup_key (pp_signal pp), sr_result = r\<rparr>, cl'))"
    by (simp add: send_def v p t h Let_def deliver_is_deliver_within [OF d] c)
  note f = complete_signal_simps [of sk "pp_signal pp" r]
  have "cl_sink cl3 = cl_sink cl'" "cl_rows cl3 = cl_rows cl'" "cl_alerts cl3 = cl_alerts cl'"
    using f [of "after_delivery w pp adm r tk cl2"] c by (simp_all add: cl3 f n qq)
  with that [of _ cl'] s show thesis by (cases u) auto
qed

lemma group_plan_refused:
  assumes "group_plan w c sg rows_opt = (p, adm, rows')" and "targets p = []" and "providers (cg_route c) \<noteq> []"
  shows "rows' = rows_opt \<and> adm = [] \<and> grouped p = [] \<and> suppressed p \<noteq> []"
proof -
  have "route_targets (cg_route c) \<noteq> []"
  proof
    assume "route_targets (cg_route c) = []"
    with set_route_targets [of "cg_route c"] assms(3) show False by simp
  qed
  note nonempty = this
  show ?thesis
  proof (cases rows_opt)
    case None
    with assms(1,2) nonempty show ?thesis by (auto simp: group_plan_def)
  next
    case (Some rows)
    obtain v rs a where g: "admit_digest (w_rkey w) (w_fault w) (cg_route c) sg (w_now_ms w) (rows, []) = (v, rs, a)"
      by (cases "admit_digest (w_rkey w) (w_fault w) (cg_route c) sg (w_now_ms w) (rows, [])") auto
    show ?thesis
    proof (cases v)
      case (Inr u)
      with assms(1,2) nonempty Some g show ?thesis by (auto simp: group_plan_def)
    next
      case (Inl why)
      have "fst (check (w_fault w) (w_rkey w (cg_route c) @ ''#digest'') sg (w_now_ms w) None
          (route_rate_limit (cg_route c)) (rows, [])) = Inl why"
        using g Inl by (simp add: admit_digest_def)
      from check_refusal [OF this] g have "rs = rows" "a = []" by (simp_all add: admit_digest_def)
      with assms(1) Some g Inl show ?thesis by (auto simp: group_plan_def)
    qed
  qed
qed

lemma deliver_no_targets: "targets p = [] \<Longrightarrow> deliver sk ps p sched tk = Some (summarize p (tk_outcomes (snd (run_schedule sk ps sched ([], tk)))) None, snd (run_schedule sk ps sched ([], tk)))"
proof -
  have "fst (run_schedule sk ps sched ([], tk)) = []"
    by (induction sched arbitrary: tk) (simp_all add: poll_def)
  then show "deliver sk ps p sched tk = Some (summarize p (tk_outcomes (snd (run_schedule sk ps sched ([], tk)))) None,
      snd (run_schedule sk ps sched ([], tk)))" if "targets p = []"
    using that by (simp add: deliver_def start_chains_def all_finished_def case_prod_beta Let_def)
qed

lemma lifecycle_targets:
  assumes wf: "wf_alist book" and life: "is_lifecycle (in_action i)" and rf: "\<not> w_read_fault w"
    and p: "prepare w pl i rows_opt (Some book) = (pp, rows1)"
  shows "set (plan_providers (pp_plan pp)) =
    (let held = {n. holds_alert book (effective_dedup_key (w_sha w) i) n \<and> known (pl_providers pl) n}
     in if held \<noteq> {} then held
        else {n \<in> set (providers_any_severity (pl_routes pl) (pp_signal pp)).
                \<exists>pv. map_of (pl_providers pl) n = Some pv \<and> pv_resolves_by_key pv})"
proof -
  let ?opn = "open_alerts False book (effective_dedup_key (w_sha w) i)"
  let ?held = "{n. holds_alert book (effective_dedup_key (w_sha w) i) n \<and> known (pl_providers pl) n}"
  from p life rf have plan: "pp_plan pp = lifecycle_plan pl (pp_signal pp) ?opn"
    by (auto simp: prepare_def Let_def)
  let ?h = "map (\<lambda>a. [oa_provider a]) (filter (\<lambda>a. known (pl_providers pl) (oa_provider a)) ?opn)"
  have "set (concat ?h) = oa_provider ` set ?opn \<inter> {n. known (pl_providers pl) n}" by auto
  then have held: "set (concat ?h) = ?held" by (auto simp: open_alerts_providers [OF wf])
  have empty: "?h = [] \<longleftrightarrow> ?held = {}"
    unfolding held [symmetric] by (auto simp: filter_empty_conv)
  show ?thesis
  proof (cases "?held = {}")
    case True
    with empty have "?h = []" by simp
    then have "targets (pp_plan pp) = map (\<lambda>n. [n]) (filter
        (\<lambda>n. case map_of (pl_providers pl) n of Some p \<Rightarrow> pv_resolves_by_key p | None \<Rightarrow> False)
        (providers_any_severity (pl_routes pl) (pp_signal pp)))"
      unfolding plan lifecycle_plan_def Let_def by simp
    with True show ?thesis
      by (auto simp: plan_providers_def Let_def split: option.splits simp del: set_providers_any_severity)
  next
    case False
    with empty have "?h \<noteq> []" by simp
    then have "targets (pp_plan pp) = ?h" unfolding plan lifecycle_plan_def Let_def by simp
    with False held show ?thesis by (simp add: plan_providers_def Let_def)
  qed
qed

lemma lifecycle_rows:
  assumes "is_lifecycle (in_action i)"
  shows "cl_rows (snd (send sk w ms sched i cl)) = cl_rows cl"
proof (cases "validate i")
  case (Inl e)
  then show ?thesis by (simp add: send_def)
next
  case (Inr u)
  obtain pp rows1 where p: "prepare w (cl_pipeline cl) i (cl_rows cl) (cl_alerts cl) = (pp, rows1)" by fastforce
  note l = prepare_lifecycle [OF p assms]
  show ?thesis
  proof (cases "targets (pp_plan pp) = []")
    case True
    with Inr p l show ?thesis
      by (simp add: send_def settle_unsent_def Let_def case_prod_beta hold_none)
  next
    case False
    with Inr p l show ?thesis
      by (simp add: send_def Let_def case_prod_beta hold_none split: sum.splits)
  qed
qed

lemma run_group_task_members:
  "run_group_task sk w sched c cl = Some (r, cl') \<Longrightarrow>
     \<exists>cl4. cl' = finish_task (complete_members sk r (cg_members c) cl4)"
  by (auto simp: run_group_task_def Let_def split: prod.splits option.splits)

lemma complete_members_rows [simp]: "cl_rows (complete_members sk r ms cl) = cl_rows cl"
proof -
  have "cl_rows (fold (\<lambda>m cl. snd (complete_signal sk (mb_signal m) r cl)) xs cl) = cl_rows cl" for xs
    by (induction xs arbitrary: cl) simp_all
  then show ?thesis by (simp add: complete_members_def)
qed

lemma settle_members_id: "dr_status r \<noteq> Failed \<Longrightarrow> settle_members w r ms rows_opt = rows_opt"
  unfolding settle_members_def by (induction ms arbitrary: rows_opt) simp_all

lemma suppressed_group_rows:
  assumes plan: "group_plan w c (group_signal w c) (cl_rows cl) = (p, adm, rows')"
    and none: "targets p = []" and prov: "providers (cg_route c) \<noteq> []"
    and run: "run_group_task sk w sched c cl = Some (r, cl')"
  shows "dr_status r = Skipped \<and> cl_rows cl' = cl_rows cl"
proof -
  let ?sg = "group_signal w c"
  let ?cl1 = "if length (cg_members c) = 1 then cl else record_signal sk ?sg cl"
  let ?cl2 = "?cl1\<lparr>cl_rows := rows'\<rparr>"
  have rows: "cl_rows ?cl1 = cl_rows cl" by simp
  note ref = group_plan_refused [OF plan none prov]
  obtain tk where d: "deliver sk (pl_providers (cl_pipeline ?cl2)) p sched (new_tracker ?sg (cl_sink ?cl2) []) = Some (summarize p (tk_outcomes tk) None, tk)"
    using deliver_no_targets [OF none] by blast
  have plan': "group_plan w c ?sg (cl_rows ?cl1) = (p, adm, rows')" using plan by (simp only: rows)
  have r: "r = summarize p (tk_outcomes tk) None"
    and cl': "cl_rows cl' = settle_members w r (cg_members c) (settle w adm r rows')"
    using run unfolding run_group_task_def Let_def plan' prod.case d option.case
    by (auto simp: case_prod_beta)
  from none ref have "dr_status r = Skipped" by (simp add: r summarize_status)
  with cl' ref show ?thesis by (simp add: settle_members_id)
qed

subsection \<open>A sample client\<close>

definition sample_world :: world where
  "sample_world = \<lparr>w_sha = (\<lambda>x. x), w_rkey = (\<lambda>_. ''r''), w_json = sample_env, w_uid = ''id-1'', w_now = 0,
     w_now_ms = 9000, w_stamp = ''t'', w_fault = no_fault, w_release_fault = no_row_fault,
     w_read_fault = False, w_write_fault = (\<lambda>_. False)\<rparr>"

definition sample_sink_env :: sink_env where
  "sample_sink_env = \<lparr>se_payload = (\<lambda>_. Some ''{}''), se_rfc3339 = (\<lambda>_. ''t''), se_now = ''t'',
     se_insert_fault = (\<lambda>_. None), se_outcome_fault = (\<lambda>_ _. None)\<rparr>"

definition sample_client :: "row list option \<Rightarrow> alert_book option \<Rightarrow> route list \<Rightarrow> tables client" where
  "sample_client rows_opt alerts rs = \<lparr>cl_sink = \<lparr>tb_signals = [], tb_deliveries = []\<rparr>,
     cl_pipeline = \<lparr>pl_routes = rs, pl_providers = [(''console'', plain_provider ''console'' (\<lambda>_ _. Ok ()))]\<rparr>,
     cl_rows = rows_opt, cl_alerts = alerts, cl_groups = new_groups, cl_timers = [], cl_tasks = []\<rparr>"

definition sample_input :: signal_input where
  "sample_input = default_input\<lparr>in_source := ''airflow'', in_event_type := ''task_failed'', in_title := ''t'',
     in_dedup_key := Some ''etl.load'', in_severity := Error\<rparr>"

lemma sample_input_valid: "validate sample_input = Inr ()"
  by (simp add: sample_input_def default_input_def validate_def validate_fields_def is_blank_iff is_ws_def)

lemma sample_prepare:
  "prepare sample_world (cl_pipeline (sample_client rows_opt alerts [])) sample_input rows_opt alerts =
     (\<lparr>pp_signal = from_input (\<lambda>x. x) ''id-1'' 0 sample_input,
       pp_plan = \<lparr>targets = [[''console'']], suppressed = [], grouped = []\<rparr>, pp_admission = [], pp_prior_refs = []\<rparr>, rows_opt)"
  by (simp add: prepare_def sample_client_def sample_world_def sample_input_def default_input_def plan_signal_def
      plan_def plan_with_def empty_acc_def Let_def split: option.splits)

lemma sample_client_simps [simp]:
  "cl_rows (sample_client rows_opt alerts rs) = rows_opt" "cl_alerts (sample_client rows_opt alerts rs) = alerts"
  "cl_sink (sample_client rows_opt alerts rs) = \<lparr>tb_signals = [], tb_deliveries = []\<rparr>"
  "cl_groups (sample_client rows_opt alerts rs) = new_groups"
  "cl_pipeline (sample_client rows_opt alerts rs) =
     \<lparr>pl_routes = rs, pl_providers = [(''console'', plain_provider ''console'' (\<lambda>_ _. Ok ()))]\<rparr>"
  by (simp_all add: sample_client_def)

lemma sample_deliver:
  "\<exists>tk'. deliver sk [(''console'', plain_provider ''console'' (\<lambda>_ _. Ok ()))]
      \<lparr>targets = [[''console'']], suppressed = [], grouped = []\<rparr> [0, 0] (new_tracker sg s prior) =
    Some (summary_of \<lparr>targets = [[''console'']], suppressed = [], grouped = []\<rparr>
      [[\<lparr>po_provider = ''console'', po_status = Delivered, po_error = None, po_attempts = 1\<rparr>]], tk')"
  by (simp add: deliver_def start_chains_def poll_def plain_provider_def default_send_with_ref_def all_finished_def
      summarize_def tried_def List.map_filter_def find_outcome_def cut_pending_def new_tracker_def)

lemma sample_deliver_within:
  "\<exists>tk'. deliver_within sk [(''console'', plain_provider ''console'' (\<lambda>_ _. Ok ()))]
      \<lparr>targets = [[''console'']], suppressed = [], grouped = []\<rparr> ms [0, 0] (new_tracker sg s prior) =
    (summary_of \<lparr>targets = [[''console'']], suppressed = [], grouped = []\<rparr>
      [[\<lparr>po_provider = ''console'', po_status = Delivered, po_error = None, po_attempts = 1\<rparr>]], tk')"
  using sample_deliver [of sk sg s prior] by (elim exE) (rule exI, rule deliver_is_deliver_within)

lemma sample_complete: "fst (sqlite_complete sample_sink_env sg r t) = Inr ()"
  by (rule sqlite_complete_works) (simp_all add: sample_sink_env_def)

lemma sample_send:
  "\<exists>rep cl'. send (sqlite_sink sample_sink_env) sample_world 1000 [0, 0] sample_input (sample_client rows_opt alerts []) = (Inr rep, cl') \<and>
     dr_status (sr_result rep) = Delivered \<and> sr_signal_id rep = ''id-1'' \<and>
     \<lparr>po_provider = ''console'', po_status = Delivered, po_error = None, po_attempts = 1\<rparr> \<in> set (dr_deliveries (sr_result rep))"
proof -
  let ?sg = "from_input (\<lambda>x. x) ''id-1'' 0 sample_input"
  let ?p = "\<lparr>targets = [[''console'']], suppressed = [], grouped = []\<rparr> :: delivery_plan"
  let ?ts = "[[\<lparr>po_provider = ''console'', po_status = Delivered, po_error = None, po_attempts = 1\<rparr>]]"
  let ?cl2 = "record_signal (sqlite_sink sample_sink_env) ?sg (sample_client rows_opt alerts [] \<lparr>cl_rows := rows_opt\<rparr>)"
  obtain tk' where d: "deliver_within (sqlite_sink sample_sink_env) [(''console'', plain_provider ''console'' (\<lambda>_ _. Ok ()))]
      ?p 1000 [0, 0] (new_tracker ?sg (cl_sink ?cl2) []) = (summary_of ?p ?ts, tk')"
    using sample_deliver_within [of "sqlite_sink sample_sink_env" 1000 ?sg "cl_sink ?cl2" "[]"] by (elim exE)
  let ?cl = "sample_client rows_opt alerts []"
  let ?pp = "\<lparr>pp_signal = ?sg, pp_plan = ?p, pp_admission = [], pp_prior_refs = []\<rparr>"
  have pr: "prepare sample_world (cl_pipeline ?cl) sample_input (cl_rows ?cl) (cl_alerts ?cl) = (?pp, rows_opt)"
    using sample_prepare [of rows_opt alerts] by (simp only: sample_client_simps)
  have h: "hold sample_world (pl_routes (cl_pipeline ?cl)) (pp_plan ?pp) (pp_signal ?pp) False (pp_admission ?pp)
      (record_signal (sqlite_sink sample_sink_env) (pp_signal ?pp) (?cl\<lparr>cl_rows := rows_opt\<rparr>)) = ([], ?cl2)"
    by (simp add: hold_none)
  have d': "deliver_within (sqlite_sink sample_sink_env) (pl_providers (cl_pipeline ?cl)) (pp_plan ?pp) 1000 [0, 0]
      (new_tracker (pp_signal ?pp) (cl_sink ?cl2) (pp_prior_refs ?pp)) = (summary_of ?p ?ts, tk')"
    using d by simp
  have t: "targets (pp_plan ?pp) \<noteq> []" by simp
  have c: "fst (sk_complete (sqlite_sink sample_sink_env) (pp_signal ?pp) (summary_of ?p ?ts) (tk_sink tk')) = Inr ()"
    using sample_complete by (simp add: sqlite_sink_def)
  have "\<exists>cl'. send (sqlite_sink sample_sink_env) sample_world 1000 [0, 0] sample_input (sample_client rows_opt alerts []) =
     (Inr \<lparr>sr_signal_id = ''id-1'', sr_dedup_key = sg_dedup_key ?sg, sr_result = summary_of ?p ?ts\<rparr>, cl')"
    using send_eq [OF sample_input_valid pr t h d' c] by simp
  moreover have "dr_status (summary_of ?p ?ts) = Delivered" by (simp add: summary_of_status reached_def)
  moreover have "dr_deliveries (summary_of ?p ?ts) = concat ?ts" by (rule summary_of_simps)
  ultimately show ?thesis by fastforce
qed

subsection \<open>Properties\<close>

text \<open>
  C4. What a blocking send reports is what the SQLite sink stored: when \<open>send\<close> returns a report of a
  delivery that was delivered, partial or failed, the signal's row has that status, provider list
  and error, and each provider of the report has its own row, whatever failed to be stored before.
\<close>

theorem send_report_is_stored:
  assumes "send (sqlite_sink env) w ms sched i cl = (Inr rep, cl')"
    and "dr_status (sr_result rep) \<in> {Delivered, Partial, Failed}"
    and "\<And>book. cl_alerts cl = Some book \<Longrightarrow> wf_alist book"
  shows "stored_status (cl_sink cl') (sr_signal_id rep) =
      Some (dr_status (sr_result rep), dr_provider (sr_result rep), dr_error (sr_result rep)) \<and>
    (\<forall>x \<in> set (dr_deliveries (sr_result rep)).
      stored_outcome (cl_sink cl') (sr_signal_id rep) (po_provider x) = Some (po_status x, po_error x, po_attempts x))"
  using sqlite_client.send_stored [OF assms(1,2)] sqlite_client.send_stored_outcomes [OF assms] by blast

theorem send_report_is_stored_witness:
  "\<exists>rep cl'. send (sqlite_sink sample_sink_env) sample_world 1000 [0, 0] sample_input (sample_client None None []) = (Inr rep, cl') \<and>
     stored_outcome (cl_sink cl') ''id-1'' ''console'' = Some (Delivered, None, 1)"
proof -
  let ?x = "\<lparr>po_provider = ''console'', po_status = Delivered, po_error = None, po_attempts = 1\<rparr>"
  obtain rep cl' where s: "send (sqlite_sink sample_sink_env) sample_world 1000 [0, 0] sample_input (sample_client None None []) = (Inr rep, cl')"
    and d: "dr_status (sr_result rep) = Delivered" and i: "sr_signal_id rep = ''id-1''" and x: "?x \<in> set (dr_deliveries (sr_result rep))"
    using sample_send [of None None] by blast
  have "dr_status (sr_result rep) \<in> {Delivered, Partial, Failed}" using d by simp
  from send_report_is_stored [OF s this] have "\<forall>x \<in> set (dr_deliveries (sr_result rep)).
      stored_outcome (cl_sink cl') (sr_signal_id rep) (po_provider x) = Some (po_status x, po_error x, po_attempts x)"
    by simp
  from bspec [OF this x] s i show ?thesis by simp
qed

text \<open>
  C24. A trigger that reached nobody does not count as sent: after a blocking send whose result is
  \<open>Failed\<close>, the live send history of the client's throttle table is the one from before, so the
  next occurrence is not suppressed. This is for a trigger of which no route holds a copy for a digest
  (a held copy keeps its record, see C36), a client with a throttle table whose release statements
  work, and routes whose windows are those of their key.
\<close>

theorem failed_send_does_not_count:
  assumes "send sk w ms sched i cl = (Inr rep, cl')" and "dr_status (sr_result rep) = Failed"
    and "in_action i = Trigger" and "cl_rows cl = Some rows" and "w_release_fault w = no_row_fault"
    and "grouped (pp_plan (fst (prepare w (cl_pipeline cl) i (cl_rows cl) (cl_alerts cl)))) = []"
    and "\<forall>r \<in> set (pl_routes (cl_pipeline cl)). conf_knows conf (w_rkey w) r"
  shows "\<exists>rows'. cl_rows cl' = Some rows' \<and>
     live_rows conf (w_now_ms w) (rows', []) = live_rows conf (w_now_ms w) (rows, [])"
  by (rule failed_send_rows [OF assms])

definition dedup_route :: route where
  "dedup_route = (sample_route [] [''console''])\<lparr>dedup := Some 10\<rparr>"

definition dedup_conf :: route_conf where
  "dedup_conf rk = (Some 10, None)"

lemma sample_prepare_dedup:
  "prepare sample_world (cl_pipeline (sample_client (Some []) None [dedup_route])) sample_input (Some []) None =
     (\<lparr>pp_signal = from_input (\<lambda>x. x) ''id-1'' 0 sample_input,
       pp_plan = \<lparr>targets = [[''console'']], suppressed = [], grouped = []\<rparr>,
       pp_admission = [(''r'', ''etl.load'', 9000)], pp_prior_refs = []\<rparr>, Some [(''r'', ''etl.load'', 9000)])"
proof -
  have m: "matches (match_rule dedup_route) sg" for sg
    by (simp add: dedup_route_def sample_route_def matches_def matches_any_severity_def)
  have r: "gates_signals dedup_route" "\<not> is_grouped dedup_route" "group_window dedup_route = None" "dedup dedup_route = Some 10"
    "route_rate_limit dedup_route = None" "mode dedup_route = Failover" "providers dedup_route = [''console'']"
    by (simp_all add: dedup_route_def sample_route_def gates_signals_def is_grouped_def is_throttled_def group_window_def)
  have k: "effective_dedup_key (\<lambda>x. x) sample_input = ''etl.load''" "in_action sample_input = Trigger"
    by (simp_all add: effective_dedup_key_def sample_input_def default_input_def)
  have a: "admit (\<lambda>_. ''r'') no_fault dedup_route (from_input (\<lambda>x. x) ''id-1'' 0 sample_input) 9000 ([], []) =
      (Inr (), [(''r'', ''etl.load'', 9000)], [(''r'', ''etl.load'', 9000)])"
    by (simp add: admit_def check_def try_admit_def r k no_fault_def dedup_reason_def last_sent_def prune_def
        keep_window_def millis_def i64_max_def Let_def)
  show ?thesis
    by (simp add: prepare_def sample_world_def k plan_signal_def plan_with_def plan_route_def empty_acc_def m r a Let_def)
qed

lemma sample_failed_send:
  "\<exists>rep cl'. send (sqlite_sink sample_sink_env) sample_world 1000 [] sample_input (sample_client (Some []) None [dedup_route]) = (Inr rep, cl') \<and>
     dr_status (sr_result rep) = Failed"
proof -
  let ?cl = "sample_client (Some []) None [dedup_route]"
  let ?p = "\<lparr>targets = [[''console'']], suppressed = [], grouped = []\<rparr> :: delivery_plan"
  let ?pp = "\<lparr>pp_signal = from_input (\<lambda>x. x) ''id-1'' 0 sample_input, pp_plan = ?p,
       pp_admission = [(''r'', ''etl.load'', 9000)], pp_prior_refs = []\<rparr>"
  let ?rows = "Some [(''r'', ''etl.load'', 9000)]"
  let ?cl2 = "record_signal (sqlite_sink sample_sink_env) (pp_signal ?pp) (?cl\<lparr>cl_rows := ?rows\<rparr>)"
  let ?tk = "new_tracker (pp_signal ?pp) (cl_sink ?cl2) []"
  let ?r = "summarize ?p [] (Some (''timed out after '' @ debug_duration 1000))"
  have pr: "prepare sample_world (cl_pipeline ?cl) sample_input (cl_rows ?cl) (cl_alerts ?cl) = (?pp, ?rows)"
    using sample_prepare_dedup by (simp only: sample_client_simps)
  have t: "targets (pp_plan ?pp) \<noteq> []" by simp
  have h: "hold sample_world (pl_routes (cl_pipeline ?cl)) (pp_plan ?pp) (pp_signal ?pp) False (pp_admission ?pp) ?cl2 =
      (pp_admission ?pp, ?cl2)" by (simp add: hold_none)
  have "tk_outcomes ?tk = []" by (simp add: new_tracker_def)
  then have d: "deliver_within (sqlite_sink sample_sink_env) (pl_providers (cl_pipeline ?cl)) (pp_plan ?pp) 1000 []
      (new_tracker (pp_signal ?pp) (cl_sink ?cl2) (pp_prior_refs ?pp)) = (?r, ?tk)"
    by (simp add: deliver_within_def start_chains_def all_finished_def)
  have c: "fst (sk_complete (sqlite_sink sample_sink_env) (pp_signal ?pp) ?r (tk_sink ?tk)) = Inr ()"
    using sample_complete by (simp add: sqlite_sink_def)
  have "dr_status ?r = Failed" by (simp add: summarize_status tried_def List.map_filter_def find_outcome_def reached_def)
  with send_eq [OF sample_input_valid pr t h d c] show ?thesis by auto
qed

theorem failed_send_does_not_count_witness:
  "\<exists>rep cl'. send (sqlite_sink sample_sink_env) sample_world 1000 [] sample_input (sample_client (Some []) None [dedup_route]) = (Inr rep, cl') \<and>
     (\<exists>rows'. cl_rows cl' = Some rows' \<and> live_rows dedup_conf 9000 (rows', []) = {#})"
proof -
  let ?cl = "sample_client (Some []) None [dedup_route]"
  obtain rep cl' where s: "send (sqlite_sink sample_sink_env) sample_world 1000 [] sample_input ?cl = (Inr rep, cl')"
    and f: "dr_status (sr_result rep) = Failed" using sample_failed_send by blast
  have "in_action sample_input = Trigger" "w_release_fault sample_world = no_row_fault"
    by (simp_all add: sample_input_def default_input_def sample_world_def)
  moreover have "grouped (pp_plan (fst (prepare sample_world (cl_pipeline ?cl) sample_input (cl_rows ?cl) (cl_alerts ?cl)))) = []"
    using sample_prepare_dedup by simp
  moreover have "\<forall>r \<in> set (pl_routes (cl_pipeline ?cl)). conf_knows dedup_conf (w_rkey sample_world) r"
    by (simp add: conf_knows_def dedup_conf_def dedup_route_def sample_route_def is_grouped_def sample_world_def)
  ultimately have "\<exists>rows'. cl_rows cl' = Some rows' \<and>
     live_rows dedup_conf (w_now_ms sample_world) (rows', []) = live_rows dedup_conf (w_now_ms sample_world) ([], [])"
    using failed_send_does_not_count [OF s f] by simp
  moreover have "w_now_ms sample_world = 9000" by (simp add: sample_world_def)
  ultimately show ?thesis using s by (auto simp: live_rows_def)
qed

text \<open>
  C13. An acknowledge or resolve goes exactly to the configured providers that hold its alert; when none
  does, to the providers that resolve by key on routes matching the signal whatever its severity.
\<close>

theorem lifecycle_goes_where_the_alert_is:
  assumes "wf_alist book" and "is_lifecycle (in_action i)" and "\<not> w_read_fault w"
    and "prepare w pl i rows_opt (Some book) = (pp, rows1)"
  shows "set (plan_providers (pp_plan pp)) =
    (let held = {n. holds_alert book (effective_dedup_key (w_sha w) i) n \<and> known (pl_providers pl) n}
     in if held \<noteq> {} then held
        else {n \<in> set (providers_any_severity (pl_routes pl) (pp_signal pp)).
                \<exists>pv. map_of (pl_providers pl) n = Some pv \<and> pv_resolves_by_key pv})"
  by (rule lifecycle_targets [OF assms])

text \<open>
  An acknowledge or resolve is never throttled and never counted: whatever its outcome, a blocking
  send leaves the throttle table exactly as it was.
\<close>

theorem lifecycle_never_throttled:
  assumes "is_lifecycle (in_action i)"
  shows "cl_rows (snd (send sk w ms sched i cl)) = cl_rows cl"
  by (rule lifecycle_rows [OF assms])

definition resolve_etl :: signal_input where
  "resolve_etl = sample_input\<lparr>in_action := Resolve\<rparr>"

definition console_book :: alert_book where
  "console_book = [((''etl.load'', ''console''),
     \<lparr>al_state = ''open'', al_ref = None, al_title = ''Load failed'', al_signal_id = ''id-0'', al_updated_at = ''t''\<rparr>)]"

theorem lifecycle_goes_where_the_alert_is_witness:
  "set (plan_providers (pp_plan (fst (prepare sample_world (cl_pipeline (sample_client None None [])) resolve_etl None (Some console_book)))))
     = {''console''}"
proof -
  have "wf_alist console_book" "is_lifecycle (in_action resolve_etl)" "\<not> w_read_fault sample_world"
    by (simp_all add: console_book_def wf_alist_def resolve_etl_def sample_world_def)
  from lifecycle_goes_where_the_alert_is [OF this prod.collapse [symmetric], of "cl_pipeline (sample_client None None [])" None]
  show ?thesis
    by (simp add: holds_alert_def state_of_def console_book_def effective_dedup_key_def resolve_etl_def sample_input_def known_def)
qed

theorem lifecycle_never_throttled_witness:
  "cl_rows (snd (send (sqlite_sink sample_sink_env) sample_world 1000 [0, 0] resolve_etl (sample_client (Some []) (Some console_book) []))) = Some []"
proof -
  have "is_lifecycle (in_action resolve_etl)" by (simp add: resolve_etl_def)
  then show ?thesis by (subst lifecycle_never_throttled) simp_all
qed

text \<open>
  C19. \<open>notify_async\<close> is \<open>send\<close> without the wait: when its background task is run to the end under some
  schedule, the sink, the send history and the alert book end up exactly as after a blocking send
  under that schedule, and a report of the latter carries the task's result.
\<close>

theorem async_is_sync_without_the_wait:
  assumes "is_ok (validate i)"
    and "targets (pp_plan (fst (prepare w (cl_pipeline cl) i (cl_rows cl) (cl_alerts cl)))) \<noteq> []"
    and "last (cl_tasks (notify_async sk w i cl)) = Deliver_Task pl qq"
    and "run_deliver_task sk w sched pl qq (notify_async sk w i cl) = Some (r, cl3)"
  shows "\<exists>u cl'. send sk w ms sched i cl = (u, cl') \<and> (\<forall>rep. u = Inr rep \<longrightarrow> sr_result rep = r) \<and>
     cl_sink cl3 = cl_sink cl' \<and> cl_rows cl3 = cl_rows cl' \<and> cl_alerts cl3 = cl_alerts cl'"
proof -
  obtain pp rows1 where p: "prepare w (cl_pipeline cl) i (cl_rows cl) (cl_alerts cl) = (pp, rows1)" by fastforce
  from assms(1) have v: "validate i = Inr ()" by (simp add: is_ok_iff)
  from assms(2) p have t: "targets (pp_plan pp) \<noteq> []" by simp
  obtain u cl' where "send sk w ms sched i cl = (u, cl')" "\<And>rep. u = Inr rep \<Longrightarrow> sr_result rep = r"
    "cl_sink cl3 = cl_sink cl'" "cl_rows cl3 = cl_rows cl'" "cl_alerts cl3 = cl_alerts cl'"
    by (rule async_then_task [OF v p t assms(3,4), of ms]) blast
  then show ?thesis by blast
qed

lemma sample_async:
  "\<exists>r cl3. last (cl_tasks (notify_async (sqlite_sink sample_sink_env) sample_world sample_input (sample_client None None []))) =
      Deliver_Task (cl_pipeline (sample_client None None []))
        (fst (prepare sample_world (cl_pipeline (sample_client None None [])) sample_input None None)) \<and>
     run_deliver_task (sqlite_sink sample_sink_env) sample_world [0, 0] (cl_pipeline (sample_client None None []))
        (fst (prepare sample_world (cl_pipeline (sample_client None None [])) sample_input None None))
        (notify_async (sqlite_sink sample_sink_env) sample_world sample_input (sample_client None None [])) = Some (r, cl3)"
proof -
  let ?cl = "sample_client None None []"
  let ?n = "notify_async (sqlite_sink sample_sink_env) sample_world sample_input ?cl"
  let ?sg = "from_input (\<lambda>x. x) ''id-1'' 0 sample_input"
  have p: "prepare sample_world (cl_pipeline ?cl) sample_input (cl_rows ?cl) (cl_alerts ?cl) =
     (\<lparr>pp_signal = ?sg, pp_plan = \<lparr>targets = [[''console'']], suppressed = [], grouped = []\<rparr>, pp_admission = [], pp_prior_refs = []\<rparr>, None)"
    using sample_prepare [of None None] by (simp only: sample_client_simps)
  have l: "last (cl_tasks ?n) = Deliver_Task (cl_pipeline ?cl)
        (fst (prepare sample_world (cl_pipeline ?cl) sample_input (cl_rows ?cl) (cl_alerts ?cl)))"
    using sample_prepare [of None None, simplified]
    by (simp add: notify_async_def sample_input_valid Let_def hold_none)
  obtain tk' where d: "deliver (sqlite_sink sample_sink_env) [(''console'', plain_provider ''console'' (\<lambda>_ _. Ok ()))]
      \<lparr>targets = [[''console'']], suppressed = [], grouped = []\<rparr> [0, 0] (new_tracker ?sg (cl_sink ?n) []) =
    Some (summary_of \<lparr>targets = [[''console'']], suppressed = [], grouped = []\<rparr>
      [[\<lparr>po_provider = ''console'', po_status = Delivered, po_error = None, po_attempts = 1\<rparr>]], tk')"
    using sample_deliver [of "sqlite_sink sample_sink_env" ?sg "cl_sink ?n" "[]"] by (elim exE)
  have "\<exists>r cl3. run_deliver_task (sqlite_sink sample_sink_env) sample_world [0, 0] (cl_pipeline ?cl)
        (fst (prepare sample_world (cl_pipeline ?cl) sample_input (cl_rows ?cl) (cl_alerts ?cl))) ?n = Some (r, cl3)"
    using d unfolding run_deliver_task_def p by (simp add: case_prod_beta Let_def)
  with l show ?thesis by (simp only: sample_client_simps) blast
qed

theorem async_is_sync_without_the_wait_witness:
  "\<exists>r u cl' cl3. run_deliver_task (sqlite_sink sample_sink_env) sample_world [0, 0] (cl_pipeline (sample_client None None []))
        (fst (prepare sample_world (cl_pipeline (sample_client None None [])) sample_input None None))
        (notify_async (sqlite_sink sample_sink_env) sample_world sample_input (sample_client None None [])) = Some (r, cl3) \<and>
     send (sqlite_sink sample_sink_env) sample_world 1000 [0, 0] sample_input (sample_client None None []) = (u, cl') \<and>
     cl_sink cl3 = cl_sink cl'"
proof -
  let ?cl = "sample_client None None []"
  obtain r cl3 where l: "last (cl_tasks (notify_async (sqlite_sink sample_sink_env) sample_world sample_input ?cl)) =
      Deliver_Task (cl_pipeline ?cl) (fst (prepare sample_world (cl_pipeline ?cl) sample_input None None))"
    and run: "run_deliver_task (sqlite_sink sample_sink_env) sample_world [0, 0] (cl_pipeline ?cl)
        (fst (prepare sample_world (cl_pipeline ?cl) sample_input None None))
        (notify_async (sqlite_sink sample_sink_env) sample_world sample_input ?cl) = Some (r, cl3)"
    using sample_async by blast
  have v: "is_ok (validate sample_input)" by (simp add: sample_input_valid)
  have t: "targets (pp_plan (fst (prepare sample_world (cl_pipeline ?cl) sample_input (cl_rows ?cl) (cl_alerts ?cl)))) \<noteq> []"
    using sample_prepare [of None None] by simp
  from async_is_sync_without_the_wait [OF v t l run, of 1000] run show ?thesis by blast
qed

text \<open>
  A digest's outcome reaches its members: after a group was sent over a SQLite sink that can be
  written, the stored row of every member that was waiting on the digest has the digest's status,
  providers and error (members with ids of their own, as fresh signals have).
\<close>

theorem digest_outcome_reaches_members:
  assumes "run_group_task (sqlite_sink env) w sched c cl = Some (r, cl')"
    and "\<And>sg. se_payload env sg \<noteq> None" and "\<And>sg. se_insert_fault env sg = None" and "\<And>sg p. se_outcome_fault env sg p = None"
    and "m \<in> set (cg_members c)" and "mb_owns_row m"
    and "\<And>m'. m' \<in> set (cg_members c) \<Longrightarrow> sg_id (mb_signal m') = sg_id (mb_signal m) \<Longrightarrow> m' = m"
  shows "stored_status (cl_sink cl') (sg_id (mb_signal m)) = Some (dr_status r, dr_provider r, dr_error r)"
proof -
  obtain cl4 where cl': "cl' = finish_task (complete_members (sqlite_sink env) r (cg_members c) cl4)"
    using run_group_task_members [OF assms(1)] by blast
  have "fst (sqlite_complete env sg r s) = Inr ()" for sg s using assms(2-4) by (intro sqlite_complete_works) auto
  from sqlite_client.complete_members_stored [OF this assms(5,6,7), of cl4]
  show ?thesis by (simp add: cl')
qed

text \<open>
  C36. A digest held back by its route's \<open>rate_limit\<close> keeps its members' \<open>dedup\<close> records: the result is
  \<open>Skipped\<close>, which \<open>settle\<close> does not treat as a failure, so the send history is left as it was and
  the members still count as sent although no provider got them.
\<close>

theorem suppressed_digest_keeps_member_sends:
  assumes "group_plan w c (group_signal w c) (cl_rows cl) = (p, adm, rows')" and "targets p = []"
    and "providers (cg_route c) \<noteq> []" and "run_group_task sk w sched c cl = Some (r, cl')"
  shows "dr_status r = Skipped \<and> cl_rows cl' = cl_rows cl"
  by (rule suppressed_group_rows [OF assms])

definition limited_route :: route where
  "limited_route = (sample_route [] [''console''])\<lparr>dedup := Some 600, group_wait := Some 30,
     route_rate_limit := Some \<lparr>rl_max = 1, rl_per = 60\<rparr>\<rparr>"

definition limited_group :: closed_group where
  "limited_group = \<lparr>cg_route = limited_route, cg_by = [],
     cg_members = [\<lparr>mb_signal = sample_signal, mb_admission = [(''r'', ''k'', 8000)], mb_owns_row = True\<rparr>]\<rparr>"

definition limited_rows :: "row list" where
  "limited_rows = [(''r'', ''k'', 8000), (''r#digest'', ''d'', 8500)]"

lemma limited_group_plan:
  "\<exists>p adm rows'. group_plan sample_world limited_group (group_signal sample_world limited_group) (Some limited_rows) = (p, adm, rows') \<and>
     targets p = []"
proof -
  have "\<exists>why. admit_digest (\<lambda>_. ''r'') no_fault limited_route sg 9000 (limited_rows, []) = (Inl why, limited_rows, [])" for sg
    by (simp add: admit_digest_def limited_route_def check_def try_admit_def no_fault_def rate_reason_def count_since_def
        limited_rows_def millis_def i64_max_def Let_def)
  from this [of "group_signal sample_world limited_group"] show ?thesis
    by (auto simp: group_plan_def sample_world_def limited_group_def)
qed

lemma limited_group_runs:
  obtains r cl' where "run_group_task (sqlite_sink sample_sink_env) sample_world [] limited_group
      (sample_client (Some limited_rows) None [limited_route]) = Some (r, cl')"
proof -
  let ?cl = "sample_client (Some limited_rows) None [limited_route]"
  obtain p adm rows' where plan: "group_plan sample_world limited_group (group_signal sample_world limited_group) (cl_rows ?cl) = (p, adm, rows')"
    and t: "targets p = []" using limited_group_plan by (simp only: sample_client_simps) blast
  have "length (cg_members limited_group) = 1" by (simp add: limited_group_def)
  with plan deliver_no_targets [OF t, of "sqlite_sink sample_sink_env" "pl_providers (cl_pipeline ?cl)" "[]"
      "new_tracker (group_signal sample_world limited_group) (cl_sink ?cl) []"]
  have "run_group_task (sqlite_sink sample_sink_env) sample_world [] limited_group ?cl \<noteq> None"
    by (simp add: run_group_task_def Let_def case_prod_beta)
  then show thesis using that by auto
qed

theorem suppressed_digest_keeps_member_sends_witness:
  "\<exists>r cl'. run_group_task (sqlite_sink sample_sink_env) sample_world [] limited_group
      (sample_client (Some limited_rows) None [limited_route]) = Some (r, cl') \<and>
     dr_status r = Skipped \<and> (''r'', ''k'', 8000) \<in> set (the (cl_rows cl'))"
proof -
  let ?cl = "sample_client (Some limited_rows) None [limited_route]"
  obtain p adm rows' where plan: "group_plan sample_world limited_group (group_signal sample_world limited_group) (cl_rows ?cl) = (p, adm, rows')"
    and t: "targets p = []" using limited_group_plan by (simp only: sample_client_simps) blast
  have pr: "providers (cg_route limited_group) \<noteq> []" by (simp add: limited_group_def limited_route_def sample_route_def)
  obtain r cl' where run: "run_group_task (sqlite_sink sample_sink_env) sample_world [] limited_group ?cl = Some (r, cl')"
    by (rule limited_group_runs)
  from suppressed_digest_keeps_member_sends [OF plan t pr run] run show ?thesis by (simp add: limited_rows_def)
qed

theorem digest_outcome_reaches_members_witness:
  "\<exists>r cl'. run_group_task (sqlite_sink sample_sink_env) sample_world [] limited_group
      (sample_client (Some limited_rows) None [limited_route]) = Some (r, cl') \<and>
     stored_status (cl_sink cl') (sg_id sample_signal) = Some (dr_status r, dr_provider r, dr_error r)"
proof -
  let ?m = "\<lparr>mb_signal = sample_signal, mb_admission = [(''r'', ''k'', 8000)], mb_owns_row = True\<rparr>"
  obtain r cl' where run: "run_group_task (sqlite_sink sample_sink_env) sample_world [] limited_group
      (sample_client (Some limited_rows) None [limited_route]) = Some (r, cl')"
    by (rule limited_group_runs)
  have "stored_status (cl_sink cl') (sg_id (mb_signal ?m)) = Some (dr_status r, dr_provider r, dr_error r)"
    by (rule digest_outcome_reaches_members [OF run]) (simp_all add: sample_sink_env_def limited_group_def)
  with run show ?thesis by auto
qed

end
