(* ===== verification/Provider_Payloads.thy ===== *)
theory Provider_Payloads
  imports Config_Data
begin

text \<open>
  The built-in providers of \<^verbatim>\<open>crates/core/src/providers/\<close>: what each sends for a signal, and how it
  reads the answer. HTTP, the e-mail library and the template engine are the parameters gathered in
  \<open>net\<close>; an answer may depend on the number of the attempt.
\<close>

record http_reply =
  hr_status :: nat
  hr_json :: "(string, json) res"

record email_message =
  em_from :: string
  em_to :: "string list"
  em_cc :: "string list"
  em_subject :: string
  em_thread :: "string option"
  em_body :: string

record net =
  nt_jinja :: jinja
  nt_rfc :: "int \<Rightarrow> string"
  nt_sha :: "string \<Rightarrow> string"
  nt_post :: "string \<Rightarrow> string option \<Rightarrow> json \<Rightarrow> nat \<Rightarrow> (string, http_reply) res"
  nt_status :: "nat \<Rightarrow> string"
  nt_parse_json :: "string \<Rightarrow> json option"
  nt_json_text :: "json \<Rightarrow> string"
  nt_json_pretty :: "json \<Rightarrow> string option"
  nt_url_push :: "string \<Rightarrow> string list \<Rightarrow> (string, string) res"
  nt_mailbox :: "string \<Rightarrow> (string, string) res"
  nt_smtp :: "smtp_config \<Rightarrow> email_message \<Rightarrow> nat \<Rightarrow> (string, unit) res"
  nt_build :: "email_message \<Rightarrow> (string, unit) res"
  nt_ses_raw :: "(string option \<Rightarrow> string option \<Rightarrow> email_message \<Rightarrow> nat \<Rightarrow> (signal_error, unit) res) option"
  nt_addons :: addons
  nt_email_json :: "email_config \<Rightarrow> (string, string) res"
  nt_signal_text :: "signal \<Rightarrow> (string, string) res"

definition is_success :: "nat \<Rightarrow> bool" where
  "is_success s = (200 \<le> s \<and> s \<le> 299)"

definition truncate :: "string \<Rightarrow> nat \<Rightarrow> string" where
  "truncate s max_chars = (if length s > max_chars then take max_chars s else s)"

definition upper_char :: "char \<Rightarrow> char" where
  "upper_char c = (if CHR ''a'' \<le> c \<and> c \<le> CHR ''z'' then char_of (of_char c - (32 :: nat)) else c)"

text \<open>Sending JSON and turning the answer into the provider's result.\<close>

definition post_json :: "net \<Rightarrow> string \<Rightarrow> string \<Rightarrow> string option \<Rightarrow> json \<Rightarrow> nat \<Rightarrow> (signal_error, http_reply) res" where
  "post_json net what url auth body k =
     (case nt_post net url auth body k of
        Inl e \<Rightarrow> Err (Delivery_Error e)
      | Inr reply \<Rightarrow>
          (if \<not> is_success (hr_status reply)
           then Err (Delivery_Error (what @ '' returned status '' @ nt_status net (hr_status reply)))
           else Ok reply))"

definition optional_fields :: "(string \<times> string option) list \<Rightarrow> (string \<times> json) list" where
  "optional_fields xs = concat (map (\<lambda>(k, v). case v of None \<Rightarrow> [] | Some s \<Rightarrow> [(k, JStr s)]) xs)"

subsection \<open>Console\<close>

text \<open>The dash of the line is U+2014, kept as its UTF-8 bytes. Printing cannot fail.\<close>

definition console_line :: "net \<Rightarrow> templates option \<Rightarrow> signal \<Rightarrow> string" where
  "console_line net ts sg =
     unwrap_or
       (let tag = (case action_label (sg_action sg) of
               Some label \<Rightarrow> to_lowercase label
             | None \<Rightarrow> severity_display (sg_severity sg))
        in ''[signal:'' @ sg_source sg @ ''] '' @ tag @ '' '' @ sg_event_type sg @ '' '' @
           [CHR 0xE2, CHR 0x80, CHR 0x94] @ '' '' @ sg_title sg)
       (render (nt_jinja net) (nt_rfc net) ts ''text'' sg [])"

definition console_provider :: "net \<Rightarrow> templates option \<Rightarrow> provider" where
  "console_provider net ts = \<lparr>pv_name = ''console'',
     pv_send_with_ref = default_send_with_ref (\<lambda>_ _. Ok ()), pv_resolves_by_key = False,
     pv_preview = (\<lambda>sg. Some (JObj [(''text'', JStr (console_line net ts sg))]))\<rparr>"

subsection \<open>Webhook\<close>

definition webhook_body :: "net \<Rightarrow> templates option \<Rightarrow> signal \<Rightarrow> json" where
  "webhook_body net ts sg =
     (case render (nt_jinja net) (nt_rfc net) ts ''body'' sg [] of
        Some text \<Rightarrow>
          (case nt_parse_json net text of Some body \<Rightarrow> body | None \<Rightarrow> signal_json (nt_rfc net) sg)
      | None \<Rightarrow> signal_json (nt_rfc net) sg)"

definition webhook_send :: "net \<Rightarrow> string \<Rightarrow> templates option \<Rightarrow> signal \<Rightarrow> nat \<Rightarrow> (signal_error, unit) res" where
  "webhook_send net url ts sg k = and_then (post_json net ''webhook'' url None (webhook_body net ts sg) k) (\<lambda>_. Ok ())"

definition webhook_provider :: "net \<Rightarrow> string \<Rightarrow> templates option \<Rightarrow> provider" where
  "webhook_provider net url ts = \<lparr>pv_name = ''webhook'',
     pv_send_with_ref = default_send_with_ref (webhook_send net url ts), pv_resolves_by_key = False,
     pv_preview = (\<lambda>sg. Some (webhook_body net ts sg))\<rparr>"

subsection \<open>PagerDuty\<close>

definition DEFAULT_EVENTS_URL :: string where
  "DEFAULT_EVENTS_URL = ''https://events.pagerduty.com/v2/enqueue''"

definition MAX_SUMMARY_CHARS :: nat where "MAX_SUMMARY_CHARS = 1024"

definition MAX_DEDUP_KEY_CHARS :: nat where "MAX_DEDUP_KEY_CHARS = 255"

fun pd_severity :: "severity \<Rightarrow> string" where
  "pd_severity Info = ''info''"
| "pd_severity Success = ''info''"
| "pd_severity Warning = ''warning''"
| "pd_severity Error = ''error''"
| "pd_severity Critical = ''critical''"

definition pd_details :: "signal \<Rightarrow> (string \<times> json) list" where
  "pd_details sg =
     [(''signal_id'', JStr (sg_id sg)), (''event_type'', JStr (sg_event_type sg)),
      (''severity'', JStr (severity_display (sg_severity sg)))] @
     optional_fields [(''message'', sg_message sg), (''environment'', sg_environment sg), (''team'', sg_team sg),
       (''run_id'', sg_run_id sg), (''correlation_id'', sg_correlation_id sg), (''trace_id'', sg_trace_id sg)] @
     (case as_object (sg_metadata sg) of Some (x # xs) \<Rightarrow> [(''metadata'', sg_metadata sg)] | _ \<Rightarrow> [])"

definition pd_payload :: "net \<Rightarrow> templates option \<Rightarrow> signal \<Rightarrow> json" where
  "pd_payload net ts sg =
     (let summary = unwrap_or (sg_title sg) (render (nt_jinja net) (nt_rfc net) ts ''summary'' sg []);
          p0 = JObj [(''summary'', JStr (truncate summary MAX_SUMMARY_CHARS)), (''source'', JStr (sg_source sg)),
                 (''severity'', JStr (pd_severity (sg_severity sg))), (''timestamp'', JStr (nt_rfc net (sg_timestamp sg))),
                 (''class'', JStr (sg_event_type sg)), (''custom_details'', JObj (pd_details sg))];
          p1 = (case sg_component sg of Some c \<Rightarrow> jset ''component'' (JStr c) p0 | None \<Rightarrow> p0)
      in (case sg_service sg of Some s \<Rightarrow> jset ''group'' (JStr s) p1 | None \<Rightarrow> p1))"

definition pd_event :: "net \<Rightarrow> string \<Rightarrow> templates option \<Rightarrow> signal \<Rightarrow> json" where
  "pd_event net routing_key ts sg =
     (if is_lifecycle (sg_action sg) then
        JObj [(''routing_key'', JStr routing_key),
              (''event_action'', JStr (case sg_action sg of Acknowledge \<Rightarrow> ''acknowledge'' | _ \<Rightarrow> ''resolve'')),
              (''dedup_key'', JStr (truncate (unwrap_or [] (sg_dedup_key sg)) MAX_DEDUP_KEY_CHARS))]
      else
        (let e0 = JObj [(''routing_key'', JStr routing_key), (''event_action'', JStr ''trigger''),
                        (''payload'', pd_payload net ts sg)];
             e1 = (case sg_dedup_key sg of
                 Some key \<Rightarrow> jset ''dedup_key'' (JStr (truncate key MAX_DEDUP_KEY_CHARS)) e0 | None \<Rightarrow> e0)
         in (case sg_log_url sg of
               Some u \<Rightarrow> jset ''links'' (JArr [JObj [(''href'', JStr u), (''text'', JStr ''Logs'')]]) e1
             | None \<Rightarrow> e1)))"

definition pd_send :: "net \<Rightarrow> string \<Rightarrow> string \<Rightarrow> templates option \<Rightarrow> signal \<Rightarrow> nat \<Rightarrow> (signal_error, unit) res" where
  "pd_send net routing_key url ts sg k =
     and_then (post_json net ''pagerduty events API'' url None (pd_event net routing_key ts sg) k) (\<lambda>_. Ok ())"

definition pagerduty_provider :: "net \<Rightarrow> string \<Rightarrow> string option \<Rightarrow> templates option \<Rightarrow> provider" where
  "pagerduty_provider net routing_key url ts = \<lparr>pv_name = ''pagerduty'',
     pv_send_with_ref = default_send_with_ref (pd_send net routing_key (unwrap_or DEFAULT_EVENTS_URL url) ts),
     pv_resolves_by_key = True,
     pv_preview = (\<lambda>sg. Some (jset ''routing_key'' (JStr ''<redacted>'') (pd_event net routing_key ts sg)))\<rparr>"

subsection \<open>Slack\<close>

definition DEFAULT_API_URL :: string where "DEFAULT_API_URL = ''https://slack.com/api''"

datatype slack_target = Slack_Webhook string | Slack_Bot string string string

definition trim_end_slashes :: "string \<Rightarrow> string" where
  "trim_end_slashes s = rev (dropWhile (\<lambda>c. c = CHR ''/'') (rev s))"

definition slack_with_bot :: "string \<Rightarrow> string \<Rightarrow> string option \<Rightarrow> slack_target" where
  "slack_with_bot token channel api_url =
     Slack_Bot token channel (trim_end_slashes (unwrap_or DEFAULT_API_URL api_url))"

fun emoji_for :: "severity \<Rightarrow> string" where
  "emoji_for Info = '':information_source:''"
| "emoji_for Success = '':white_check_mark:''"
| "emoji_for Warning = '':warning:''"
| "emoji_for Error = '':x:''"
| "emoji_for Critical = '':rotating_light:''"

definition emoji_for_signal :: "signal \<Rightarrow> string" where
  "emoji_for_signal sg = (case sg_action sg of
      Trigger \<Rightarrow> emoji_for (sg_severity sg) | Acknowledge \<Rightarrow> '':eyes:'' | Resolve \<Rightarrow> '':white_check_mark:'')"

definition slack_body :: "net \<Rightarrow> templates option \<Rightarrow> signal \<Rightarrow> json" where
  "slack_body net ts sg =
     (let emoji = emoji_for_signal sg;
          said = (case sg_action sg of Trigger \<Rightarrow> [] | Acknowledge \<Rightarrow> ''Acknowledged: '' | Resolve \<Rightarrow> ''Resolved: '')
      in JObj [(''text'', JStr (unwrap_or
           (emoji @ '' *'' @ said @ sg_title sg @ ''*'' @ [CHR 0x0A] @ unwrap_or [] (sg_message sg))
           (render (nt_jinja net) (nt_rfc net) ts ''text'' sg [(''emoji'', JStr emoji)])))])"

definition slack_post :: "net \<Rightarrow> string \<Rightarrow> string option \<Rightarrow> json \<Rightarrow> nat \<Rightarrow> (signal_error, json) res" where
  "slack_post net url token body k =
     and_then (post_json net (''slack '' @ (if token \<noteq> None then ''web API'' else ''webhook'')) url token body k)
       (\<lambda>reply.
          if token = None then Ok JNull
          else
            (case hr_json reply of
               Inl e \<Rightarrow> Err (Delivery_Error (''slack web API reply: '' @ e))
             | Inr v \<Rightarrow>
                 (if as_bool (jindex v ''ok'') \<noteq> Some True
                  then Err (Delivery_Error (''slack web API error: '' @
                    unwrap_or ''unknown'' (as_str (jindex v ''error''))))
                  else Ok v)))"

definition slack_send :: "net \<Rightarrow> slack_target \<Rightarrow> templates option \<Rightarrow> signal \<Rightarrow> string option \<Rightarrow> nat \<Rightarrow> (signal_error, string option) res" where
  "slack_send net target ts sg alert_ref k =
     (let body = slack_body net ts sg in
      case target of
        Slack_Webhook url \<Rightarrow> and_then (slack_post net url None body k) (\<lambda>_. Ok None)
      | Slack_Bot token channel api_url \<Rightarrow>
          (let earlier = (case alert_ref of
                 None \<Rightarrow> None
               | Some r \<Rightarrow> if is_lifecycle (sg_action sg) then split_once CHR ''/'' r else None)
           in case earlier of
                Some (ch, t) \<Rightarrow>
                  and_then (slack_post net (api_url @ ''/chat.update'') (Some token)
                              (jset ''ts'' (JStr t) (jset ''channel'' (JStr ch) body)) k)
                    (\<lambda>_. Ok alert_ref)
              | None \<Rightarrow>
                  and_then (slack_post net (api_url @ ''/chat.postMessage'') (Some token)
                              (jset ''channel'' (JStr channel) body) k)
                    (\<lambda>reply. Ok (case (as_str (jindex reply ''channel''), as_str (jindex reply ''ts'')) of
                       (Some ch, Some t) \<Rightarrow> Some (ch @ ''/'' @ t)
                     | _ \<Rightarrow> None))))"

definition slack_provider :: "net \<Rightarrow> slack_target \<Rightarrow> templates option \<Rightarrow> provider" where
  "slack_provider net target ts = \<lparr>pv_name = ''slack'', pv_send_with_ref = slack_send net target ts,
     pv_resolves_by_key = False, pv_preview = (\<lambda>sg. Some (slack_body net ts sg))\<rparr>"

subsection \<open>Teams\<close>

fun color_for :: "severity \<Rightarrow> string" where
  "color_for Info = ''default''"
| "color_for Success = ''good''"
| "color_for Warning = ''warning''"
| "color_for Error = ''attention''"
| "color_for Critical = ''attention''"

definition fact :: "string \<Rightarrow> string \<Rightarrow> json" where
  "fact title val = JObj [(''title'', JStr title), (''value'', JStr val)]"

definition teams_facts :: "signal \<Rightarrow> json list" where
  "teams_facts sg =
     [fact ''Severity'' (severity_display (sg_severity sg)), fact ''Source'' (sg_source sg), fact ''Event'' (sg_event_type sg)] @
     concat (map (\<lambda>(title, v). case v of None \<Rightarrow> [] | Some x \<Rightarrow> [fact title x])
       [(''Environment'', sg_environment sg), (''Service'', sg_service sg), (''Component'', sg_component sg),
        (''Team'', sg_team sg), (''Run ID'', sg_run_id sg)])"

definition teams_body :: "net \<Rightarrow> templates option \<Rightarrow> signal \<Rightarrow> json list" where
  "teams_body net ts sg =
     (let title = unwrap_or (case action_label (sg_action sg) of
              Some label \<Rightarrow> label @ '': '' @ sg_title sg | None \<Rightarrow> sg_title sg)
            (render (nt_jinja net) (nt_rfc net) ts ''title'' sg []);
          message = or_opt (render (nt_jinja net) (nt_rfc net) ts ''text'' sg []) (sg_message sg)
      in [JObj [(''type'', JStr ''TextBlock''), (''text'', JStr title), (''weight'', JStr ''bolder''),
            (''size'', JStr ''medium''),
            (''color'', JStr (case sg_action sg of Trigger \<Rightarrow> color_for (sg_severity sg) | _ \<Rightarrow> ''good'')),
            (''wrap'', JBool True)]] @
         (case message of None \<Rightarrow> [] | Some m \<Rightarrow>
            [JObj [(''type'', JStr ''TextBlock''), (''text'', JStr m), (''wrap'', JBool True)]]) @
         [JObj [(''type'', JStr ''FactSet''), (''facts'', JArr (teams_facts sg))]])"

definition teams_card :: "net \<Rightarrow> templates option \<Rightarrow> signal \<Rightarrow> json" where
  "teams_card net ts sg =
     (let card0 = JObj [(''$schema'', JStr ''http://adaptivecards.io/schemas/adaptive-card.json''),
            (''type'', JStr ''AdaptiveCard''), (''version'', JStr ''1.4''), (''body'', JArr (teams_body net ts sg))];
          card = (case sg_log_url sg of None \<Rightarrow> card0 | Some u \<Rightarrow>
            jset ''actions'' (JArr [JObj [(''type'', JStr ''Action.OpenUrl''), (''title'', JStr ''View logs''), (''url'', JStr u)]]) card0)
      in JObj [(''type'', JStr ''message''),
               (''attachments'', JArr [JObj [(''contentType'', JStr ''application/vnd.microsoft.card.adaptive''),
                  (''contentUrl'', JNull), (''content'', card)]])])"

definition teams_send :: "net \<Rightarrow> string \<Rightarrow> templates option \<Rightarrow> signal \<Rightarrow> nat \<Rightarrow> (signal_error, unit) res" where
  "teams_send net url ts sg k = and_then (post_json net ''teams webhook'' url None (teams_card net ts sg) k) (\<lambda>_. Ok ())"

definition teams_provider :: "net \<Rightarrow> string \<Rightarrow> templates option \<Rightarrow> provider" where
  "teams_provider net url ts = \<lparr>pv_name = ''teams'',
     pv_send_with_ref = default_send_with_ref (teams_send net url ts), pv_resolves_by_key = False,
     pv_preview = (\<lambda>sg. Some (teams_card net ts sg))\<rparr>"

subsection \<open>Opsgenie\<close>

definition DEFAULT_ALERTS_URL :: string where
  "DEFAULT_ALERTS_URL = ''https://api.opsgenie.com/v2/alerts''"

definition MAX_MESSAGE_CHARS :: nat where "MAX_MESSAGE_CHARS = 130"
definition MAX_ALIAS_CHARS :: nat where "MAX_ALIAS_CHARS = 512"
definition MAX_DESCRIPTION_CHARS :: nat where "MAX_DESCRIPTION_CHARS = 15000"
definition MAX_SOURCE_CHARS :: nat where "MAX_SOURCE_CHARS = 100"
definition MAX_ENTITY_CHARS :: nat where "MAX_ENTITY_CHARS = 512"
definition MAX_TAGS :: nat where "MAX_TAGS = 20"
definition MAX_TAG_CHARS :: nat where "MAX_TAG_CHARS = 50"
definition MAX_NOTE_CHARS :: nat where "MAX_NOTE_CHARS = 25000"

fun priority_for :: "severity \<Rightarrow> string" where
  "priority_for Critical = ''P1''"
| "priority_for Error = ''P2''"
| "priority_for Warning = ''P3''"
| "priority_for Info = ''P5''"
| "priority_for Success = ''P5''"

text \<open>\<open>entry(key).or_insert(text)\<close>: a metadata key never replaces a field of the signal.\<close>

definition or_insert :: "string \<Rightarrow> json \<Rightarrow> (string \<times> json) list \<Rightarrow> (string \<times> json) list" where
  "or_insert k v al = (if map_of al k = None then al @ [(k, v)] else al)"

definition og_details :: "net \<Rightarrow> signal \<Rightarrow> (string \<times> json) list" where
  "og_details net sg =
     (let base = [(''signal_id'', JStr (sg_id sg)), (''event_type'', JStr (sg_event_type sg)),
            (''severity'', JStr (severity_display (sg_severity sg))), (''timestamp'', JStr (nt_rfc net (sg_timestamp sg)))] @
            optional_fields [(''environment'', sg_environment sg), (''service'', sg_service sg),
              (''component'', sg_component sg), (''team'', sg_team sg), (''run_id'', sg_run_id sg),
              (''correlation_id'', sg_correlation_id sg), (''trace_id'', sg_trace_id sg), (''log_url'', sg_log_url sg)]
      in (case as_object (sg_metadata sg) of
            None \<Rightarrow> base
          | Some kvs \<Rightarrow> fold (\<lambda>(k, v). or_insert (''metadata.'' @ k)
              (JStr (case v of JStr s \<Rightarrow> s | other \<Rightarrow> nt_json_text net other))) kvs base))"

text \<open>\<open>filter(|t| !t.is_empty() && seen.insert(t))\<close> keeps each tag at its first position.\<close>

definition og_tags :: "string list \<Rightarrow> signal \<Rightarrow> string list" where
  "og_tags tags sg =
     take MAX_TAGS (push_new [] (filter (\<lambda>t. t \<noteq> [])
       (map (\<lambda>t. truncate t MAX_TAG_CHARS)
         (tags @ [severity_display (sg_severity sg)] @ (case sg_environment sg of Some e \<Rightarrow> [e] | None \<Rightarrow> [])))))"

definition og_default_description :: "signal \<Rightarrow> string" where
  "og_default_description sg =
     (let d = unwrap_or [] (sg_message sg) in
      case sg_log_url sg of
        Some u \<Rightarrow> (if d \<noteq> [] then d @ [CHR 0x0A, CHR 0x0A] else d) @ ''Logs: '' @ u
      | None \<Rightarrow> d)"

definition og_entity :: "signal \<Rightarrow> string option" where
  "og_entity sg = (case (sg_service sg, sg_component sg) of
      (Some s, Some c) \<Rightarrow> Some (s @ ''/'' @ c)
    | (Some one, None) \<Rightarrow> Some one
    | (None, Some one) \<Rightarrow> Some one
    | (None, None) \<Rightarrow> None)"

definition og_alert :: "net \<Rightarrow> string list \<Rightarrow> templates option \<Rightarrow> signal \<Rightarrow> json" where
  "og_alert net tags ts sg =
     (let message = unwrap_or (sg_title sg) (render (nt_jinja net) (nt_rfc net) ts ''message'' sg []);
          a0 = JObj [(''message'', JStr (truncate message MAX_MESSAGE_CHARS)),
                 (''source'', JStr (truncate (sg_source sg) MAX_SOURCE_CHARS)),
                 (''priority'', JStr (priority_for (sg_severity sg))),
                 (''tags'', JArr (map JStr (og_tags tags sg))), (''details'', JObj (og_details net sg))];
          a1 = (case sg_dedup_key sg of Some key \<Rightarrow> jset ''alias'' (JStr (truncate key MAX_ALIAS_CHARS)) a0 | None \<Rightarrow> a0);
          description = unwrap_or (og_default_description sg)
            (render (nt_jinja net) (nt_rfc net) ts ''description'' sg []);
          a2 = (if description \<noteq> [] then jset ''description'' (JStr (truncate description MAX_DESCRIPTION_CHARS)) a1 else a1)
      in (case og_entity sg of Some e \<Rightarrow> jset ''entity'' (JStr (truncate e MAX_ENTITY_CHARS)) a2 | None \<Rightarrow> a2))"

text \<open>
  \<open>nt_url_push\<close> is the URL library: it pops an empty last segment, pushes the given segments (percent
  encoded) and appends the query \<open>identifierType=alias\<close>.
\<close>

definition og_request :: "net \<Rightarrow> string \<Rightarrow> string list \<Rightarrow> templates option \<Rightarrow> signal \<Rightarrow> (signal_error, string \<times> json) res" where
  "og_request net url tags ts sg =
     (case sg_action sg of
        Trigger \<Rightarrow> Ok (url, og_alert net tags ts sg)
      | a \<Rightarrow>
          (let verb = (case a of Acknowledge \<Rightarrow> ''acknowledge'' | _ \<Rightarrow> ''close'');
               ali = truncate (unwrap_or [] (sg_dedup_key sg)) MAX_ALIAS_CHARS
           in and_then (map_err Delivery_Error (nt_url_push net url [ali, verb]))
                (\<lambda>u. Ok (u, JObj [(''source'', JStr (truncate (sg_source sg) MAX_SOURCE_CHARS)),
                   (''note'', JStr (truncate (unwrap_or (sg_title sg) (sg_message sg)) MAX_NOTE_CHARS))]))))"

definition og_send :: "net \<Rightarrow> string \<Rightarrow> string \<Rightarrow> string list \<Rightarrow> templates option \<Rightarrow> signal \<Rightarrow> nat \<Rightarrow> (signal_error, unit) res" where
  "og_send net api_key url tags ts sg k =
     and_then (og_request net url tags ts sg)
       (\<lambda>(u, body).
          case nt_post net u (Some (''GenieKey '' @ api_key)) body k of
            Inl e \<Rightarrow> Err (Delivery_Error e)
          | Inr reply \<Rightarrow>
              (if is_lifecycle (sg_action sg) \<and> hr_status reply = 404 then Ok ()
               else if \<not> is_success (hr_status reply)
               then Err (Delivery_Error (''opsgenie alert API returned status '' @ nt_status net (hr_status reply)))
               else Ok ()))"

definition opsgenie_provider :: "net \<Rightarrow> string \<Rightarrow> string option \<Rightarrow> string list \<Rightarrow> templates option \<Rightarrow> provider" where
  "opsgenie_provider net api_key url0 tags ts =
     (let url = unwrap_or DEFAULT_ALERTS_URL url0 in
      \<lparr>pv_name = ''opsgenie'', pv_send_with_ref = default_send_with_ref (og_send net api_key url tags ts),
       pv_resolves_by_key = True,
       pv_preview = (\<lambda>sg. case sg_action sg of
           Trigger \<Rightarrow> Some (og_alert net tags ts sg)
         | _ \<Rightarrow> (case og_request net url tags ts sg of
               Inr (u, body) \<Rightarrow> Some (JObj [(''url'', JStr u), (''body'', body)])
             | Inl _ \<Rightarrow> None))\<rparr>)"

subsection \<open>E-mail\<close>

fun words_acc :: "string \<Rightarrow> string \<Rightarrow> string list" where
  "words_acc w [] = (if w = [] then [] else [w])"
| "words_acc w (c # cs) =
     (if is_ws c then (if w = [] then words_acc [] cs else w # words_acc [] cs) else words_acc (w @ [c]) cs)"

definition split_whitespace :: "string \<Rightarrow> string list" where
  "split_whitespace s = words_acc [] s"

definition subject_for :: "net \<Rightarrow> email_config \<Rightarrow> templates option \<Rightarrow> signal \<Rightarrow> string" where
  "subject_for net c ts sg =
     (let subject = (case render (nt_jinja net) (nt_rfc net) ts ''subject'' sg [] of
            Some text \<Rightarrow> join '' '' (split_whitespace text)
          | None \<Rightarrow>
              (let tag = map upper_char (case action_label (sg_action sg) of
                     Some label \<Rightarrow> label | None \<Rightarrow> severity_display (sg_severity sg))
               in ''['' @ tag @ ''] '' @ sg_title sg))
      in case ec_subject_prefix c of
           Some pre \<Rightarrow> (if pre \<noteq> [] then pre @ '' '' @ subject else subject)
         | None \<Rightarrow> subject)"

definition pad16 :: "string \<Rightarrow> string" where
  "pad16 s = s @ replicate (16 - length s) CHR '' ''"

definition nl :: string where "nl = [CHR 0x0A]"

definition default_body_for :: "net \<Rightarrow> signal \<Rightarrow> string" where
  "default_body_for net sg =
     sg_title sg @ nl @
     (case sg_message sg of Some m \<Rightarrow> nl @ m @ nl | None \<Rightarrow> []) @ nl @
     concat (map (\<lambda>(label, v). case v of None \<Rightarrow> [] | Some x \<Rightarrow> pad16 (label @ '':'') @ x @ nl)
       [(''Severity'', Some (severity_display (sg_severity sg))), (''Source'', Some (sg_source sg)),
        (''Event'', Some (sg_event_type sg)), (''Environment'', sg_environment sg), (''Service'', sg_service sg),
        (''Component'', sg_component sg), (''Team'', sg_team sg), (''Run ID'', sg_run_id sg),
        (''Correlation ID'', sg_correlation_id sg), (''Trace ID'', sg_trace_id sg), (''Logs'', sg_log_url sg)]) @
     (case as_object (sg_metadata sg) of
        Some (x # xs) \<Rightarrow> nl @ ''Metadata:'' @ nl @
          unwrap_or (nt_json_text net (sg_metadata sg)) (nt_json_pretty net (sg_metadata sg)) @ nl
      | _ \<Rightarrow> []) @
     nl @ ''--'' @ nl @ ''Signal '' @ sg_id sg @ '' at '' @ nt_rfc net (sg_timestamp sg) @ nl @ ''Sent by OpsSignal'' @ nl"

definition email_body_for :: "net \<Rightarrow> templates option \<Rightarrow> signal \<Rightarrow> string" where
  "email_body_for net ts sg = unwrap_or (default_body_for net sg) (render (nt_jinja net) (nt_rfc net) ts ''body'' sg [])"

definition thread_id :: "net \<Rightarrow> string \<Rightarrow> string" where
  "thread_id net key = ''<'' @ take 32 (nt_sha net key) @ ''@opssignal>''"

definition mailbox :: "net \<Rightarrow> string \<Rightarrow> (signal_error, string) res" where
  "mailbox net a = map_err (\<lambda>e. Delivery_Error (''invalid email address '' @ debug_str a @ '': '' @ e)) (nt_mailbox net a)"

definition message_for :: "net \<Rightarrow> email_config \<Rightarrow> templates option \<Rightarrow> signal \<Rightarrow> (signal_error, email_message) res" where
  "message_for net c ts sg =
     and_then (mailbox net (ec_from c)) (\<lambda>from.
     and_then (collect_res (mailbox net) (ec_to c)) (\<lambda>to.
     and_then (collect_res (mailbox net) (ec_cc c)) (\<lambda>cc.
       (let m = \<lparr>em_from = from, em_to = to, em_cc = cc, em_subject = subject_for net c ts sg,
           em_thread = map_option (thread_id net) (sg_dedup_key sg), em_body = email_body_for net ts sg\<rparr>
        in and_then (map_err (\<lambda>e. Delivery_Error (''cannot build the email: '' @ e)) (nt_build net m)) (\<lambda>_. Ok m)))))"

text \<open>
  A build with the AWS feature sends the message through SES itself (\<open>nt_ses_raw\<close>); any other hands
  config and signal, as JSON, to the registered add-on.
\<close>

definition send_ses :: "net \<Rightarrow> email_config \<Rightarrow> templates option \<Rightarrow> ses_config \<Rightarrow> signal \<Rightarrow> nat \<Rightarrow> (signal_error, unit) res" where
  "send_ses net c ts ses sg k =
     (case nt_ses_raw net of
        Some raw \<Rightarrow> and_then (message_for net c ts sg) (\<lambda>m. raw (ss_region ses) (ss_configuration_set ses) m k)
      | None \<Rightarrow>
          and_then (map_err Delivery_Error (nt_email_json net c))
            (\<lambda>cj. send_external (nt_addons net) (nt_signal_text net sg) ''aws'' ''email'' cj k))"

definition email_send :: "net \<Rightarrow> email_config \<Rightarrow> templates option \<Rightarrow> signal \<Rightarrow> nat \<Rightarrow> (signal_error, unit) res" where
  "email_send net c ts sg k =
     (case transport c of
        Some (Smtp smtp) \<Rightarrow>
          and_then (message_for net c ts sg)
            (\<lambda>msg. map_err (\<lambda>e. Delivery_Error (''smtp: '' @ e)) (nt_smtp net smtp msg k))
      | Some (Ses ses) \<Rightarrow> send_ses net c ts ses sg k
      | None \<Rightarrow> Err (Delivery_Error ''email needs exactly one of smtp and ses''))"

definition email_provider :: "net \<Rightarrow> email_config \<Rightarrow> provider" where
  "email_provider net c =
     (let ts = load (nt_jinja net) ''email'' (ec_template c) in
      \<lparr>pv_name = ''email'', pv_send_with_ref = default_send_with_ref (email_send net c ts),
       pv_resolves_by_key = False,
       pv_preview = (\<lambda>sg. Some (JObj [(''subject'', JStr (subject_for net c ts sg)), (''body'', JStr (email_body_for net ts sg))]))\<rparr>)"


subsection \<open>Facts\<close>

lemma truncate_length [simp]: "length (truncate s n) \<le> n"
  by (simp add: truncate_def)

lemma jindex_jset [simp]: "is_object v \<Longrightarrow> jindex (jset k x v) k' = (if k' = k then x else jindex v k')"
  by (simp add: jindex_def)

lemma is_object_JObj [simp]: "is_object (JObj kvs)"
  by (simp add: is_object_iff)

lemma jindex_JObj [simp]: "jindex (JObj kvs) k = unwrap_or JNull (map_of kvs k)"
  by (simp add: jindex_def)

lemma or_insert_keeps [simp]: "map_of al k = Some v \<Longrightarrow> map_of (or_insert k' v' al) k = Some v"
  by (auto simp: or_insert_def map_add_def)

lemma fold_or_insert_keeps:
  "map_of al k = Some v \<Longrightarrow> map_of (fold (\<lambda>(a, b). or_insert (f a) (g b)) kvs al) k = Some v"
  by (induction kvs arbitrary: al) (auto simp: case_prod_beta)

lemma og_details_id: "map_of (og_details net sg) ''signal_id'' = Some (JStr (sg_id sg))"
  by (auto simp: og_details_def Let_def intro!: fold_or_insert_keeps split: option.splits)

lemma og_alert_fields:
  "jindex (og_alert net tags ts sg) ''message'' =
     JStr (truncate (unwrap_or (sg_title sg) (render (nt_jinja net) (nt_rfc net) ts ''message'' sg [])) MAX_MESSAGE_CHARS)"
  "jindex (og_alert net tags ts sg) ''source'' = JStr (truncate (sg_source sg) MAX_SOURCE_CHARS)"
  "jindex (og_alert net tags ts sg) ''tags'' = JArr (map JStr (og_tags tags sg))"
  "jindex (og_alert net tags ts sg) ''details'' = JObj (og_details net sg)"
  "jindex (og_alert net tags ts sg) ''alias'' =
     (case sg_dedup_key sg of Some key \<Rightarrow> JStr (truncate key MAX_ALIAS_CHARS) | None \<Rightarrow> JNull)"
  by (auto simp: og_alert_def Let_def split: option.splits)

lemma og_tags_ok: "length (og_tags tags sg) \<le> MAX_TAGS" "distinct (og_tags tags sg)"
  by (simp_all add: og_tags_def)

lemma og_tag_ok: "list_all (\<lambda>t. t \<noteq> [] \<and> length t \<le> MAX_TAG_CHARS) (og_tags tags sg)"
proof -
  have "set (og_tags tags sg) \<subseteq> {t. t \<noteq> []} \<inter> range (\<lambda>t. truncate t MAX_TAG_CHARS)"
    unfolding og_tags_def by (rule order_trans [OF set_take_subset]) (simp, blast)
  then show ?thesis by (auto simp: list_all_iff)
qed

lemma pd_event_trigger:
  "\<not> is_lifecycle (sg_action sg) \<Longrightarrow> jindex (pd_event net rk ts sg) ''dedup_key'' =
     (case sg_dedup_key sg of Some key \<Rightarrow> JStr (truncate key MAX_DEDUP_KEY_CHARS) | None \<Rightarrow> JNull)"
  by (auto simp: pd_event_def Let_def split: option.splits)

lemma pd_event_lifecycle:
  "is_lifecycle (sg_action sg) \<Longrightarrow> jindex (pd_event net rk ts sg) ''dedup_key'' =
     JStr (truncate (unwrap_or [] (sg_dedup_key sg)) MAX_DEDUP_KEY_CHARS)"
  by (auto simp: pd_event_def)

lemma is_lifecycle_iff: "is_lifecycle a \<longleftrightarrow> a \<noteq> Trigger"
  by (cases a) (simp_all add: is_lifecycle_def)

subsection \<open>What the payloads guarantee\<close>

text \<open>
  An Opsgenie alert is within the limits of the API whatever the signal and the templates say: the
  message has at most 130 characters, the source 100, the alias 512, and the tags are at most 20
  different non-empty texts of at most 50 characters. The details carry the signal's own id even if
  the metadata has a key that looks like it.
\<close>

theorem opsgenie_alert_within_limits:
  "(case jindex (og_alert net tags ts sg) ''message'' of JStr m \<Rightarrow> length m \<le> 130 | _ \<Rightarrow> False) \<and>
   (case jindex (og_alert net tags ts sg) ''source'' of JStr m \<Rightarrow> length m \<le> 100 | _ \<Rightarrow> False) \<and>
   (case jindex (og_alert net tags ts sg) ''alias'' of JStr a \<Rightarrow> length a \<le> 512 | v \<Rightarrow> sg_dedup_key sg = None \<and> v = JNull) \<and>
   (\<exists>texts. jindex (og_alert net tags ts sg) ''tags'' = JArr (map JStr texts) \<and> length texts \<le> 20 \<and> distinct texts \<and>
      list_all (\<lambda>t. t \<noteq> [] \<and> length t \<le> 50) texts) \<and>
   jget (jindex (og_alert net tags ts sg) ''details'') ''signal_id'' = Some (JStr (sg_id sg))"
proof (intro conjI)
  show "\<exists>texts. jindex (og_alert net tags ts sg) ''tags'' = JArr (map JStr texts) \<and> length texts \<le> 20 \<and> distinct texts \<and>
      list_all (\<lambda>t. t \<noteq> [] \<and> length t \<le> 50) texts"
    using og_tags_ok [of tags sg] og_tag_ok [of tags sg]
    by (intro exI [of _ "og_tags tags sg"]) (auto simp: og_alert_fields MAX_TAGS_def MAX_TAG_CHARS_def)
  show "case jindex (og_alert net tags ts sg) ''message'' of JStr m \<Rightarrow> length m \<le> 130 | _ \<Rightarrow> False"
    using truncate_length [of _ MAX_MESSAGE_CHARS] by (simp add: og_alert_fields MAX_MESSAGE_CHARS_def)
  show "case jindex (og_alert net tags ts sg) ''source'' of JStr m \<Rightarrow> length m \<le> 100 | _ \<Rightarrow> False"
    using truncate_length [of _ MAX_SOURCE_CHARS] by (simp add: og_alert_fields MAX_SOURCE_CHARS_def)
  show "case jindex (og_alert net tags ts sg) ''alias'' of JStr a \<Rightarrow> length a \<le> 512 | v \<Rightarrow> sg_dedup_key sg = None \<and> v = JNull"
    using truncate_length [of _ MAX_ALIAS_CHARS] by (simp add: og_alert_fields MAX_ALIAS_CHARS_def split: option.splits)
qed (simp add: og_alert_fields og_details_id)

text \<open>
  C35. An acknowledge or resolve names the very alert its trigger opened, however long the key: the
  PagerDuty event carries the dedup key the trigger carried, and the Opsgenie request goes to the
  alias the alert was created with.
\<close>

theorem lifecycle_names_the_triggered_alert:
  assumes "sg_action opened = Trigger" "is_lifecycle (sg_action later)"
    "sg_dedup_key opened = Some key" "sg_dedup_key later = Some key"
  shows "jindex (pd_event net rk ts later) ''dedup_key'' = jindex (pd_event net rk ts opened) ''dedup_key'' \<and>
    (\<exists>ali verb. jindex (og_alert net tags ts opened) ''alias'' = JStr ali \<and>
       map_err (\<lambda>_. ()) (og_request net url tags ts later) =
       map_err (\<lambda>_. ()) (and_then (nt_url_push net url [ali, verb])
         (\<lambda>u. Ok (u, JObj [(''source'', JStr (truncate (sg_source later) 100)),
            (''note'', JStr (truncate (unwrap_or (sg_title later) (sg_message later)) 25000))]))))"
proof
  have "is_lifecycle (sg_action opened) = False" using assms(1) by (simp add: is_lifecycle_iff)
  then show "jindex (pd_event net rk ts later) ''dedup_key'' = jindex (pd_event net rk ts opened) ''dedup_key''"
    using assms by (simp add: pd_event_trigger pd_event_lifecycle)
next
  let ?verb = "case sg_action later of Acknowledge \<Rightarrow> ''acknowledge'' | _ \<Rightarrow> ''close''"
  let ?ali = "truncate key MAX_ALIAS_CHARS"
  show "\<exists>ali verb. jindex (og_alert net tags ts opened) ''alias'' = JStr ali \<and>
       map_err (\<lambda>_. ()) (og_request net url tags ts later) =
       map_err (\<lambda>_. ()) (and_then (nt_url_push net url [ali, verb])
         (\<lambda>u. Ok (u, JObj [(''source'', JStr (truncate (sg_source later) 100)),
            (''note'', JStr (truncate (unwrap_or (sg_title later) (sg_message later)) 25000))])))"
    using assms
    by (intro exI [of _ ?ali] exI [of _ ?verb], cases "sg_action later"; cases "nt_url_push net url [?ali, ?verb]")
      (simp_all add: og_alert_fields og_request_def is_lifecycle_iff MAX_SOURCE_CHARS_def MAX_NOTE_CHARS_def)
qed

text \<open>
  A preview never shows a credential: it is the same whatever the PagerDuty routing key, the
  Opsgenie API key, the webhook addresses of Slack, Teams and the generic webhook, and the SMTP or
  SES settings of the e-mail provider are.
\<close>

theorem previews_hide_credentials:
  "pv_preview (pagerduty_provider net rk u ts) = pv_preview (pagerduty_provider net rk' u ts) \<and>
   pv_preview (opsgenie_provider net ak u tags ts) = pv_preview (opsgenie_provider net ak' u tags ts) \<and>
   pv_preview (slack_provider net tgt ts) = pv_preview (slack_provider net tgt' ts) \<and>
   pv_preview (teams_provider net wu ts) = pv_preview (teams_provider net wu' ts) \<and>
   pv_preview (webhook_provider net hu ts) = pv_preview (webhook_provider net hu' ts) \<and>
   pv_preview (email_provider net c) =
     pv_preview (email_provider net (c\<lparr>ec_smtp := smtp, ec_ses := ses, ec_to := to, ec_cc := cc\<rparr>))"
proof (intro conjI)
  show "pv_preview (pagerduty_provider net rk u ts) = pv_preview (pagerduty_provider net rk' u ts)"
    by (rule ext) (auto simp: pagerduty_provider_def pd_event_def Let_def split: option.splits)
qed (auto simp: opsgenie_provider_def slack_provider_def teams_provider_def webhook_provider_def email_provider_def
      og_request_def email_body_for_def subject_for_def Let_def fun_eq_iff)

text \<open>
  The reference a Slack bot returns for a new message leads an acknowledge or resolve back to that
  message: the later signal is sent to \<open>chat.update\<close> with the channel and time stamp Slack answered
  the first time (a channel id has no slash), and keeps the reference.
\<close>

theorem slack_bot_updates_the_posted_message:
  assumes "slack_send net (Slack_Bot token channel api) ts opened None k = Ok (Some r)"
    "is_lifecycle (sg_action later)"
    "\<And>reply ch. slack_post net (api @ ''/chat.postMessage'') (Some token)
        (jset ''channel'' (JStr channel) (slack_body net ts opened)) k = Ok reply \<Longrightarrow>
      as_str (jindex reply ''channel'') = Some ch \<Longrightarrow> CHR ''/'' \<notin> set ch"
  shows "\<exists>reply ch t.
     slack_post net (api @ ''/chat.postMessage'') (Some token)
        (jset ''channel'' (JStr channel) (slack_body net ts opened)) k = Ok reply \<and>
     as_str (jindex reply ''channel'') = Some ch \<and> as_str (jindex reply ''ts'') = Some t \<and>
     slack_send net (Slack_Bot token channel api) ts later (Some r) k' =
       and_then (slack_post net (api @ ''/chat.update'') (Some token)
           (jset ''ts'' (JStr t) (jset ''channel'' (JStr ch) (slack_body net ts later))) k')
         (\<lambda>_. Ok (Some r))"
proof -
  from assms(1) obtain reply ch t where
    reply: "slack_post net (api @ ''/chat.postMessage'') (Some token)
        (jset ''channel'' (JStr channel) (slack_body net ts opened)) k = Ok reply"
    and ch: "as_str (jindex reply ''channel'') = Some ch" and t: "as_str (jindex reply ''ts'') = Some t"
    and r: "r = ch @ ''/'' @ t"
    by (auto simp: slack_send_def Let_def and_then_Inr_iff split: option.splits)
  have "split_once CHR ''/'' r = Some (ch, t)" using assms(3) [OF reply ch] r by simp
  then show ?thesis using assms(2) reply ch t by (auto simp: slack_send_def Let_def)
qed


subsection \<open>A service that answers\<close>

definition sample_net :: net where
  "sample_net = \<lparr>
     nt_jinja = \<lparr>jj_parse = (\<lambda>_. None), jj_undeclared = (\<lambda>_. []), jj_globals = [], jj_render = (\<lambda>s _. Inr s)\<rparr>,
     nt_rfc = (\<lambda>_. ''2026-01-01T00:00:00Z''), nt_sha = (\<lambda>_. ''0123456789abcdef0123456789abcdef''),
     nt_post = (\<lambda>_ _ _ _. Inr \<lparr>hr_status = 200,
       hr_json = Inr (JObj [(''ok'', JBool True), (''channel'', JStr ''C1''), (''ts'', JStr ''17.5'')])\<rparr>),
     nt_status = show_nat, nt_parse_json = (\<lambda>_. None), nt_json_text = (\<lambda>_. []), nt_json_pretty = (\<lambda>_. None),
     nt_url_push = (\<lambda>u segs. Inr (join ''/'' (u # segs))), nt_mailbox = Inr,
     nt_smtp = (\<lambda>_ _ _. Inr ()), nt_build = (\<lambda>_. Inr ()), nt_ses_raw = None, nt_addons = \<lparr>ad_features = [], ad_fetchers = [], ad_senders = []\<rparr>,
     nt_email_json = (\<lambda>_. Inr ''{}''), nt_signal_text = (\<lambda>_. Inr ''{}'')\<rparr>"

theorem lifecycle_names_the_triggered_alert_witness:
  "jindex (pd_event sample_net ''rk'' None (sample_signal\<lparr>sg_action := Resolve, sg_dedup_key := Some ''disk''\<rparr>)) ''dedup_key'' =
     jindex (pd_event sample_net ''rk'' None (sample_signal\<lparr>sg_action := Trigger, sg_dedup_key := Some ''disk''\<rparr>)) ''dedup_key'' \<and>
   jindex (pd_event sample_net ''rk'' None (sample_signal\<lparr>sg_action := Trigger, sg_dedup_key := Some ''disk''\<rparr>)) ''dedup_key''
     = JStr ''disk''"
  using lifecycle_names_the_triggered_alert
    [of "sample_signal\<lparr>sg_action := Trigger, sg_dedup_key := Some ''disk''\<rparr>"
        "sample_signal\<lparr>sg_action := Resolve, sg_dedup_key := Some ''disk''\<rparr>" "''disk''" sample_net "''rk''" None]
  by (simp add: pd_event_trigger truncate_def MAX_DEDUP_KEY_CHARS_def)

theorem slack_bot_updates_the_posted_message_witness:
  "\<exists>reply ch t.
     slack_post sample_net (''api'' @ ''/chat.postMessage'') (Some ''xoxb'')
        (jset ''channel'' (JStr ''#ops'') (slack_body sample_net None sample_signal)) 1 = Ok reply \<and>
     as_str (jindex reply ''channel'') = Some ch \<and> as_str (jindex reply ''ts'') = Some t \<and>
     slack_send sample_net (Slack_Bot ''xoxb'' ''#ops'' ''api'') None (sample_signal\<lparr>sg_action := Resolve\<rparr>) (Some ''C1/17.5'') 1 =
       and_then (slack_post sample_net (''api'' @ ''/chat.update'') (Some ''xoxb'')
           (jset ''ts'' (JStr t) (jset ''channel'' (JStr ch) (slack_body sample_net None (sample_signal\<lparr>sg_action := Resolve\<rparr>)))) 1)
         (\<lambda>_. Ok (Some ''C1/17.5''))"
  by (rule slack_bot_updates_the_posted_message)
    (auto simp: slack_send_def slack_post_def post_json_def sample_net_def is_success_def as_bool_def as_str_def Let_def)

end
