(* ===== verification/Pipelines.thy ===== *)
theory Pipelines
  imports Client Provider_Payloads Configs
begin

text \<open>
  The \<open>Pipeline\<close> of \<^verbatim>\<open>crates/core/src/lib.rs\<close>: the providers a config registers, and the preview of
  what a signal would send. The map of providers is an association list with distinct names.
\<close>

definition slack_target_of :: "slack_config \<Rightarrow> slack_target" where
  "slack_target_of c = (case (sc_bot_token c, sc_channel c) of
      (Some token, Some channel) \<Rightarrow> slack_with_bot token channel (sc_api_url c)
    | _ \<Rightarrow> Slack_Webhook (unwrap_or [] (sc_webhook_url c)))"

definition register :: "string \<Rightarrow> ('c \<Rightarrow> provider) \<Rightarrow> 'c option \<Rightarrow> providers \<Rightarrow> providers" where
  "register name mk c ps = (case c of None \<Rightarrow> ps | Some x \<Rightarrow> AList.update name (mk x) ps)"

definition from_config :: "net \<Rightarrow> config \<Rightarrow> pipeline" where
  "from_config net cfg =
     (let jj = nt_jinja net; p = cf_providers cfg;
          console_templates = (case pr_console p of None \<Rightarrow> None | Some c \<Rightarrow> load jj ''console'' (cc_template c));
          p0 = [(''console'', console_provider net console_templates)];
          p1 = register ''slack'' (\<lambda>c. slack_provider net (slack_target_of c) (load jj ''slack'' (sc_template c))) (pr_slack p) p0;
          p2 = register ''webhook'' (\<lambda>c. webhook_provider net (wc_url c) (load jj ''webhook'' (wc_template c))) (pr_webhook p) p1;
          p3 = register ''pagerduty'' (\<lambda>c. pagerduty_provider net (pc_routing_key c) (pc_url c)
                 (load jj ''pagerduty'' (pc_template c))) (pr_pagerduty p) p2;
          p4 = register ''teams'' (\<lambda>c. teams_provider net (tc_webhook_url c) (load jj ''teams'' (tc_template c))) (pr_teams p) p3;
          p5 = register ''opsgenie'' (\<lambda>c. opsgenie_provider net (oc_api_key c) (oc_url c) (oc_tags c)
                 (load jj ''opsgenie'' (oc_template c))) (pr_opsgenie p) p4;
          p6 = register ''email'' (email_provider net) (pr_email p) p5
      in \<lparr>pl_routes = config_routing cfg, pl_providers = p6\<rparr>)"

definition preview_names :: "pipeline \<Rightarrow> signal \<Rightarrow> string list" where
  "preview_names pl sg =
     (let p = plan (pl_routes pl) sg
      in fold (\<lambda>(i, _) names. push_new names (providers (pl_routes pl ! i))) (grouped p) (plan_providers p))"

definition preview :: "pipeline \<Rightarrow> signal \<Rightarrow> string option \<Rightarrow> (signal_error, (string \<times> json option) list) res" where
  "preview pl sg only =
     collect_res (\<lambda>name.
        case map_of (pl_providers pl) name of
          Some pv \<Rightarrow> Ok (name, pv_preview pv sg)
        | None \<Rightarrow> Err (Config_Error (''provider '' @ quoted name @ '' is not configured (configured: '' @
            join '', '' (sort (map fst (pl_providers pl))) @ '')'')))
       (case only of Some name \<Rightarrow> [name] | None \<Rightarrow> preview_names pl sg)"

subsection \<open>Facts\<close>

lemma keys_register: "map fst (register name mk c ps) =
    (if c = None \<or> name \<in> set (map fst ps) then map fst ps else map fst ps @ [name])"
  by (cases c) (auto simp: register_def update_keys)

lemma from_config_names: "map fst (pl_providers (from_config net cfg)) = provider_names cfg"
  by (simp add: from_config_def Let_def keys_register provider_names_def)

lemma from_config_routes [simp]: "pl_routes (from_config net cfg) = cf_routes cfg"
  by (simp add: from_config_def Let_def config_routing_def)

lemma known_iff: "known (pl_providers (from_config net cfg)) n \<longleftrightarrow> n \<in> set (provider_names cfg)"
  unfolding known_def map_of_eq_None_iff from_config_names [of net, symmetric] by simp

lemma console_named [simp]: "''console'' \<in> set (provider_names cfg)"
  by (simp add: provider_names_def Let_def)

lemma collect_res_is_ok: "is_ok (collect_res f xs) \<longleftrightarrow> (\<forall>x \<in> set xs. is_ok (f x))"
  by (induction xs) (auto split: sum.splits)

lemma set_fold_push_new: "set (fold (\<lambda>(i, _) names. push_new names (g i)) gs names) = set names \<union> (\<Union>(i, _) \<in> set gs. set (g i))"
  by (induction gs arbitrary: names) auto

lemma preview_ok_iff:
  "is_ok (preview (from_config net cfg) sg None) \<longleftrightarrow>
     set (preview_names (from_config net cfg) sg) \<subseteq> set (provider_names cfg)"
  by (auto simp: preview_def collect_res_is_ok known_iff [where net = net, symmetric] known_def split: option.splits)

lemma loaded_config_known:
  assumes "from_layers env layers = Ok cfg" "plan_with gate (cf_routes cfg) sg st = (p, st')"
  shows "list_all (known (pl_providers (from_config net cfg))) (plan_providers p)"
proof -
  from from_layers_routes_ok [OF assms(1)]
  have "set (providers r) \<subseteq> set (provider_names cfg)" if "r \<in> set (cf_routes cfg)" for r
    using that by (auto simp: list_all_iff route_ok_def)
  then show ?thesis
    using set_plan_providers_subset [OF assms(2)] by (fastforce simp: list_all_iff known_iff)
qed

text \<open>
  C14. A loaded config routes every signal to providers its pipeline has registered, whatever the gate of
  the routes answers: no delivery meets an unknown provider, and a preview for which no provider is
  named always has an answer.
\<close>

theorem loaded_config_reaches_its_providers:
  assumes "from_layers env layers = Ok cfg" "plan_with gate (cf_routes cfg) sg st = (p, st')"
  shows "list_all (known (pl_providers (from_config net cfg))) (plan_providers p) \<and>
    is_ok (preview (from_config net cfg) sg None)"
proof
  from from_layers_routes_ok [OF assms(1)]
  have routed: "set (providers r) \<subseteq> set (provider_names cfg)" if "r \<in> set (cf_routes cfg)" for r
    using that by (auto simp: list_all_iff route_ok_def)
  show "list_all (known (pl_providers (from_config net cfg))) (plan_providers p)"
    by (rule loaded_config_known [OF assms])
  let ?q = "plan (cf_routes cfg) sg"
  have "set (plan_providers ?q) \<subseteq> set (provider_names cfg)"
    using set_plan_providers_subset [OF plan_pair, of "cf_routes cfg" sg] routed by fastforce
  moreover have "set (providers (cf_routes cfg ! i)) \<subseteq> set (provider_names cfg)" if "(i, d) \<in> set (grouped ?q)" for i d
    using plan_grouped_index [OF plan_pair that] routed by simp
  ultimately show "is_ok (preview (from_config net cfg) sg None)"
    unfolding preview_ok_iff preview_names_def Let_def from_config_routes set_fold_push_new by fastforce
qed

theorem loaded_config_reaches_its_providers_witness:
  "list_all (known (pl_providers (from_config sample_net sample_merged))) (plan_providers (plan (cf_routes sample_merged) sample_signal)) \<and>
   plan_providers (plan (cf_routes sample_merged) sample_signal) = [''slack'', ''console'']"
  using loaded_config_reaches_its_providers [OF sample_loads plan_pair, where sg = sample_signal and net = sample_net]
  by (auto simp: sample_merged_def) code_simp

end
