(* ===== verification/Reloads.thy ===== *)
theory Reloads
  imports Loads Pipelines
begin

text \<open>
  Starting a client and keeping its config current: the constructors of \<^verbatim>\<open>crates/core/src/lib.rs\<close> and the
  background poll of \<^verbatim>\<open>crates/core/src/reload.rs\<close>. Opening the storage is a parameter, as is starting the
  runtime; every poll may meet a different environment.
\<close>

record 's openers =
  op_sink :: "string \<Rightarrow> (signal_error, 's) res"
  op_throttle :: "string \<Rightarrow> (signal_error, row list) res"
  op_alerts :: "string \<Rightarrow> (signal_error, alert_book) res"

definition ok_option :: "('e, 'a) res \<Rightarrow> 'a option" where
  "ok_option r = (case r of Inl _ \<Rightarrow> None | Inr x \<Rightarrow> Some x)"

definition with_runtime :: "net \<Rightarrow> 's openers \<Rightarrow> config \<Rightarrow> (signal_error, 's client) res" where
  "with_runtime net os cfg =
     (let path = st_path (cf_storage cfg) in
      and_then (case st_sink (cf_storage cfg) of Sqlite \<Rightarrow> op_sink os path) (\<lambda>sink.
        Ok \<lparr>cl_sink = sink, cl_pipeline = from_config net cfg, cl_rows = ok_option (op_throttle os path),
            cl_alerts = ok_option (op_alerts os path), cl_groups = new_groups, cl_timers = [], cl_tasks = []\<rparr>))"

record reloader =
  rl_roots :: "config_source list"
  rl_opts :: load_options
  rl_every :: nat
  rl_last_texts :: "texts option"
  rl_storage :: storage_config
  rl_pipeline :: pipeline

subsection \<open>One poll\<close>

definition reload_check :: "net \<Rightarrow> chain_env \<Rightarrow> (string \<Rightarrow> write_outcome) \<Rightarrow> nat \<Rightarrow> reloader \<Rightarrow> secret_cache \<Rightarrow> files \<Rightarrow>
    reloader \<times> secret_cache \<times> files" where
  "reload_check net e oc pid rl cache fs =
     (case walk e (rl_roots rl) Reload cache of
        (c, Inl _) \<Rightarrow> (rl, c, fs)
      | (c, Inr files) \<Rightarrow>
          (let ts = texts_of files in
           if rl_last_texts rl = Some ts then (rl, c, fs)
           else
             (case merge_chain e files of
                Inl _ \<Rightarrow> (rl, c, fs)
              | Inr cfg \<Rightarrow>
                  (rl\<lparr>rl_pipeline := from_config net cfg, rl_last_texts := Some ts\<rparr>, c,
                   write_caches (ch_source e) oc pid (rl_opts rl) (map (\<lambda>(f, _). (ft_source f, ft_text f)) files) fs))))"

subsection \<open>Starting a client\<close>

text \<open>The runtime is built first; \<open>runtime_error\<close> says why it could not be.\<close>

definition client_from_config :: "signal_error option \<Rightarrow> net \<Rightarrow> 's openers \<Rightarrow> config \<Rightarrow> (signal_error, 's client) res" where
  "client_from_config runtime_error net os cfg =
     (case runtime_error of Some err \<Rightarrow> Err err | None \<Rightarrow> with_runtime net os cfg)"

definition client_from_sources :: "signal_error option \<Rightarrow> net \<Rightarrow> 's openers \<Rightarrow> chain_env \<Rightarrow> (string \<Rightarrow> write_outcome) \<Rightarrow> nat \<Rightarrow>
    config_source list \<Rightarrow> load_options \<Rightarrow> secret_cache \<Rightarrow> files \<Rightarrow> (signal_error, 's client \<times> reloader option) res" where
  "client_from_sources runtime_error net os e oc pid sources opts cache fs =
     (case runtime_error of
        Some err \<Rightarrow> Err err
      | None \<Rightarrow>
          and_then (snd (snd (load_initial e oc pid sources opts cache fs))) (\<lambda>ld.
          and_then (with_runtime net os (ld_config ld)) (\<lambda>cl.
            Ok (cl, map_option (\<lambda>every. \<lparr>rl_roots = sources, rl_opts = opts, rl_every = every,
                  rl_last_texts = ld_texts ld, rl_storage = cf_storage (ld_config ld), rl_pipeline = cl_pipeline cl\<rparr>)
                (lo_refresh opts)))))"

definition client_from_env :: "(string \<Rightarrow> string option) \<Rightarrow> string \<Rightarrow> (string \<Rightarrow> bool) \<Rightarrow> signal_error option \<Rightarrow> net \<Rightarrow> 's openers \<Rightarrow>
    chain_env \<Rightarrow> (string \<Rightarrow> write_outcome) \<Rightarrow> nat \<Rightarrow> secret_cache \<Rightarrow> files \<Rightarrow> (signal_error, 's client \<times> reloader option) res" where
  "client_from_env env temp_dir is_file runtime_error net os e oc pid cache fs =
     and_then (load_options_from_env env temp_dir) (\<lambda>opts.
     and_then (discover env is_file) (\<lambda>found.
       case found of
         Some sources \<Rightarrow> client_from_sources runtime_error net os e oc pid sources opts cache fs
       | None \<Rightarrow> and_then (client_from_config runtime_error net os default_config) (\<lambda>cl. Ok (cl, None))))"

text \<open>
  What a process that hosts a client lends it: environment variables, files, storage, network and the
  config sources, and why no runtime can be started, if so.
\<close>

record 's host =
  ho_vars :: "string \<Rightarrow> string option"
  ho_temp_dir :: string
  ho_is_file :: "string \<Rightarrow> bool"
  ho_no_runtime :: "string option"
  ho_net :: net
  ho_openers :: "'s openers"
  ho_chain :: chain_env
  ho_written :: "string \<Rightarrow> write_outcome"
  ho_pid :: nat
  ho_secrets :: secret_cache
  ho_files :: files

definition runtime_failure :: "('s, 'x) host_scheme \<Rightarrow> signal_error option" where
  "runtime_failure h = map_option (\<lambda>m. Internal (''failed to start runtime: '' @ m)) (ho_no_runtime h)"

definition host_client :: "('s, 'x) host_scheme \<Rightarrow> (signal_error, 's client) res" where
  "host_client h =
     and_then (client_from_env (ho_vars h) (ho_temp_dir h) (ho_is_file h) (runtime_failure h) (ho_net h) (ho_openers h)
       (ho_chain h) (ho_written h) (ho_pid h) (ho_secrets h) (ho_files h)) (\<lambda>(cl, _). Ok cl)"

subsection \<open>The pipeline in place\<close>

text \<open>What one poll meets: the sources and parsers of that moment, and the files of the cache directory.\<close>

record poll =
  po_env :: chain_env
  po_written :: "string \<Rightarrow> write_outcome"
  po_pid :: nat
  po_secrets :: secret_cache
  po_files :: files

definition check_at :: "net \<Rightarrow> poll \<Rightarrow> reloader \<Rightarrow> reloader \<times> secret_cache \<times> files" where
  "check_at net p rl = reload_check net (po_env p) (po_written p) (po_pid p) rl (po_secrets p) (po_files p)"

definition reload_loop :: "net \<Rightarrow> poll list \<Rightarrow> reloader \<Rightarrow> reloader" where
  "reload_loop net ps rl = fold (\<lambda>p rl. fst (check_at net p rl)) ps rl"

text \<open>
  A load is the files of a walk with the config they merge to: that of a poll, if its walk and its
  merge both succeed, and that of the start, if it did not fall back to the default config.
\<close>

type_synonym load = "(fetched \<times> layer) list \<times> config"

definition poll_load :: "config_source list \<Rightarrow> poll \<Rightarrow> load option" where
  "poll_load roots p =
     (case snd (walk (po_env p) roots Reload (po_secrets p)) of
        Inl _ \<Rightarrow> None
      | Inr files \<Rightarrow> map_option (Pair files) (ok_option (merge_chain (po_env p) files)))"

definition start_load :: "chain_env \<Rightarrow> config_source list \<Rightarrow> load_options \<Rightarrow> secret_cache \<Rightarrow> load option" where
  "start_load e roots opts cache = map_option prod.swap (ok_option (snd (load_chain e roots opts cache)))"

definition loads_of :: "load option \<Rightarrow> config_source list \<Rightarrow> poll list \<Rightarrow> load list" where
  "loads_of start roots ps = (case start of None \<Rightarrow> [] | Some l \<Rightarrow> [l]) @ List.map_filter (poll_load roots) ps"

text \<open>
  The texts recorded are those of the latest load, and the pipeline is that of a load with exactly
  these texts; without any load it is that of the default config and no texts are recorded.
\<close>

definition in_step :: "net \<Rightarrow> load list \<Rightarrow> reloader \<Rightarrow> bool" where
  "in_step net ls rl \<longleftrightarrow>
     (if ls = [] then rl_pipeline rl = from_config net default_config \<and> rl_last_texts rl = None
      else rl_last_texts rl = Some (texts_of (fst (last ls))) \<and>
        (\<exists>(files, cfg) \<in> set ls. texts_of files = texts_of (fst (last ls)) \<and> rl_pipeline rl = from_config net cfg))"

lemma check_at_load:
  "check_at net p rl =
     (case poll_load (rl_roots rl) p of
        None \<Rightarrow> (rl, fst (walk (po_env p) (rl_roots rl) Reload (po_secrets p)), po_files p)
      | Some (files, cfg) \<Rightarrow>
          if rl_last_texts rl = Some (texts_of files)
          then (rl, fst (walk (po_env p) (rl_roots rl) Reload (po_secrets p)), po_files p)
          else (rl\<lparr>rl_pipeline := from_config net cfg, rl_last_texts := Some (texts_of files)\<rparr>,
            fst (walk (po_env p) (rl_roots rl) Reload (po_secrets p)),
            write_caches (ch_source (po_env p)) (po_written p) (po_pid p) (rl_opts rl)
              (map (\<lambda>(f, _). (ft_source f, ft_text f)) files) (po_files p)))"
  by (simp add: check_at_def reload_check_def poll_load_def ok_option_def Let_def split: prod.splits sum.splits)

lemma check_at_kept:
  "\<exists>p' t. fst (check_at net p rl) = rl\<lparr>rl_pipeline := p', rl_last_texts := t\<rparr>"
proof -
  have "\<exists>p' t. rl = rl\<lparr>rl_pipeline := p', rl_last_texts := t\<rparr>"
    by (intro exI [of _ "rl_pipeline rl"] exI [of _ "rl_last_texts rl"]) simp
  then show ?thesis by (auto simp: check_at_load split: option.splits)
qed

lemma in_step_check:
  assumes "in_step net ls rl"
  shows "in_step net (ls @ (case poll_load (rl_roots rl) p of None \<Rightarrow> [] | Some l \<Rightarrow> [l])) (fst (check_at net p rl))"
proof (cases "poll_load (rl_roots rl) p")
  case None
  with assms show ?thesis by (simp add: check_at_load)
next
  case (Some l)
  then obtain files cfg where l: "poll_load (rl_roots rl) p = Some (files, cfg)" by (cases l) simp
  show ?thesis
  proof (cases "rl_last_texts rl = Some (texts_of files)")
    case True
    with assms l show ?thesis by (auto simp: check_at_load in_step_def split: if_splits)
  next
    case False
    with l show ?thesis by (auto simp: check_at_load in_step_def)
  qed
qed

lemma in_step_loop:
  "in_step net ls rl \<Longrightarrow>
     in_step net (ls @ List.map_filter (poll_load (rl_roots rl)) ps) (reload_loop net ps rl) \<and>
     (\<exists>p t. reload_loop net ps rl = rl\<lparr>rl_pipeline := p, rl_last_texts := t\<rparr>)"
proof (induction ps arbitrary: ls rl)
  case Nil
  have "\<exists>p t. rl = rl\<lparr>rl_pipeline := p, rl_last_texts := t\<rparr>"
    by (intro exI [of _ "rl_pipeline rl"] exI [of _ "rl_last_texts rl"]) simp
  with Nil show ?case by (simp add: reload_loop_def map_filter_simps)
next
  case (Cons p ps)
  let ?rl = "fst (check_at net p rl)"
  obtain p' t where kept: "?rl = rl\<lparr>rl_pipeline := p', rl_last_texts := t\<rparr>" using check_at_kept by blast
  then have roots: "rl_roots ?rl = rl_roots rl" by simp
  have loop: "reload_loop net (p # ps) rl = reload_loop net ps ?rl" by (simp add: reload_loop_def)
  have loads: "(case poll_load (rl_roots rl) p of None \<Rightarrow> [] | Some l \<Rightarrow> [l]) @ List.map_filter (poll_load (rl_roots rl)) ps =
      List.map_filter (poll_load (rl_roots rl)) (p # ps)"
    by (simp add: map_filter_simps split: option.splits)
  note IH = Cons.IH [OF in_step_check [OF Cons.prems, of p], unfolded roots append_assoc loads]
  from conjunct2 [OF IH] obtain p'' t'' where
    "reload_loop net ps ?rl = ?rl\<lparr>rl_pipeline := p'', rl_last_texts := t''\<rparr>" by blast
  then have "reload_loop net ps ?rl = rl\<lparr>rl_pipeline := p'', rl_last_texts := t''\<rparr>" by (simp add: kept)
  with conjunct1 [OF IH] show ?case unfolding loop by blast
qed

lemma merge_chain_loads: "merge_chain e files = Ok cfg \<Longrightarrow> \<exists>env layers. from_layers env layers = Ok cfg"
  by (auto simp: merge_chain_def Let_def)

lemma load_initial_start:
  assumes "load_initial e oc pid roots opts cache fs = (c, fs', Ok ld)"
  shows "case start_load e roots opts cache of
      None \<Rightarrow> ld_texts ld = None \<and> ld_config ld = default_config
    | Some (files, cfg) \<Rightarrow> ld_texts ld = Some (texts_of files) \<and> ld_config ld = cfg"
  using assms by (auto simp: load_initial_def start_load_def ok_option_def split: sum.splits prod.splits if_splits)

lemma load_checked:
  assumes "l \<in> set (loads_of (start_load e roots opts cache) roots ps)"
  shows "\<exists>env layers. from_layers env layers = Ok (snd l)"
proof -
  consider "start_load e roots opts cache = Some l" | p where "poll_load roots p = Some l"
    using assms by (auto simp: loads_of_def map_filter_def split: option.splits)
  then show ?thesis
  proof cases
    case 1
    then obtain c where "load_chain e roots opts cache = (c, Inr (snd l, fst l))"
      by (cases "load_chain e roots opts cache") (auto simp: start_load_def ok_option_def split: sum.splits)
    from load_chain_ok [OF this] merge_chain_loads show ?thesis by blast
  next
    case 2
    then have "merge_chain (po_env p) (fst l) = Ok (snd l)"
      by (auto simp: poll_load_def ok_option_def split: sum.splits)
    then show ?thesis by (rule merge_chain_loads)
  qed
qed

lemma default_routes [simp]: "cf_routes default_config = []" and default_names [simp]: "provider_names default_config = [''console'']"
  by (simp_all add: default_config_def provider_names_def no_providers_def)

text \<open>
  C5. Whatever its sources answer at each poll, a client is on the config of its latest load, as a
  whole. The texts recorded are those of the last walk, at the start or at a poll, whose files all
  loaded and merged, and the pipeline is that of such a walk with exactly these texts; if there was
  none it is that of the default config. A poll that cannot read, resolve, parse or merge its files
  leaves the pipeline, the recorded texts and the cached copies as they were, as does one that finds
  the recorded texts again, and no poll touches anything else of the reloader, so the storage settings
  stay those of the start. Every signal is always routed to registered providers.
\<close>

theorem reloads_are_all_or_nothing:
  assumes "client_from_sources None net os e oc pid sources opts cache fs = Ok (cl, Some rl)"
    and "loads = loads_of (start_load e sources opts cache) sources ps" and "rl' = reload_loop net ps rl"
  shows "in_step net loads rl' \<and> (\<exists>p t. rl' = rl\<lparr>rl_pipeline := p, rl_last_texts := t\<rparr>) \<and>
    (\<forall>p. poll_load sources p = None \<or> map_option (texts_of \<circ> fst) (poll_load sources p) = rl_last_texts rl' \<longrightarrow>
       (\<exists>c. check_at net p rl' = (rl', c, po_files p))) \<and>
    list_all (known (pl_providers (rl_pipeline rl'))) (plan_providers (plan (pl_routes (rl_pipeline rl')) sg))"
proof -
  from assms(1) obtain c fs' ld where ld: "load_initial e oc pid sources opts cache fs = (c, fs', Ok ld)"
    and cl: "with_runtime net os (ld_config ld) = Ok cl"
    and rl: "rl_last_texts rl = ld_texts ld" "rl_pipeline rl = cl_pipeline cl" "rl_roots rl = sources"
    by (cases "load_initial e oc pid sources opts cache fs")
      (auto simp: client_from_sources_def and_then_Inr_iff)
  have "cl_pipeline cl = from_config net (ld_config ld)"
    using cl by (auto simp: with_runtime_def Let_def and_then_Inr_iff)
  then have "in_step net (case start_load e sources opts cache of None \<Rightarrow> [] | Some l \<Rightarrow> [l]) rl"
    using load_initial_start [OF ld] rl by (auto simp: in_step_def split: option.splits)
  from in_step_loop [OF this, of ps] have step: "in_step net loads rl'" and
    kept: "\<exists>p t. rl' = rl\<lparr>rl_pipeline := p, rl_last_texts := t\<rparr>"
    by (simp_all add: assms(2,3) rl(3) loads_of_def)
  have roots: "rl_roots rl' = sources" using kept rl(3) by auto
  have same: "\<exists>c. check_at net p rl' = (rl', c, po_files p)"
    if "poll_load sources p = None \<or> map_option (texts_of \<circ> fst) (poll_load sources p) = rl_last_texts rl'" for p
    using that by (auto simp: check_at_load roots split: option.splits)
  have "list_all (known (pl_providers (rl_pipeline rl'))) (plan_providers (plan (pl_routes (rl_pipeline rl')) sg))"
  proof (cases "loads = []")
    case True
    then show ?thesis
      using step set_plan_providers_subset [OF plan_pair, of "[]" sg]
      by (auto simp: in_step_def list_all_iff known_iff)
  next
    case False
    with step obtain l where "l \<in> set loads" "rl_pipeline rl' = from_config net (snd l)"
      by (auto simp: in_step_def)
    with load_checked [of l e sources opts cache ps] loaded_config_known [OF _ plan_pair] show ?thesis
      unfolding assms(2) by fastforce
  qed
  with step kept same show ?thesis by blast
qed

definition sample_reloader :: reloader where
  "sample_reloader = \<lparr>rl_roots = [Http ''https://c/team''], rl_opts = sample_options, rl_every = 60,
     rl_last_texts = Some sample_texts, rl_storage = default_storage, rl_pipeline = from_config sample_net default_config\<rparr>"

definition sample_openers :: "unit openers" where
  "sample_openers = \<lparr>op_sink = (\<lambda>_. Inr ()), op_throttle = (\<lambda>_. Inr []), op_alerts = (\<lambda>_. Inl (Sink_Error ''locked''))\<rparr>"

lemma sample_client_starts:
  "\<exists>cl. client_from_sources None sample_net sample_openers (sample_chain_env team_parents) (\<lambda>_. Written) 7
     [Http ''https://c/team''] sample_options [] [] = Ok (cl, Some sample_reloader)"
  unfolding client_from_sources_def sample_first_start option.case snd_conv and_then.simps
  by (simp add: with_runtime_def sample_loaded_def sample_openers_def sample_reloader_def sample_options_def default_config_def default_storage_def Let_def)

text \<open>A poll that meets an outage, and one that finds the team's file changed so that it extends nothing.\<close>

definition sample_polls :: "poll list" where
  "sample_polls = map (\<lambda>e. \<lparr>po_env = e, po_written = (\<lambda>_. Written), po_pid = 7, po_secrets = [], po_files = []\<rparr>)
     [outage_env\<lparr>ch_read := (\<lambda>_. Inl ''gone'')\<rparr>, sample_chain_env (\<lambda>_. [])]"

theorem reloads_are_all_or_nothing_witness:
  "rl_last_texts (reload_loop sample_net sample_polls sample_reloader) = Some [(''https://c/team'', ''team'', [])]"
proof -
  let ?start = "start_load (sample_chain_env team_parents) [Http ''https://c/team''] sample_options []"
  obtain cl where "client_from_sources None sample_net sample_openers (sample_chain_env team_parents) (\<lambda>_. Written) 7
     [Http ''https://c/team''] sample_options [] [] = Ok (cl, Some sample_reloader)" using sample_client_starts ..
  from reloads_are_all_or_nothing [OF this refl refl, of sample_polls] have
    "in_step sample_net (loads_of ?start [Http ''https://c/team''] sample_polls) (reload_loop sample_net sample_polls sample_reloader)"
    by blast
  moreover have "map (texts_of \<circ> fst) (loads_of ?start [Http ''https://c/team''] sample_polls) =
      [sample_texts, [(''https://c/team'', ''team'', [])]]"
    by code_simp
  ultimately show ?thesis
    by (auto simp: in_step_def map_eq_Cons_conv)
qed

end
