(* ===== verification/Cli.thy ===== *)
theory Cli
  imports Reloads
begin

text \<open>
  The command line of \<^verbatim>\<open>crates/cli/src/main.rs\<close>. A command is a function from its arguments and
  surroundings (the \<open>host\<close> and what the command line reads) to what it
  prints, its exit code and the client it used. What the client's background tasks do between two
  sends of a batch is a parameter; \<open>clap\<close> and \<open>serde_json\<close> are parameters.
\<close>

subsection \<open>Arguments\<close>

record signal_args =
  sa_source :: string
  sa_event_type :: string
  sa_severity :: string
  sa_title :: string
  sa_message :: "string option"
  sa_environment :: "string option"
  sa_metadata :: "string option"

record lifecycle_args =
  la_dedup_key :: "string option"
  la_source :: string
  la_event_type :: string
  la_title :: string
  la_environment :: "string option"
  la_message :: "string option"

datatype cli_command =
    Notify_Cmd signal_args
  | Notify_Batch_Cmd string
  | Acknowledge_Cmd lifecycle_args
  | Resolve_Cmd lifecycle_args
  | Preview_Cmd signal_args "string option"

record 's cli_env = "'s host" +
  ce_json :: "string \<Rightarrow> (string, json) res"
  ce_signal :: "string \<Rightarrow> (string, signal_input) res"
  ce_pretty :: "json \<Rightarrow> (string, string) res"
  ce_stdin :: "(string, string) res"
  ce_file :: "string \<Rightarrow> (string, string) res"

definition signal_args_input :: "'s cli_env \<Rightarrow> signal_args \<Rightarrow> (string, signal_input) res" where
  "signal_args_input e a =
     and_then (severity_from_str (sa_severity a)) (\<lambda>sev.
     and_then (case sa_metadata a of
         Some raw \<Rightarrow> (case ce_json e raw of
             Inr v \<Rightarrow> if is_object v then Ok (Some v) else Err ''--metadata must be a JSON object''
           | Inl m \<Rightarrow> Err (''--metadata is not valid JSON: '' @ m))
       | None \<Rightarrow> Ok None) (\<lambda>metadata.
     Ok (default_input\<lparr>in_source := sa_source a, in_event_type := sa_event_type a, in_severity := sev,
           in_title := sa_title a, in_message := sa_message a, in_environment := sa_environment a,
           in_metadata := metadata\<rparr>)))"

definition lifecycle_args_input :: "action \<Rightarrow> lifecycle_args \<Rightarrow> signal_input" where
  "lifecycle_args_input act a =
     default_input\<lparr>in_source := la_source a, in_event_type := la_event_type a, in_title := la_title a,
       in_environment := la_environment a, in_message := la_message a, in_dedup_key := la_dedup_key a,
       in_action := act\<rparr>"

subsection \<open>Exit codes\<close>

record 's cli_run =
  cr_stdout :: "string list"
  cr_stderr :: "string list"
  cr_code :: nat
  cr_client :: "'s client option"

text \<open>\<open>fail\<close> prints the error and exits; the client, if one was built, is left as it is.\<close>

definition fail_run :: "'s client option \<Rightarrow> string \<Rightarrow> 's cli_run" where
  "fail_run cl m = \<lparr>cr_stdout = [], cr_stderr = [''error: '' @ m], cr_code = 2, cr_client = cl\<rparr>"

definition report_one :: "delivery_result \<Rightarrow> string list \<times> nat \<Rightarrow> string list \<times> nat" where
  "report_one r acc =
     (let (ls, code) = acc; ls1 = ls @ map (\<lambda>l. ''suppressed: '' @ l) (dr_suppressed r);
          failed = (\<lambda>what. (ls1 @ [''error: '' @ what @ '': '' @ unwrap_or (status_display (dr_status r)) (dr_error r)] @
             map (\<lambda>x. ''  '' @ po_provider x @ '': '' @ status_display (po_status x)) (dr_deliveries r), 1))
      in case dr_status r of
           Delivered \<Rightarrow> (ls1, code) | Skipped \<Rightarrow> (ls1, code) | Grouped \<Rightarrow> (ls1, code)
         | Partial \<Rightarrow> failed ''signal only partly delivered''
         | _ \<Rightarrow> failed ''signal not delivered'')"

definition report_results :: "delivery_result list \<Rightarrow> string list \<times> nat" where
  "report_results rs = fold report_one rs ([], 0)"

definition exit_with :: "'s client \<Rightarrow> string list \<Rightarrow> delivery_result list \<Rightarrow> 's cli_run" where
  "exit_with cl lines rs =
     (let (ls, code) = report_results rs
      in \<lparr>cr_stdout = [], cr_stderr = lines @ ls, cr_code = code, cr_client = Some cl\<rparr>)"

subsection \<open>Reading a batch\<close>

text \<open>\<open>str::lines\<close>: a carriage return goes with the line feed it precedes; nothing follows a final one.\<close>

definition str_lines :: "string \<Rightarrow> string list" where
  "str_lines s =
     (let parts = split_on (CHR 0x0A) s
      in map (\<lambda>l. if l \<noteq> [] \<and> last l = CHR 0x0D then butlast l else l) (butlast parts) @
         (if last parts = [] then [] else [last parts]))"

fun read_lines :: "'s cli_env \<Rightarrow> string \<Rightarrow> nat \<Rightarrow> string list \<Rightarrow> (string, signal_input list) res" where
  "read_lines e file i [] = Ok []"
| "read_lines e file i (line # rest) =
     (if is_blank line then read_lines e file (Suc i) rest
      else
        (let at = (\<lambda>m. file @ '':'' @ show_nat (i + 1) @ '': not a valid signal: '' @ m)
         in and_then (map_err at (ce_signal e line)) (\<lambda>inp.
            and_then (map_err (\<lambda>err. at (error_display err)) (validate inp)) (\<lambda>_.
            and_then (read_lines e file (Suc i) rest) (\<lambda>inps. Ok (inp # inps))))))"

definition batch_text :: "'s cli_env \<Rightarrow> string \<Rightarrow> (string, string) res" where
  "batch_text e file =
     (if file = ''-'' then map_err (\<lambda>m. ''cannot read stdin: '' @ m) (ce_stdin e)
      else map_err (\<lambda>m. ''cannot read '' @ file @ '': '' @ m) (ce_file e file))"

definition read_batch :: "'s cli_env \<Rightarrow> string \<Rightarrow> (string, signal_input list) res" where
  "read_batch e file = and_then (batch_text e file) (\<lambda>text. read_lines e file 0 (str_lines text))"

subsection \<open>The config of a command\<close>

definition config_sources :: "'s cli_env \<Rightarrow> string option \<Rightarrow> (signal_error, config_source list option) res" where
  "config_sources e config =
     (case config of
        Some raw \<Rightarrow> and_then (parse_list raw) (\<lambda>ss. Ok (Some ss))
      | None \<Rightarrow> discover (ho_vars e) (ho_is_file e))"

definition one_shot :: "'s cli_env \<Rightarrow> (signal_error, load_options) res" where
  "one_shot e = and_then (load_options_from_env (ho_vars e) (ho_temp_dir e)) (\<lambda>opts. Ok (opts\<lparr>lo_refresh := None\<rparr>))"

definition load_config :: "'s cli_env \<Rightarrow> string option \<Rightarrow> (signal_error, config) res" where
  "load_config e config =
     and_then (config_sources e config) (\<lambda>found.
       case found of
         Some sources \<Rightarrow> and_then (one_shot e) (\<lambda>opts.
           config_load (ho_no_runtime e) (ho_chain e) (ho_written e) (ho_pid e) sources opts (ho_secrets e) (ho_files e))
       | None \<Rightarrow> Ok default_config)"

definition build_client :: "'s cli_env \<Rightarrow> string option \<Rightarrow> (signal_error, 's client) res" where
  "build_client e config =
     and_then (config_sources e config) (\<lambda>found.
     and_then (one_shot e) (\<lambda>opts.
       case found of
         Some sources \<Rightarrow>
           and_then (client_from_sources (runtime_failure e) (ho_net e) (ho_openers e) (ho_chain e) (ho_written e) (ho_pid e)
               sources opts (ho_secrets e) (ho_files e)) (\<lambda>(cl, _). Ok cl)
       | None \<Rightarrow> client_from_config (runtime_failure e) (ho_net e) (ho_openers e) default_config))"

subsection \<open>Commands\<close>

definition NOTIFY_TIMEOUT :: nat where "NOTIFY_TIMEOUT = 5000"

text \<open>
  What happens around the sends of a command: clock, ids and faults of the \<open>k\<close>-th send and the
  schedule its deliveries get, what background tasks did before it, and the same for the digests
  sent at the end.
\<close>

record 's cli_course =
  co_send :: "nat \<Rightarrow> world \<times> nat list"
  co_between :: "nat \<Rightarrow> 's client \<Rightarrow> 's client"
  co_groups :: "(world \<times> nat list) list"

definition send_nth :: "'s sink \<Rightarrow> 's cli_course \<Rightarrow> nat \<Rightarrow> signal_input \<Rightarrow> 's client \<Rightarrow> (signal_error, delivery_result) res \<times> 's client" where
  "send_nth sk co k i cl = (let (w, sched) = co_send co k in notify_sync sk w NOTIFY_TIMEOUT sched i (co_between co k cl))"

fun send_batch :: "'s sink \<Rightarrow> 's cli_course \<Rightarrow> nat \<Rightarrow> signal_input list \<Rightarrow> 's client \<Rightarrow>
    (signal_error, delivery_result list) res \<times> 's client" where
  "send_batch sk co k [] cl = (Ok [], cl)"
| "send_batch sk co k (i # is) cl =
     (case send_nth sk co k i cl of
        (Inl e, cl') \<Rightarrow> (Err e, cl')
      | (Inr r, cl') \<Rightarrow>
          (let (rs, cl'') = send_batch sk co (Suc k) is cl' in (and_then rs (\<lambda>rs. Ok (r # rs)), cl'')))"

definition run_notify :: "'s sink \<Rightarrow> 's cli_course \<Rightarrow> 's cli_env \<Rightarrow> string option \<Rightarrow> signal_args \<Rightarrow> 's cli_run" where
  "run_notify sk co e config a =
     (case signal_args_input e a of
        Inl m \<Rightarrow> fail_run None m
      | Inr i \<Rightarrow> (case build_client e config of
            Inl err \<Rightarrow> fail_run None (error_display err)
          | Inr cl \<Rightarrow> (case send_nth sk co 0 i cl of
                (Inl err, cl') \<Rightarrow> fail_run (Some cl') (error_display err)
              | (Inr r, cl') \<Rightarrow>
                  (let (digests, cl'') = flush_groups sk (co_groups co) cl' in exit_with cl'' [] (r # digests)))))"

definition run_lifecycle :: "'s sink \<Rightarrow> 's cli_course \<Rightarrow> 's cli_env \<Rightarrow> string option \<Rightarrow> signal_input \<Rightarrow> 's cli_run" where
  "run_lifecycle sk co e config i =
     (case build_client e config of
        Inl err \<Rightarrow> fail_run None (error_display err)
      | Inr cl \<Rightarrow> (case send_nth sk co 0 i cl of
            (Inl err, cl') \<Rightarrow> fail_run (Some cl') (error_display err)
          | (Inr r, cl') \<Rightarrow>
              exit_with cl' (map (\<lambda>l. ''skipped: '' @ l) (dr_suppressed r)) [r\<lparr>dr_suppressed := []\<rparr>]))"

definition run_notify_batch :: "'s sink \<Rightarrow> 's cli_course \<Rightarrow> 's cli_env \<Rightarrow> string option \<Rightarrow> string \<Rightarrow> 's cli_run" where
  "run_notify_batch sk co e config file =
     (case read_batch e file of
        Inl m \<Rightarrow> fail_run None m
      | Inr inputs \<Rightarrow> (case build_client e config of
            Inl err \<Rightarrow> fail_run None (error_display err)
          | Inr cl \<Rightarrow> (case send_batch sk co 0 inputs cl of
                (Inl err, cl') \<Rightarrow> fail_run (Some cl') (error_display err)
              | (Inr results, cl') \<Rightarrow>
                  (let sent = length results;
                       (digests, cl'') = flush_groups sk (co_groups co) cl';
                       held = length (filter (\<lambda>r. dr_status r = Grouped) results)
                   in exit_with cl''
                        [''sent '' @ show_nat sent @ '' signal(s); '' @ show_nat held @ '' held for '' @
                          show_nat (length digests) @ '' group send(s)'']
                        (results @ digests)))))"

definition run_preview :: "'s cli_env \<Rightarrow> (string \<Rightarrow> string) \<Rightarrow> string \<Rightarrow> int \<Rightarrow> string option \<Rightarrow> signal_args \<Rightarrow>
    string option \<Rightarrow> 's cli_run" where
  "run_preview e sha uid now config a only =
     (case signal_args_input e a of
        Inl m \<Rightarrow> fail_run None m
      | Inr i \<Rightarrow> (case load_config e config of
            Inl err \<Rightarrow> fail_run None (error_display err)
          | Inr cfg \<Rightarrow> (case preview (from_config (ho_net e) cfg) (from_input sha uid now i) only of
                Inl err \<Rightarrow> fail_run None (error_display err)
              | Inr previews \<Rightarrow>
                  (case ce_pretty e (JArr (map (\<lambda>(name, payload).
                        JObj [(''provider'', JStr name), (''payload'', unwrap_or JNull payload)]) previews)) of
                     Inl m \<Rightarrow> fail_run None m
                   | Inr text \<Rightarrow> \<lparr>cr_stdout = [text], cr_stderr = [], cr_code = 0, cr_client = None\<rparr>))))"

definition run_command :: "'s sink \<Rightarrow> 's cli_course \<Rightarrow> 's cli_env \<Rightarrow> (string \<Rightarrow> string) \<Rightarrow> string \<Rightarrow> int \<Rightarrow> string option \<Rightarrow>
    cli_command \<Rightarrow> 's cli_run" where
  "run_command sk co e sha uid now config cmd =
     (case cmd of
        Preview_Cmd a only \<Rightarrow> run_preview e sha uid now config a only
      | Notify_Cmd a \<Rightarrow> run_notify sk co e config a
      | Acknowledge_Cmd a \<Rightarrow> run_lifecycle sk co e config (lifecycle_args_input Acknowledge a)
      | Resolve_Cmd a \<Rightarrow> run_lifecycle sk co e config (lifecycle_args_input Resolve a)
      | Notify_Batch_Cmd file \<Rightarrow> run_notify_batch sk co e config file)"

subsection \<open>What a delivered send did\<close>

lemma prefix_tried_reached:
  assumes "prefix_tried (Some msg) (chain_outcomes ps ans names) ts" and "reached ts"
  shows "\<exists>n \<in> set names. known ps n \<and> (\<exists>k \<in> {1, 2, 3}. is_ok (ans n k))"
proof -
  from assms(2) have "last ts \<in> set ts" and del: "po_status (last ts) = Delivered" by (auto simp: reached_def)
  from prefix_tried_mem [OF assms(1) this(1)] del have "last ts \<in> set (chain_outcomes ps ans names)" by auto
  from chain_outcomes_mem [OF this] obtain n where "n \<in> set names" "known ps n" "last ts = provider_final ans n" by blast
  with del provider_final_status [of ans n] show ?thesis by auto
qed

definition accepted :: "pipeline \<Rightarrow> prepared \<Rightarrow> string list \<Rightarrow> bool" where
  "accepted pl pp chain \<longleftrightarrow>
     (\<exists>n \<in> set chain. known (pl_providers pl) n \<and>
        (\<exists>k \<in> {1, 2, 3}. is_ok (answer (pl_providers pl) (pp_signal pp) (pp_prior_refs pp) n k)))"

lemma deliver_within_delivered:
  assumes "distinct (plan_providers (pp_plan pp))" "targets (pp_plan pp) \<noteq> []"
    and "deliver_within sk (pl_providers pl) (pp_plan pp) ms sched (new_tracker (pp_signal pp) s (pp_prior_refs pp)) = (r, tk)"
    and "dr_status r = Delivered"
  shows "\<forall>chain \<in> set (targets (pp_plan pp)). accepted pl pp chain"
proof
  let ?tk = "new_tracker (pp_signal pp) s (pp_prior_refs pp)"
  let ?full = "chain_outcomes (pl_providers pl) (answer (pl_providers pl) (pp_signal pp) (pp_prior_refs pp))"
  have "tk_outcomes ?tk = []" by (simp add: new_tracker_def)
  then obtain tss cut_off where "fst (deliver_within sk (pl_providers pl) (pp_plan pp) ms sched ?tk) = summary_of (pp_plan pp) tss"
    and cut: "cut_off = Some (''timed out after '' @ debug_duration ms)"
    and "list_all2 (prefix_tried cut_off) (map (chain_outcomes (pl_providers pl)
      (answer (pl_providers pl) (tk_signal ?tk) (tk_prior_refs ?tk))) (targets (pp_plan pp))) tss"
    by (rule deliver_within_tried [OF assms(1)])
  with assms(3) have r: "r = summary_of (pp_plan pp) tss"
    and pre: "list_all2 (prefix_tried cut_off) (map ?full (targets (pp_plan pp))) tss"
    by (simp_all add: new_tracker_def)
  have len: "length tss = length (targets (pp_plan pp))" using list_all2_lengthD [OF pre] by simp
  with assms(2,4) r have all: "\<forall>ts \<in> set tss. reached ts" by (simp add: summary_of_status split: if_splits)
  fix chain
  assume "chain \<in> set (targets (pp_plan pp))"
  then obtain i where "i < length tss" "chain = targets (pp_plan pp) ! i" using len by (auto simp: in_set_conv_nth)
  with pre all len have "prefix_tried cut_off (?full chain) (tss ! i)" "reached (tss ! i)"
    by (auto simp: list_all2_conv_all_nth)
  from prefix_tried_reached [OF this [unfolded cut]] show "accepted pl pp chain" by (simp add: accepted_def)
qed

text \<open>The table of alerts has one row per primary key, and a send keeps it so.\<close>

definition alerts_keyed :: "'s client \<Rightarrow> bool" where
  "alerts_keyed cl \<longleftrightarrow> (case cl_alerts cl of None \<Rightarrow> True | Some book \<Rightarrow> wf_alist book)"

lemma send_alerts_keyed:
  assumes "alerts_keyed cl" and "send sk w ms sched i cl = (v, cl')"
  shows "alerts_keyed cl'"
proof -
  obtain pp rows1 where p: "prepare w (cl_pipeline cl) i (cl_rows cl) (cl_alerts cl) = (pp, rows1)" by fastforce
  have complete: "cl_alerts c' = cl_alerts c" if "complete_signal sk sg r c = (u, c')" for sg r c u and c' :: "'a client"
    using complete_signal_simps [of sk sg r c] that by simp
  have held: "cl_alerts c' = cl_alerts c" if "hold w rs p sg b a c = (adm, c')" for rs p sg b a adm and c c' :: "'a client"
    using hold_frame [OF that] by simp
  show ?thesis
    using assms p
    by (auto simp: send_def settle_unsent_def alerts_keyed_def Let_def wf_record_alerts
        dest!: complete held split: sum.splits prod.splits if_splits option.splits)
qed

text \<open>A send that reports success or nothing to do has left no target of its plan without an acceptance.\<close>

lemma send_reached:
  assumes "send sk w ms sched i cl = (Inr rep, cl')" and "alerts_keyed cl"
    and "dr_status (sr_result rep) \<in> {Delivered, Skipped, Grouped}"
    and "prepare w (cl_pipeline cl) i (cl_rows cl) (cl_alerts cl) = (pp, rows1)"
  shows "\<forall>chain \<in> set (targets (pp_plan pp)). accepted (cl_pipeline cl) pp chain"
proof (cases "targets (pp_plan pp) = []")
  case False
  obtain adm cl2 where h: "hold w (pl_routes (cl_pipeline cl)) (pp_plan pp) (pp_signal pp) False (pp_admission pp)
         (record_signal sk (pp_signal pp) (cl\<lparr>cl_rows := rows1\<rparr>)) = (adm, cl2)" by fastforce
  obtain r tk where d: "deliver_within sk (pl_providers (cl_pipeline cl)) (pp_plan pp) ms sched
         (new_tracker (pp_signal pp) (cl_sink cl2) (pp_prior_refs pp)) = (r, tk)" by fastforce
  from assms(1) assms(4) False h d have r: "sr_result rep = r"
    by (auto simp: send_def Let_def split: sum.splits prod.splits)
  with deliver_within_status [OF d False] assms(3) have "dr_status r = Delivered" by auto
  moreover have "distinct (plan_providers (pp_plan pp))"
    using assms(2) by (intro prepare_plan_distinct [OF assms(4)]) (simp add: alerts_keyed_def)
  ultimately show ?thesis using deliver_within_delivered [OF _ False d] by blast
qed simp

subsection \<open>Exit codes\<close>

lemma report_fold:
  "snd (fold report_one rs (ls, code)) =
     (if \<forall>r \<in> set rs. dr_status r \<in> {Delivered, Skipped, Grouped} then code else 1)"
proof (induction rs arbitrary: ls code)
  case (Cons r rs)
  obtain ls' code' where r: "report_one r (ls, code) = (ls', code')" by fastforce
  then have "code' = (if dr_status r \<in> {Delivered, Skipped, Grouped} then code else 1)"
    by (cases "dr_status r") (auto simp: report_one_def Let_def)
  with Cons.IH [of ls' code'] r show ?case by auto
qed simp

lemma exit_with_code [simp]:
  "cr_code (exit_with cl ls rs) = (if \<forall>r \<in> set rs. dr_status r \<in> {Delivered, Skipped, Grouped} then 0 else 1)"
  by (simp add: exit_with_def report_results_def case_prod_beta report_fold)

lemma fail_run_simps [simp]: "cr_code (fail_run cl m) = 2" "cr_client (fail_run cl m) = cl"
  "cr_stderr (fail_run cl m) = [''error: '' @ m]"
  by (simp_all add: fail_run_def)

lemma signal_args_trigger: "signal_args_input e a = Inr i \<Longrightarrow> in_action i = Trigger"
  by (auto simp: signal_args_input_def and_then_Inr_iff default_input_def)

lemma send_nth_ok:
  assumes "send_nth sk co k i cl = (Inr r, cl')"
  shows "\<exists>rep. send sk (fst (co_send co k)) NOTIFY_TIMEOUT (snd (co_send co k)) i (co_between co k cl) = (Inr rep, cl') \<and>
    sr_result rep = r"
proof -
  obtain v c where "send sk (fst (co_send co k)) NOTIFY_TIMEOUT (snd (co_send co k)) i (co_between co k cl) = (v, c)"
    by fastforce
  with assms show ?thesis by (cases v) (auto simp: send_nth_def notify_sync_def case_prod_beta)
qed

text \<open>The signals a command sends, in order; a preview sends none.\<close>

definition command_inputs :: "'s cli_env \<Rightarrow> cli_command \<Rightarrow> (string, signal_input list) res" where
  "command_inputs e cmd =
     (case cmd of
        Notify_Cmd a \<Rightarrow> and_then (signal_args_input e a) (\<lambda>i. Ok [i])
      | Notify_Batch_Cmd file \<Rightarrow> read_batch e file
      | Acknowledge_Cmd a \<Rightarrow> Ok [lifecycle_args_input Acknowledge a]
      | Resolve_Cmd a \<Rightarrow> Ok [lifecycle_args_input Resolve a]
      | Preview_Cmd a only \<Rightarrow> Ok [])"

definition sends_digests :: "cli_command \<Rightarrow> bool" where
  "sends_digests cmd \<longleftrightarrow> (case cmd of Notify_Cmd a \<Rightarrow> True | Notify_Batch_Cmd file \<Rightarrow> True | _ \<Rightarrow> False)"

definition is_preview :: "cli_command \<Rightarrow> bool" where
  "is_preview cmd \<longleftrightarrow> (case cmd of Preview_Cmd a only \<Rightarrow> True | _ \<Rightarrow> False)"

text \<open>Each signal's plan is the one \<open>prepare\<close> makes on the client the sends before it left.\<close>

fun all_reached :: "'s sink \<Rightarrow> 's cli_course \<Rightarrow> nat \<Rightarrow> signal_input list \<Rightarrow> 's client \<Rightarrow> bool" where
  "all_reached sk co k [] cl = True"
| "all_reached sk co k (i # is) cl =
     (let cl0 = co_between co k cl;
          pp = fst (prepare (fst (co_send co k)) (cl_pipeline cl0) i (cl_rows cl0) (cl_alerts cl0))
      in (\<forall>chain \<in> set (targets (pp_plan pp)). accepted (cl_pipeline cl0) pp chain) \<and>
         all_reached sk co (Suc k) is (snd (send_nth sk co k i cl)))"

lemma send_nth_reached:
  assumes "send_nth sk co k i cl = (Inr r, cl')" and "dr_status r \<in> {Delivered, Skipped, Grouped}"
    and "alerts_keyed (co_between co k cl)"
  shows "alerts_keyed cl' \<and>
    (let cl0 = co_between co k cl;
         pp = fst (prepare (fst (co_send co k)) (cl_pipeline cl0) i (cl_rows cl0) (cl_alerts cl0))
     in \<forall>chain \<in> set (targets (pp_plan pp)). accepted (cl_pipeline cl0) pp chain)"
proof -
  from send_nth_ok [OF assms(1)] obtain rep where
    rep: "send sk (fst (co_send co k)) NOTIFY_TIMEOUT (snd (co_send co k)) i (co_between co k cl) = (Inr rep, cl')"
    "sr_result rep = r" by blast
  from send_reached [OF rep(1) assms(3) _ prod.collapse [symmetric]] send_alerts_keyed [OF assms(3) rep(1)] rep(2) assms(2)
  show ?thesis by simp
qed

lemma send_batch_reached:
  assumes "\<And>k cl. alerts_keyed cl \<Longrightarrow> alerts_keyed (co_between co k cl)"
  shows "send_batch sk co k is cl = (Inr rs, cl') \<Longrightarrow> \<forall>r \<in> set rs. dr_status r \<in> {Delivered, Skipped, Grouped} \<Longrightarrow>
    alerts_keyed cl \<Longrightarrow> all_reached sk co k is cl"
proof (induction "is" arbitrary: k cl rs cl')
  case (Cons i "is")
  obtain v cl1 where v: "send_nth sk co k i cl = (v, cl1)" by fastforce
  obtain vs cl2 where vs: "send_batch sk co (Suc k) is cl1 = (vs, cl2)" by fastforce
  from Cons.prems(1) v vs obtain r rs' where r: "v = Inr r" "vs = Inr rs'" "rs = r # rs'"
    by (cases v; cases vs) auto
  from send_nth_reached [OF v [unfolded r(1)] _ assms [OF Cons.prems(3)]] Cons.prems(2) r(3)
  have here: "alerts_keyed cl1" "let cl0 = co_between co k cl;
         pp = fst (prepare (fst (co_send co k)) (cl_pipeline cl0) i (cl_rows cl0) (cl_alerts cl0))
     in \<forall>chain \<in> set (targets (pp_plan pp)). accepted (cl_pipeline cl0) pp chain" by auto
  from Cons.IH [OF vs [unfolded r(2)] _ here(1)] Cons.prems(2) here(2) show ?case by (simp add: v r(3) Let_def)
qed simp

lemma build_client_keyed:
  assumes "build_client e config = Ok cl" and "\<And>path book. op_alerts (ho_openers e) path = Ok book \<Longrightarrow> wf_alist book"
  shows "alerts_keyed cl"
proof -
  have "alerts_keyed c" if "with_runtime net (ho_openers e) cfg = Ok c" for net cfg c
    using that assms(2)
    by (auto simp: with_runtime_def Let_def and_then_Inr_iff alerts_keyed_def ok_option_def split: sum.splits option.splits)
  then show ?thesis
    using assms(1)
    by (auto simp: build_client_def client_from_sources_def client_from_config_def and_then_Inr_iff split: option.splits)
qed

text \<open>A command that exits with 0 is one batch of sends, all with a good verdict, and its digests.\<close>

lemma zero_exit_sends:
  assumes "cr_code (run_command sk co e sha uid now config cmd) = 0" and "\<not> is_preview cmd"
  shows "\<exists>inputs cl rs cl'. command_inputs e cmd = Ok inputs \<and> build_client e config = Ok cl \<and>
    send_batch sk co 0 inputs cl = (Ok rs, cl') \<and> (\<forall>r \<in> set rs. dr_status r \<in> {Delivered, Skipped, Grouped}) \<and>
    (sends_digests cmd \<longrightarrow> (\<forall>r \<in> set (fst (flush_groups sk (co_groups co) cl')). dr_status r \<in> {Delivered, Skipped, Grouped}))"
proof -
  have life: "\<exists>cl rs cl'. build_client e config = Ok cl \<and> send_batch sk co 0 [i] cl = (Ok rs, cl') \<and>
      (\<forall>r \<in> set rs. dr_status r \<in> {Delivered, Skipped, Grouped})"
    if "cr_code (run_lifecycle sk co e config i) = 0" for i
  proof -
    from that obtain cl where cl: "build_client e config = Ok cl"
      by (auto simp: run_lifecycle_def split: sum.splits)
    obtain v cl' where v: "send_nth sk co 0 i cl = (v, cl')" by fastforce
    with that cl show ?thesis by (cases v) (auto simp: run_lifecycle_def split: if_splits)
  qed
  show ?thesis
  proof (cases cmd)
    case (Notify_Cmd a)
    with assms(1) obtain i cl where cl: "signal_args_input e a = Ok i" "build_client e config = Ok cl"
      by (auto simp: run_command_def run_notify_def split: sum.splits)
    obtain v cl' where v: "send_nth sk co 0 i cl = (v, cl')" by fastforce
    with assms(1) cl Notify_Cmd show ?thesis
      by (cases v) (auto simp: run_command_def run_notify_def command_inputs_def case_prod_beta split: if_splits)
  next
    case (Notify_Batch_Cmd path)
    with assms(1) obtain inputs cl where cl: "read_batch e path = Ok inputs" "build_client e config = Ok cl"
      by (auto simp: run_command_def run_notify_batch_def split: sum.splits)
    obtain v cl' where v: "send_batch sk co 0 inputs cl = (v, cl')" by fastforce
    with assms(1) cl Notify_Batch_Cmd show ?thesis
      by (cases v) (auto simp: run_command_def run_notify_batch_def command_inputs_def case_prod_beta Let_def split: if_splits)
  next
    case (Acknowledge_Cmd a)
    with assms(1) life show ?thesis by (simp add: run_command_def command_inputs_def sends_digests_def)
  next
    case (Resolve_Cmd a)
    with assms(1) life show ?thesis by (simp add: run_command_def command_inputs_def sends_digests_def)
  qed (use assms(2) in \<open>simp add: is_preview_def\<close>)
qed

text \<open>
  C15. A \<open>notify\<close>, \<open>notify-batch\<close>, \<open>acknowledge\<close> or \<open>resolve\<close> that exits with 0 left nobody out: for each
  signal it sent, every target of the signal's plan has a registered provider that accepted the signal
  within its three attempts, and every digest sent before the exit of a \<open>notify\<close> or \<open>notify-batch\<close>
  was delivered, skipped or held. (The table of open alerts has one row per key and provider, its primary
  key, when it is opened and after whatever background work runs between two sends.)
\<close>

theorem zero_exit_reached_every_target:
  assumes "cr_code (run_command sk co e sha uid now config cmd) = 0" and "\<not> is_preview cmd"
    and "\<And>path book. op_alerts (ho_openers e) path = Ok book \<Longrightarrow> wf_alist book"
    and "\<And>k cl. alerts_keyed cl \<Longrightarrow> alerts_keyed (co_between co k cl)"
  shows "\<exists>inputs cl. command_inputs e cmd = Ok inputs \<and> build_client e config = Ok cl \<and>
    all_reached sk co 0 inputs cl \<and>
    (sends_digests cmd \<longrightarrow>
       (\<forall>r \<in> set (fst (flush_groups sk (co_groups co) (snd (send_batch sk co 0 inputs cl)))).
          dr_status r \<in> {Delivered, Skipped, Grouped}))"
proof -
  from zero_exit_sends [OF assms(1,2)] obtain inputs cl rs cl' where
    x: "command_inputs e cmd = Ok inputs" "build_client e config = Ok cl" "send_batch sk co 0 inputs cl = (Ok rs, cl')"
    "\<forall>r \<in> set rs. dr_status r \<in> {Delivered, Skipped, Grouped}"
    and d: "sends_digests cmd \<longrightarrow> (\<forall>r \<in> set (fst (flush_groups sk (co_groups co) cl')). dr_status r \<in> {Delivered, Skipped, Grouped})"
    by blast
  from send_batch_reached [OF assms(4) x(3,4) build_client_keyed [OF x(2) assms(3)]] x d show ?thesis by auto
qed

subsection \<open>Batches\<close>

definition line_ok :: "'s cli_env \<Rightarrow> string \<Rightarrow> bool" where
  "line_ok e line \<longleftrightarrow> is_blank line \<or> (case ce_signal e line of Inl _ \<Rightarrow> False | Inr i \<Rightarrow> is_ok (validate i))"

lemma read_lines_ok:
  "list_all (line_ok e) ls \<Longrightarrow>
     read_lines e file i ls = Ok (map (\<lambda>l. projr (ce_signal e l)) (filter (\<lambda>l. \<not> is_blank l) ls))"
  by (induction ls arbitrary: i) (auto simp: line_ok_def is_ok_iff split: sum.splits)

lemma read_lines_bad:
  "\<not> list_all (line_ok e) ls \<Longrightarrow>
     \<exists>k why. k < length ls \<and> \<not> line_ok e (ls ! k) \<and> list_all (line_ok e) (take k ls) \<and>
       read_lines e file i ls = Err (file @ '':'' @ show_nat (i + k + 1) @ '': not a valid signal: '' @ why)"
proof (induction ls arbitrary: i)
  case (Cons l ls)
  show ?case
  proof (cases "line_ok e l")
    case True
    with Cons obtain k why where k: "k < length ls" "\<not> line_ok e (ls ! k)" "list_all (line_ok e) (take k ls)"
      "read_lines e file (Suc i) ls = Err (file @ '':'' @ show_nat (Suc i + k + 1) @ '': not a valid signal: '' @ why)"
      by fastforce
    with True have "read_lines e file i (l # ls) =
        Err (file @ '':'' @ show_nat (i + Suc k + 1) @ '': not a valid signal: '' @ why)"
      by (auto simp: line_ok_def is_ok_iff simp del: show_nat.simps split: sum.splits)
    with k True show ?thesis by (intro exI [of _ "Suc k"] exI [of _ why]) simp
  next
    case False
    then have "\<exists>why. read_lines e file i (l # ls) = Err (file @ '':'' @ show_nat (i + 1) @ '': not a valid signal: '' @ why)"
      by (cases "ce_signal e l"; cases "validate (projr (ce_signal e l))") (auto simp: line_ok_def simp del: show_nat.simps)
    with False show ?thesis by (intro exI [of _ 0]) simp
  qed
qed simp

text \<open>
  A batch is checked as a whole before anything happens: if every line is blank or a valid signal the
  batch is the signals of its lines in order; otherwise the command exits with 2, names the first bad
  line by its number, and has not even opened a client.
\<close>

theorem batch_is_checked_before_sending:
  assumes "batch_text e file = Ok text"
  shows "if list_all (line_ok e) (str_lines text)
    then read_batch e file = Ok (map (\<lambda>l. projr (ce_signal e l)) (filter (\<lambda>l. \<not> is_blank l) (str_lines text)))
    else \<exists>k why. k < length (str_lines text) \<and> \<not> line_ok e (str_lines text ! k) \<and>
      list_all (line_ok e) (take k (str_lines text)) \<and>
      run_notify_batch sk co e config file =
        fail_run None (file @ '':'' @ show_nat (k + 1) @ '': not a valid signal: '' @ why)"
proof (cases "list_all (line_ok e) (str_lines text)")
  case True
  with assms read_lines_ok [OF True] show ?thesis by (simp add: read_batch_def)
next
  case False
  from read_lines_bad [OF this, of "file" "0"] obtain k why where k: "k < length (str_lines text)" "\<not> line_ok e (str_lines text ! k)"
    "list_all (line_ok e) (take k (str_lines text))"
    "read_lines e file 0 (str_lines text) = Err (file @ '':'' @ show_nat (k + 1) @ '': not a valid signal: '' @ why)" by auto
  have "run_notify_batch sk co e config file =
      fail_run None (file @ '':'' @ show_nat (k + 1) @ '': not a valid signal: '' @ why)"
    by (simp only: run_notify_batch_def read_batch_def assms and_then.simps k(4) sum.case)
  with False k(1,2,3) show ?thesis by (simp del: show_nat.simps) blast
qed

text \<open>A valid signal whose send fails had been delivered as far as it could be; only storing the result failed.\<close>

lemma send_error_delivered:
  assumes "send sk w ms sched i cl = (Inl err, cl')" and "validate i = Ok ()"
  shows "\<exists>pp rows1 s r tk. prepare w (cl_pipeline cl) i (cl_rows cl) (cl_alerts cl) = (pp, rows1) \<and>
    deliver_within sk (pl_providers (cl_pipeline cl)) (pp_plan pp) ms sched
      (new_tracker (pp_signal pp) s (pp_prior_refs pp)) = (r, tk) \<and>
    dr_status r \<in> {Delivered, Partial, Failed} \<and> fst (sk_complete sk (pp_signal pp) r (tk_sink tk)) = Inl err"
proof -
  obtain pp rows1 where p: "prepare w (cl_pipeline cl) i (cl_rows cl) (cl_alerts cl) = (pp, rows1)" by fastforce
  with assms have t: "targets (pp_plan pp) \<noteq> []" by (auto simp: send_def Let_def split: prod.splits if_splits)
  obtain adm cl2 where h: "hold w (pl_routes (cl_pipeline cl)) (pp_plan pp) (pp_signal pp) False (pp_admission pp)
         (record_signal sk (pp_signal pp) (cl\<lparr>cl_rows := rows1\<rparr>)) = (adm, cl2)" by fastforce
  obtain r tk where d: "deliver_within sk (pl_providers (cl_pipeline cl)) (pp_plan pp) ms sched
         (new_tracker (pp_signal pp) (cl_sink cl2) (pp_prior_refs pp)) = (r, tk)" by fastforce
  obtain v cl3 where c: "complete_signal sk (pp_signal pp) r (after_delivery w pp adm r tk cl2) = (v, cl3)" by fastforce
  from assms p t h d c have "v = Inl err" by (auto simp: send_def Let_def split: sum.splits)
  with c complete_signal_simps(1) [of sk "pp_signal pp" r "after_delivery w pp adm r tk cl2"]
  have "fst (sk_complete sk (pp_signal pp) r (tk_sink tk)) = Inl err" by simp
  with p d deliver_within_status [OF d t] show ?thesis by blast
qed

lemma send_batch_stops:
  "send_batch sk co k before cl = (Inr rs, cl1) \<Longrightarrow> send_nth sk co (k + length before) i cl1 = (Inl err, cl2) \<Longrightarrow>
     send_batch sk co k (before @ i # later) cl = (Inl err, cl2)"
proof (induction before arbitrary: k cl rs)
  case (Cons b bs)
  obtain v cl' where b: "send_nth sk co k b cl = (v, cl')" by fastforce
  obtain vs cl'' where bs: "send_batch sk co (Suc k) bs cl' = (vs, cl'')" by fastforce
  from Cons.prems(1) b bs obtain r rs' where "v = Inr r" "vs = Inr rs'" "cl'' = cl1"
    by (cases v; cases vs) auto
  with Cons.IH [of "Suc k" cl' rs'] Cons.prems(2) b bs show ?case by simp
qed simp

lemma read_lines_valid: "read_lines e file k ls = Ok inputs \<Longrightarrow> i \<in> set inputs \<Longrightarrow> validate i = Ok ()"
proof (induction ls arbitrary: k inputs)
  case (Cons l ls)
  then show ?case by (auto simp: and_then_Inr_iff Let_def split: if_splits)
qed simp

text \<open>
  C39. A batch can exit with 2, the code for bad input or a bad config, when both are good: if the sink
  cannot store the outcome of one signal, the command stops there, although the providers had that
  signal already. The signals after it are not sent, and the process ends without sending the groups
  open in the client it leaves behind.
\<close>

theorem storage_failure_ends_the_batch:
  assumes "read_batch e file = Ok (before @ i # later)" "build_client e config = Ok cl"
    and "send_batch sk co 0 before cl = (Ok rs, cl1)" "send_nth sk co (length before) i cl1 = (Inl err, cl2)"
  shows "run_notify_batch sk co e config file = fail_run (Some cl2) (error_display err) \<and>
    (let cl0 = co_between co (length before) cl1; (w, sched) = co_send co (length before)
     in \<exists>pp rows1 s r tk. prepare w (cl_pipeline cl0) i (cl_rows cl0) (cl_alerts cl0) = (pp, rows1) \<and>
       deliver_within sk (pl_providers (cl_pipeline cl0)) (pp_plan pp) NOTIFY_TIMEOUT sched
         (new_tracker (pp_signal pp) s (pp_prior_refs pp)) = (r, tk) \<and>
       dr_status r \<in> {Delivered, Partial, Failed} \<and> fst (sk_complete sk (pp_signal pp) r (tk_sink tk)) = Inl err)"
proof
  from send_batch_stops [OF assms(3)] assms(4)
  have "send_batch sk co 0 (before @ i # later) cl = (Inl err, cl2)" by simp
  with assms(1,2) show "run_notify_batch sk co e config file = fail_run (Some cl2) (error_display err)"
    by (simp add: run_notify_batch_def)
  let ?cl0 = "co_between co (length before) cl1"
  obtain w sched where co: "co_send co (length before) = (w, sched)" by fastforce
  from assms(1) have "validate i = Ok ()"
    by (auto simp: read_batch_def and_then_Inr_iff intro: read_lines_valid)
  moreover obtain v cl3 where "send sk w NOTIFY_TIMEOUT sched i ?cl0 = (v, cl3)" by fastforce
  with assms(4) co have "send sk w NOTIFY_TIMEOUT sched i ?cl0 = (Inl err, cl2)"
    by (cases v) (simp_all add: send_nth_def notify_sync_def)
  ultimately show "let cl0 = ?cl0; (w, sched) = co_send co (length before)
     in \<exists>pp rows1 s r tk. prepare w (cl_pipeline cl0) i (cl_rows cl0) (cl_alerts cl0) = (pp, rows1) \<and>
       deliver_within sk (pl_providers (cl_pipeline cl0)) (pp_plan pp) NOTIFY_TIMEOUT sched
         (new_tracker (pp_signal pp) s (pp_prior_refs pp)) = (r, tk) \<and>
       dr_status r \<in> {Delivered, Partial, Failed} \<and> fst (sk_complete sk (pp_signal pp) r (tk_sink tk)) = Inl err"
    using send_error_delivered unfolding co Let_def prod.case by blast
qed

subsection \<open>A sample command\<close>

definition sample_cli_env :: "unit cli_env" where
  "sample_cli_env = \<lparr>ho_vars = (\<lambda>_. None), ho_temp_dir = ''/tmp'', ho_is_file = (\<lambda>_. False), ho_no_runtime = None,
     ho_net = sample_net,
     ho_openers = \<lparr>op_sink = (\<lambda>_. Inr ()), op_throttle = (\<lambda>_. Inl (Sink_Error ''locked'')),
       op_alerts = (\<lambda>_. Inl (Sink_Error ''locked''))\<rparr>,
     ho_chain = sample_chain_env (\<lambda>_. []), ho_written = (\<lambda>_. Written), ho_pid = 7, ho_secrets = [], ho_files = [],
     ce_json = (\<lambda>_. Inl ''not JSON''),
     ce_signal = (\<lambda>l. if l = ''ok'' then Inr sample_input else Inl ''missing field''),
     ce_pretty = (\<lambda>_. Inr ''[]''), ce_stdin = Inr [],
     ce_file = (\<lambda>f. Inr (if f = ''typo'' then ''ok'' @ [CHR 0x0A] @ ''broken'' else ''ok''))\<rparr>"

definition sample_course :: "unit cli_course" where
  "sample_course = \<lparr>co_send = (\<lambda>_. (sample_world, [0, 0])), co_between = (\<lambda>_ cl. cl), co_groups = []\<rparr>"

definition sample_args :: signal_args where
  "sample_args = \<lparr>sa_source = ''ci'', sa_event_type = ''build_failed'', sa_severity = ''Error'', sa_title = ''t'',
     sa_message = None, sa_environment = None, sa_metadata = None\<rparr>"

definition sample_cli_client :: "unit client" where
  "sample_cli_client = \<lparr>cl_sink = (), cl_pipeline = from_config sample_net default_config, cl_rows = None, cl_alerts = None,
     cl_groups = new_groups, cl_timers = [], cl_tasks = []\<rparr>"

lemma sample_build: "build_client sample_cli_env None = Ok sample_cli_client"
  by (simp add: build_client_def config_sources_def discover_def one_shot_def load_options_from_env_def sample_cli_env_def
      runtime_failure_def client_from_config_def with_runtime_def ok_option_def sample_cli_client_def default_config_def default_storage_def Let_def)

definition full_sink :: "unit sink" where
  "full_sink = quiet_sink\<lparr>sk_complete := (\<lambda>_ _ s. (Err (Sink_Error ''disk full''), s))\<rparr>"

lemma sample_cli_steps:
  assumes "in_action i = Trigger"
  shows "\<exists>tk. let sg = from_input (\<lambda>x. x) ''id-1'' 0 i; p = \<lparr>targets = [[''console'']], suppressed = [], grouped = []\<rparr>
    in prepare sample_world (cl_pipeline sample_cli_client) i (cl_rows sample_cli_client) (cl_alerts sample_cli_client) =
         (\<lparr>pp_signal = sg, pp_plan = p, pp_admission = [], pp_prior_refs = []\<rparr>, None) \<and>
       deliver_within sk (pl_providers (cl_pipeline sample_cli_client)) p ms [0, 0] (new_tracker sg () []) =
         (summary_of p [[\<lparr>po_provider = ''console'', po_status = Delivered, po_error = None, po_attempts = 1\<rparr>]], tk)"
proof -
  have ps: "pl_providers (cl_pipeline sample_cli_client) = [(''console'', console_provider sample_net None)]"
    "pl_routes (cl_pipeline sample_cli_client) = []"
    by (simp_all add: sample_cli_client_def from_config_def default_config_def no_providers_def register_def config_routing_def Let_def)
  with assms show ?thesis
    by (simp add: prepare_def sample_cli_client_def sample_world_def plan_signal_def is_lifecycle_iff
        plan_def plan_with_def empty_acc_def Let_def)
      (simp add: deliver_within_def start_chains_def poll_def console_provider_def default_send_with_ref_def all_finished_def
        summarize_def tried_def List.map_filter_def find_outcome_def cut_pending_def new_tracker_def)
qed

lemma sample_cli_send:
  assumes "validate i = Ok ()" "in_action i = Trigger"
  shows "\<exists>rep cl'. send quiet_sink sample_world ms [0, 0] i sample_cli_client = (Inr rep, cl') \<and>
      dr_status (sr_result rep) = Delivered \<and> dr_suppressed (sr_result rep) = [] \<and> cl_groups cl' = new_groups"
    "\<exists>cl'. send full_sink sample_world ms [0, 0] i sample_cli_client = (Inl (Sink_Error ''disk full''), cl')"
proof -
  have "sk_complete quiet_sink sg r s = (Ok (), s)" for sg r s by (simp add: quiet_sink_def)
  with sample_cli_steps [OF assms(2), of quiet_sink ms] assms(1)
  show "\<exists>rep cl'. send quiet_sink sample_world ms [0, 0] i sample_cli_client = (Inr rep, cl') \<and>
      dr_status (sr_result rep) = Delivered \<and> dr_suppressed (sr_result rep) = [] \<and> cl_groups cl' = new_groups"
    by (auto simp: send_def hold_none complete_signal_def Let_def summary_of_status summary_of_simps reached_def)
      (simp add: sample_cli_client_def)
  have "sk_complete full_sink sg r s = (Err (Sink_Error ''disk full''), s)" for sg r s by (simp add: full_sink_def)
  with sample_cli_steps [OF assms(2), of full_sink ms] assms(1)
  show "\<exists>cl'. send full_sink sample_world ms [0, 0] i sample_cli_client = (Inl (Sink_Error ''disk full''), cl')"
    by (auto simp: send_def hold_none complete_signal_def Let_def)
qed

theorem zero_exit_reached_every_target_witness:
  "\<exists>inputs cl. command_inputs sample_cli_env (Notify_Cmd sample_args) = Ok inputs \<and>
     build_client sample_cli_env None = Ok cl \<and> all_reached quiet_sink sample_course 0 inputs cl"
proof -
  have sev: "severity_from_str ''Error'' = Ok Error" by code_simp
  let ?i = "default_input\<lparr>in_source := ''ci'', in_event_type := ''build_failed'', in_severity := Error, in_title := ''t''\<rparr>"
  have i: "signal_args_input sample_cli_env sample_args = Ok ?i"
    by (simp add: signal_args_input_def sample_args_def sev default_input_def)
  have "validate ?i = Ok ()"
    by (simp add: default_input_def validate_def validate_fields_def is_blank_iff is_ws_def is_lifecycle_iff)
  from sample_cli_send(1) [OF this signal_args_trigger [OF i], of NOTIFY_TIMEOUT] obtain rep cl' where
    s: "send quiet_sink sample_world NOTIFY_TIMEOUT [0, 0] ?i sample_cli_client = (Inr rep, cl')"
    "dr_status (sr_result rep) = Delivered" "cl_groups cl' = new_groups" by blast
  then have "send_nth quiet_sink sample_course 0 ?i sample_cli_client = (Inr (sr_result rep), cl')"
    by (simp add: send_nth_def sample_course_def notify_sync_def)
  then have z: "cr_code (run_command quiet_sink sample_course sample_cli_env id [] 0 None (Notify_Cmd sample_args)) = 0"
    using s(2,3) by (simp add: run_command_def run_notify_def i sample_build flush_groups_def take_all_groups_def new_groups_def case_prod_beta)
  have "\<not> is_preview (Notify_Cmd sample_args)" by (simp add: is_preview_def)
  moreover have "op_alerts (ho_openers sample_cli_env) path = Ok book \<Longrightarrow> wf_alist book" for path book
    by (simp add: sample_cli_env_def)
  moreover have "alerts_keyed cl \<Longrightarrow> alerts_keyed (co_between sample_course k cl)" for k cl
    by (simp add: sample_course_def)
  ultimately show ?thesis using zero_exit_reached_every_target [OF z] by blast
qed

theorem batch_is_checked_before_sending_witness:
  "cr_code (run_notify_batch quiet_sink sample_course sample_cli_env None ''typo'') = 2 \<and>
   cr_client (run_notify_batch quiet_sink sample_course sample_cli_env None ''typo'') = None"
proof -
  let ?text = "''ok'' @ [CHR 0x0A] @ ''broken''"
  have t: "batch_text sample_cli_env ''typo'' = Ok ?text" by (simp add: batch_text_def sample_cli_env_def)
  have "\<not> list_all (line_ok sample_cli_env) (str_lines ?text)"
    by (simp add: str_lines_def line_ok_def sample_cli_env_def is_blank_iff is_ws_def)
  with batch_is_checked_before_sending [OF t, of quiet_sink sample_course None] show ?thesis by auto
qed

theorem storage_failure_ends_the_batch_witness:
  "\<exists>cl2. run_notify_batch full_sink sample_course sample_cli_env None ''batch'' = fail_run (Some cl2) ''sink write failed: disk full''"
proof -
  have t: "in_action sample_input = Trigger" by (simp add: sample_input_def default_input_def)
  have b: "read_batch sample_cli_env ''batch'' = Ok ([] @ sample_input # [])"
    by (simp add: read_batch_def batch_text_def sample_cli_env_def str_lines_def is_blank_iff is_ws_def sample_input_valid)
  from sample_cli_send(2) [OF sample_input_valid t, of NOTIFY_TIMEOUT] obtain cl2 where
    n: "send_nth full_sink sample_course (length ([] :: signal_input list)) sample_input sample_cli_client = (Inl (Sink_Error ''disk full''), cl2)"
    by (auto simp: send_nth_def sample_course_def notify_sync_def)
  have "send_batch full_sink sample_course 0 [] sample_cli_client = (Ok [], sample_cli_client)" by simp
  from storage_failure_ends_the_batch [OF b sample_build this n] show ?thesis by auto
qed

end
