(* ===== verification/Bindings.thy ===== *)
theory Bindings
  imports Cli
begin

text \<open>
  The process-global clients other languages call: the C interface of \<^verbatim>\<open>crates/ffi/src/lib.rs\<close>, the
  Python module of \<^verbatim>\<open>crates/python/src/lib.rs\<close> and the add-on wheels \<^verbatim>\<open>crates/python-{aws,gcp,azure}\<close>.
  The global is \<open>None\<close> until the first call that needs a client, then the client or the error it
  could not be built for. A panic is a value: third-party code may panic at the sites named, and
  leaves the client in some state.
\<close>

type_synonym 's global_client = "(string, 's client) res option"

datatype 'a ran = Panicked | Ran 'a

subsection \<open>Results as JSON\<close>

definition outcome_json :: "provider_outcome \<Rightarrow> json" where
  "outcome_json x = JObj [(''provider'', JStr (po_provider x)), (''status'', JStr (status_display (po_status x))),
     (''error'', jopt (po_error x)), (''attempts'', JNum (show_nat (po_attempts x)))]"

definition report_json :: "send_report \<Rightarrow> json" where
  "report_json rep = (let r = sr_result rep in
     JObj [(''signal_id'', JStr (sr_signal_id rep)), (''dedup_key'', jopt (sr_dedup_key rep)),
       (''status'', JStr (status_display (dr_status r))), (''provider'', jopt (dr_provider r)),
       (''error'', jopt (dr_error r)), (''attempts'', JNum (show_nat (dr_attempts r))),
       (''deliveries'', JArr (map outcome_json (dr_deliveries r))),
       (''suppressed'', JArr (map JStr (dr_suppressed r))), (''grouped'', JArr (map JStr (dr_grouped r)))])"

subsection \<open>Flushing\<close>

text \<open>\<open>running\<close> is what the background tasks do to the client while \<open>flush\<close> waits.\<close>

definition flush :: "('s client \<Rightarrow> 's client) \<Rightarrow> (bool \<times> nat) list \<Rightarrow> 's client \<Rightarrow> bool \<times> 's client" where
  "flush running rounds cl = (let cl1 = flush_start cl in (flush_wait rounds cl1, running cl1))"

text \<open>A client that goes out of scope is flushed; a warning says when that took too long.\<close>

definition DEFAULT_FLUSH_TIMEOUT :: nat where "DEFAULT_FLUSH_TIMEOUT = 5000"

definition drop_client :: "('s client \<Rightarrow> 's client) \<Rightarrow> (bool \<times> nat) list \<Rightarrow> 's client \<Rightarrow> string list \<times> 's client" where
  "drop_client running rounds cl =
     (let (done_in_time, cl') = flush running rounds cl
      in (if \<not> done_in_time
          then [''exiting with signals still being delivered; they stay recorded as pending''] else [], cl'))"

subsection \<open>The C interface\<close>

datatype site = In_Parse | In_Start | In_Client | In_Encode

record 's c_host = "'s host" +
  fe_utf8 :: "string \<Rightarrow> (string, string) res"
  fe_signal :: "string \<Rightarrow> (string, signal_input) res"
  fe_encode :: "json \<Rightarrow> (string, string) res"
  fe_panics :: "site \<Rightarrow> bool"
  fe_wreck :: "'s client \<Rightarrow> 's client"

record c_result =
  cx_success :: bool
  cx_error :: "string option"

definition c_string :: "string \<Rightarrow> string option" where
  "c_string s = (if CHR 0x00 \<in> set s then None else Some s)"

definition c_ok :: c_result where
  "c_ok = \<lparr>cx_success = True, cx_error = None\<rparr>"

definition c_error :: "string \<Rightarrow> c_result" where
  "c_error m = \<lparr>cx_success = False, cx_error = Some (unwrap_or ''error message contained null byte'' (c_string m))\<rparr>"

definition guarded :: "(string, unit) res ran \<Rightarrow> c_result" where
  "guarded f =
     (case f of
        Ran (Inr _) \<Rightarrow> c_ok
      | Ran (Inl m) \<Rightarrow> c_error m
      | Panicked \<Rightarrow> c_error (''internal panic in opssignal-core '' @ [CHR 0xE2, CHR 0x80, CHR 0x94] @ '' signal not sent''))"

definition c_client :: "'s c_host \<Rightarrow> 's global_client \<Rightarrow> 's global_client \<times> (string, 's client) res ran" where
  "c_client e g =
     (if g = None \<and> fe_panics e In_Start then (None, Panicked)
      else
        (let r = (case g of Some r \<Rightarrow> r | None \<Rightarrow> map_err error_display (host_client e))
         in (Some r, Ran (map_err (\<lambda>m. ''opssignal is not configured: '' @ m) r))))"

definition parse_input :: "'s c_host \<Rightarrow> string option \<Rightarrow> (string, signal_input) res ran" where
  "parse_input e p =
     (case p of
        None \<Rightarrow> Ran (Err ''signal payload pointer is null'')
      | Some bytes \<Rightarrow>
          if fe_panics e In_Parse then Panicked
          else Ran (and_then (map_err (\<lambda>m. ''invalid UTF-8 in signal payload: '' @ m) (fe_utf8 e bytes)) (\<lambda>text.
            and_then (map_err (\<lambda>m. ''invalid signal JSON: '' @ m) (fe_signal e text)) (\<lambda>i.
            and_then (map_err error_display (validate i)) (\<lambda>_. Ok i)))))"

text \<open>The closures the entry points hand to \<open>guarded\<close>; \<open>slot\<close> is what \<open>result_json\<close> points to.\<close>

definition notify_async_body :: "'s sink \<Rightarrow> world \<Rightarrow> 's c_host \<Rightarrow> string option \<Rightarrow> 's global_client \<Rightarrow>
    's global_client \<times> (string, unit) res ran" where
  "notify_async_body sk w e p g =
     (case parse_input e p of
        Panicked \<Rightarrow> (g, Panicked)
      | Ran (Inl m) \<Rightarrow> (g, Ran (Err m))
      | Ran (Inr i) \<Rightarrow>
          (case c_client e g of
             (g1, Panicked) \<Rightarrow> (g1, Panicked)
           | (g1, Ran (Inl m)) \<Rightarrow> (g1, Ran (Err m))
           | (g1, Ran (Inr cl)) \<Rightarrow>
               if fe_panics e In_Client then (Some (Ok (fe_wreck e cl)), Panicked)
               else (Some (Ok (notify_async sk w i cl)), Ran (Ok ()))))"

definition send_body :: "'s sink \<Rightarrow> world \<Rightarrow> nat list \<Rightarrow> 's c_host \<Rightarrow> string option \<Rightarrow> nat \<Rightarrow> string option option \<Rightarrow>
    's global_client \<Rightarrow> 's global_client \<times> string option option \<times> (string, unit) res ran" where
  "send_body sk w sched e p timeout_ms slot g =
     (case slot of
        None \<Rightarrow> (g, None, Ran (Err ''result_json pointer is null''))
      | Some _ \<Rightarrow>
         (case parse_input e p of
            Panicked \<Rightarrow> (g, Some None, Panicked)
          | Ran (Inl m) \<Rightarrow> (g, Some None, Ran (Err m))
          | Ran (Inr i) \<Rightarrow>
              (case c_client e g of
                 (g1, Panicked) \<Rightarrow> (g1, Some None, Panicked)
               | (g1, Ran (Inl m)) \<Rightarrow> (g1, Some None, Ran (Err m))
               | (g1, Ran (Inr cl)) \<Rightarrow>
                   if fe_panics e In_Client then (Some (Ok (fe_wreck e cl)), Some None, Panicked)
                   else
                     (case send sk w timeout_ms sched i cl of
                        (Inl err, cl') \<Rightarrow> (Some (Ok cl'), Some None, Ran (Err (''signal not sent: '' @ error_display err)))
                      | (Inr rep, cl') \<Rightarrow>
                          if fe_panics e In_Encode then (Some (Ok cl'), Some None, Panicked)
                          else
                            (case fe_encode e (report_json rep) of
                               Inl m \<Rightarrow> (Some (Ok cl'), Some None, Ran (Err (''could not encode the delivery result: '' @ m)))
                             | Inr text \<Rightarrow>
                                 (case c_string text of
                                    None \<Rightarrow> (Some (Ok cl'), Some None, Ran (Err
                                      (''delivery result: nul byte found in provided data at position: '' @
                                       show_nat (length (takeWhile (\<lambda>c. c \<noteq> CHR 0x00) text)))))
                                  | Some s \<Rightarrow> (Some (Ok cl'), Some (Some s), Ran (Ok ()))))))))"

definition signal_notify_async :: "'s sink \<Rightarrow> world \<Rightarrow> 's c_host \<Rightarrow> string option \<Rightarrow> 's global_client \<Rightarrow>
    's global_client \<times> c_result" where
  "signal_notify_async sk w e p g = (let (g', r) = notify_async_body sk w e p g in (g', guarded r))"

definition signal_send :: "'s sink \<Rightarrow> world \<Rightarrow> nat list \<Rightarrow> 's c_host \<Rightarrow> string option \<Rightarrow> nat \<Rightarrow> string option option \<Rightarrow>
    's global_client \<Rightarrow> 's global_client \<times> string option option \<times> c_result" where
  "signal_send sk w sched e p timeout_ms slot g =
     (let (g', slot', r) = send_body sk w sched e p timeout_ms slot g in (g', slot', guarded r))"

definition signal_flush :: "('s client \<Rightarrow> 's client) \<Rightarrow> (bool \<times> nat) list \<Rightarrow> 's global_client \<Rightarrow> 's global_client \<times> c_result" where
  "signal_flush running rounds g =
     (case g of
        Some (Inr cl) \<Rightarrow>
          (let (done_in_time, cl') = flush running rounds cl
           in (Some (Ok cl'), guarded (Ran (if \<not> done_in_time
                then Err ''timed out with signals still being delivered'' else Ok ()))))
      | _ \<Rightarrow> (g, guarded (Ran (Ok ()))))"

subsection \<open>The Python module\<close>

datatype py_error = Value_Error string | Runtime_Error string

record py_module =
  pm_fetch :: "(string \<Rightarrow> (py_error, string) res) option"
  pm_send :: "(string \<Rightarrow> string \<Rightarrow> string \<Rightarrow> nat \<Rightarrow> (py_error, unit) res) option"

text \<open>
  \<open>pe_dumps\<close> is \<open>json.dumps(obj, default=str)\<close>, \<open>pe_text\<close> an exception as text, \<open>pe_alive\<close> whether the
  interpreter can still be attached to. \<open>th_fetch\<close> and \<open>th_send\<close> are the fate of the thread each call of a
  cloud's add-on runs on.
\<close>

record addon_threads =
  th_fetch :: "string \<Rightarrow> string \<Rightarrow> thread_fate"
  th_send :: "string \<Rightarrow> string \<Rightarrow> string \<Rightarrow> string \<Rightarrow> nat \<Rightarrow> thread_fate"

record ('s, 'o) py_host = "'s host" +
  pe_modules :: "string \<Rightarrow> py_module option"
  pe_text :: "py_error \<Rightarrow> string"
  pe_alive :: bool
  pe_threads :: addon_threads
  pe_dumps :: "'o \<Rightarrow> (string, string) res"
  pe_json :: "string \<Rightarrow> (string, json) res"

record 'o py_args =
  pa_source :: string
  pa_event_type :: string
  pa_title :: string
  pa_severity :: string
  pa_message :: "string option"
  pa_environment :: "string option"
  pa_service :: "string option"
  pa_component :: "string option"
  pa_team :: "string option"
  pa_run_id :: "string option"
  pa_correlation_id :: "string option"
  pa_trace_id :: "string option"
  pa_log_url :: "string option"
  pa_metadata :: "'o option"
  pa_dedup_key :: "string option"
  pa_action :: string

definition ADDONS :: "(string \<times> string) list" where
  "ADDONS = [(''aws'', ''opssignal_aws''), (''gcp'', ''opssignal_gcp''), (''azure'', ''opssignal_azure'')]"

definition addon_fetch :: "bool \<Rightarrow> (py_error \<Rightarrow> string) \<Rightarrow> (string \<Rightarrow> (py_error, string) res) \<Rightarrow> string \<Rightarrow> (string, string) res" where
  "addon_fetch alive text f u =
     (if alive then map_err text (f u) else Err ''the Python interpreter is shutting down'')"

definition addon_send :: "bool \<Rightarrow> (py_error \<Rightarrow> string) \<Rightarrow> (string \<Rightarrow> string \<Rightarrow> string \<Rightarrow> nat \<Rightarrow> (py_error, unit) res) \<Rightarrow>
    string \<Rightarrow> string \<Rightarrow> string \<Rightarrow> nat \<Rightarrow> (string, unit) res" where
  "addon_send alive text f prov config_json signal_text k =
     (if alive then map_err text (f prov config_json signal_text k)
      else Err ''the Python interpreter is shutting down'')"

definition register_addons :: "(string \<Rightarrow> py_module option) \<Rightarrow> bool \<Rightarrow> (py_error \<Rightarrow> string) \<Rightarrow> addon_threads \<Rightarrow>
    addons \<Rightarrow> addons" where
  "register_addons modules alive text th ad =
     fold (\<lambda>(c, name) ad. case modules name of
         None \<Rightarrow> ad
       | Some m \<Rightarrow>
           (let ad1 = (case pm_fetch m of
                  Some f \<Rightarrow> register_cloud_fetcher c (\<lambda>u. run_on_thread (th_fetch th c u) (addon_fetch alive text f u)) ad
                | None \<Rightarrow> ad)
            in case pm_send m of
                 Some f \<Rightarrow> register_cloud_sender c (\<lambda>prov cj sj k.
                    run_on_thread (th_send th c prov cj sj k) (addon_send alive text f prov cj sj k)) ad1
               | None \<Rightarrow> ad1)) ADDONS ad"

text \<open>The registries are process-wide; providers, sources and secrets all read them.\<close>

definition with_addons :: "addons \<Rightarrow> ('s, 'x) host_scheme \<Rightarrow> ('s, 'x) host_scheme" where
  "with_addons ad h = h\<lparr>ho_net := (ho_net h)\<lparr>nt_addons := ad\<rparr>,
     ho_chain := (ho_chain h)\<lparr>ch_source := (ch_source (ho_chain h))\<lparr>so_addons := ad\<rparr>,
       ch_secret := (ch_secret (ho_chain h))\<lparr>sv_addons := ad\<rparr>\<rparr>\<rparr>"

text \<open>The process a first call builds its client in: the installed add-ons are registered.\<close>

definition py_build :: "('s, 'o) py_host \<Rightarrow> ('s, 'o) py_host" where
  "py_build e = with_addons (register_addons (pe_modules e) (pe_alive e) (pe_text e) (pe_threads e) (nt_addons (ho_net e))) e"

definition py_client :: "('s, 'o) py_host \<Rightarrow> 's global_client \<Rightarrow> (py_error, 's client) res \<times> 's global_client" where
  "py_client e g =
     (let e1 = (if g = None then py_build e else e);
          r = (case g of Some r \<Rightarrow> r | None \<Rightarrow> map_err error_display (host_client e1))
      in (map_err (\<lambda>m. Runtime_Error (''opssignal is not configured: '' @ m)) r, Some r))"

definition to_json :: "('s, 'o) py_host \<Rightarrow> 'o \<Rightarrow> (py_error, json) res" where
  "to_json e obj =
     and_then (map_err (\<lambda>m. Value_Error (''metadata is not JSON-serialisable: '' @ m)) (pe_dumps e obj)) (\<lambda>text.
     map_err (\<lambda>m. Value_Error (''metadata is not valid JSON: '' @ m)) (pe_json e text))"

definition py_signal_input :: "('s, 'o) py_host \<Rightarrow> 'o py_args \<Rightarrow> (py_error, signal_input) res" where
  "py_signal_input e a =
     and_then (map_err (\<lambda>m. Value_Error (''invalid signal: '' @ m)) (action_from_str (pa_action a))) (\<lambda>act.
     let sev = (case severity_from_str (pa_severity a) of Inr s \<Rightarrow> s | Inl _ \<Rightarrow> Info)
     in and_then (case pa_metadata a of
            Some obj \<Rightarrow> and_then (to_json e obj) (\<lambda>v. Ok (Some v))
          | None \<Rightarrow> Ok None) (\<lambda>metadata.
        let i = \<lparr>in_source = pa_source a, in_service = pa_service a, in_component = pa_component a,
              in_event_type = pa_event_type a, in_severity = sev, in_title = pa_title a, in_message = pa_message a,
              in_environment = pa_environment a, in_team = pa_team a, in_run_id = pa_run_id a,
              in_correlation_id = pa_correlation_id a, in_trace_id = pa_trace_id a, in_log_url = pa_log_url a,
              in_metadata = metadata, in_dedup_key = pa_dedup_key a, in_action = act\<rparr>
        in and_then (map_err (\<lambda>err. Value_Error (''invalid signal: '' @ error_display err)) (validate i)) (\<lambda>_. Ok i)))"

record py_provider_result =
  qr_provider :: string
  qr_status :: string
  qr_error :: "string option"
  qr_attempts :: nat

record py_delivery_result =
  qd_signal_id :: string
  qd_dedup_key :: "string option"
  qd_status :: string
  qd_provider :: "string option"
  qd_error :: "string option"
  qd_attempts :: nat
  qd_deliveries :: "py_provider_result list"
  qd_suppressed :: "string list"
  qd_grouped :: "string list"

definition py_result_of :: "send_report \<Rightarrow> py_delivery_result" where
  "py_result_of rep = (let r = sr_result rep in
     \<lparr>qd_signal_id = sr_signal_id rep, qd_dedup_key = sr_dedup_key rep, qd_status = status_display (dr_status r),
      qd_provider = dr_provider r, qd_error = dr_error r, qd_attempts = dr_attempts r,
      qd_deliveries = map (\<lambda>x. \<lparr>qr_provider = po_provider x, qr_status = status_display (po_status x),
        qr_error = po_error x, qr_attempts = po_attempts x\<rparr>) (dr_deliveries r),
      qd_suppressed = dr_suppressed r, qd_grouped = dr_grouped r\<rparr>)"

definition py_delivered :: "py_delivery_result \<Rightarrow> bool" where
  "py_delivered d \<longleftrightarrow> qd_status d = ''delivered''"

text \<open>A dict of plain values is the JSON object with its items.\<close>

definition py_provider_dict :: "py_provider_result \<Rightarrow> json" where
  "py_provider_dict p = JObj [(''provider'', JStr (qr_provider p)), (''status'', JStr (qr_status p)),
     (''error'', jopt (qr_error p)), (''attempts'', JNum (show_nat (qr_attempts p)))]"

definition py_to_dict :: "py_delivery_result \<Rightarrow> json" where
  "py_to_dict d = JObj [(''signal_id'', JStr (qd_signal_id d)), (''dedup_key'', jopt (qd_dedup_key d)),
     (''status'', JStr (qd_status d)), (''provider'', jopt (qd_provider d)), (''error'', jopt (qd_error d)),
     (''attempts'', JNum (show_nat (qd_attempts d))), (''deliveries'', JArr (map py_provider_dict (qd_deliveries d))),
     (''suppressed'', JArr (map JStr (qd_suppressed d))), (''grouped'', JArr (map JStr (qd_grouped d)))]"

text \<open>\<open>__repr__\<close>, with Rust's \<open>{:?}\<close> of an optional string.\<close>

definition debug_option :: "string option \<Rightarrow> string" where
  "debug_option x = (case x of None \<Rightarrow> ''None'' | Some s \<Rightarrow> ''Some('' @ debug_str s @ '')'')"

definition py_provider_repr :: "py_provider_result \<Rightarrow> string" where
  "py_provider_repr p = ''ProviderResult(provider='' @ debug_str (qr_provider p) @ '', status='' @ debug_str (qr_status p) @
     '', attempts='' @ show_nat (qr_attempts p) @ '')''"

definition py_repr :: "py_delivery_result \<Rightarrow> string" where
  "py_repr d = ''DeliveryResult(status='' @ debug_str (qd_status d) @ '', provider='' @ debug_option (qd_provider d) @
     '', signal_id='' @ debug_str (qd_signal_id d) @ '')''"

definition py_notify :: "'s sink \<Rightarrow> world \<Rightarrow> ('s, 'o) py_host \<Rightarrow> 'o py_args \<Rightarrow> 's global_client \<Rightarrow>
    (py_error, unit) res \<times> 's global_client" where
  "py_notify sk w e a g =
     (case py_signal_input e a of
        Inl err \<Rightarrow> (Err err, g)
      | Inr i \<Rightarrow>
          (case py_client e g of
             (Inl err, g1) \<Rightarrow> (Err err, g1)
           | (Inr cl, _) \<Rightarrow> (Ok (), Some (Ok (notify_async sk w i cl)))))"

text \<open>\<open>timeout\<close> is what \<open>Duration::try_from_secs_f64\<close> makes of the argument.\<close>

definition py_send :: "'s sink \<Rightarrow> world \<Rightarrow> nat list \<Rightarrow> ('s, 'o) py_host \<Rightarrow> 'o py_args \<Rightarrow> (string, nat) res \<Rightarrow> 's global_client \<Rightarrow>
    (py_error, py_delivery_result) res \<times> 's global_client" where
  "py_send sk w sched e a timeout g =
     (case timeout of
        Inl m \<Rightarrow> (Err (Value_Error (''invalid timeout: '' @ m)), g)
      | Inr ms \<Rightarrow>
         (case py_signal_input e a of
            Inl err \<Rightarrow> (Err err, g)
          | Inr i \<Rightarrow>
              (case py_client e g of
                 (Inl err, g1) \<Rightarrow> (Err err, g1)
               | (Inr cl, _) \<Rightarrow>
                   (case send sk w ms sched i cl of
                      (Inl err, cl') \<Rightarrow> (Err (Runtime_Error (''signal not sent: '' @ error_display err)), Some (Ok cl'))
                    | (Inr rep, cl') \<Rightarrow> (Ok (py_result_of rep), Some (Ok cl'))))))"

definition py_flush :: "('s client \<Rightarrow> 's client) \<Rightarrow> (bool \<times> nat) list \<Rightarrow> (string, nat) res \<Rightarrow> 's global_client \<Rightarrow>
    (py_error, bool) res \<times> 's global_client" where
  "py_flush running rounds timeout g =
     (case timeout of
        Inl m \<Rightarrow> (Err (Value_Error (''invalid timeout: '' @ m)), g)
      | Inr _ \<Rightarrow>
         (case g of
            Some (Inr cl) \<Rightarrow> (let (v, cl') = flush running rounds cl in (Ok v, Some (Ok cl')))
          | _ \<Rightarrow> (Ok True, g)))"

subsection \<open>The add-on wheels\<close>

text \<open>What a wheel, a build of the core with one cloud's feature, serves its requests with.\<close>

record wheel =
  wl_no_runtime :: "string option"
  wl_source :: source_env
  wl_secret :: secret_env
  wl_net :: net
  wl_signal :: "string \<Rightarrow> (string, signal) res"
  wl_email_config :: "string \<Rightarrow> (string, email_config) res"

definition send_blocking :: "wheel \<Rightarrow> string \<Rightarrow> string \<Rightarrow> string \<Rightarrow> nat \<Rightarrow> (string, unit) res" where
  "send_blocking wl prov config_json signal_text k =
     and_then (map_err (\<lambda>m. ''invalid signal: '' @ m) (wl_signal wl signal_text)) (\<lambda>sg.
     and_then (if prov = ''email''
         then map_err (\<lambda>m. ''invalid email config: '' @ m) (wl_email_config wl config_json)
         else Err (''unknown provider '' @ debug_str prov)) (\<lambda>c.
     case wl_no_runtime wl of
       Some m \<Rightarrow> Err (''failed to start runtime: '' @ m)
     | None \<Rightarrow>
         map_err (\<lambda>err. case err of Delivery_Error m \<Rightarrow> m | other \<Rightarrow> error_display other)
           (email_send (wl_net wl) c (load (nt_jinja (wl_net wl)) ''email'' (ec_template c)) sg k)))"

definition wheel_fetch :: "wheel \<Rightarrow> string \<Rightarrow> (py_error, string) res" where
  "wheel_fetch wl u = map_err Runtime_Error (fetch_blocking (wl_no_runtime wl) (wl_source wl) (wl_secret wl) u)"

definition wheel_send :: "wheel \<Rightarrow> string \<Rightarrow> string \<Rightarrow> string \<Rightarrow> nat \<Rightarrow> (py_error, unit) res" where
  "wheel_send wl prov config_json signal_text k = map_err Runtime_Error (send_blocking wl prov config_json signal_text k)"

definition wheel_aws :: "wheel \<Rightarrow> py_module" where
  "wheel_aws wl = \<lparr>pm_fetch = Some (wheel_fetch wl), pm_send = Some (wheel_send wl)\<rparr>"

definition wheel_gcp :: "wheel \<Rightarrow> py_module" where
  "wheel_gcp wl = \<lparr>pm_fetch = Some (wheel_fetch wl), pm_send = None\<rparr>"

definition wheel_azure :: "wheel \<Rightarrow> py_module" where
  "wheel_azure wl = \<lparr>pm_fetch = Some (wheel_fetch wl), pm_send = None\<rparr>"

subsection \<open>What a C caller is told\<close>

lemma guarded_simps [simp]:
  "cx_success (guarded f) = (case f of Ran (Inr _) \<Rightarrow> True | _ \<Rightarrow> False)"
  "cx_error (guarded (Ran (Inr u))) = None"
  by (auto simp: guarded_def c_ok_def c_error_def split: ran.splits sum.splits)

lemma guarded_error:
  "case cx_error (guarded f) of None \<Rightarrow> cx_success (guarded f) | Some m \<Rightarrow> \<not> cx_success (guarded f) \<and> CHR 0x00 \<notin> set m"
  by (auto simp: guarded_def c_ok_def c_error_def c_string_def split: ran.splits sum.splits)

lemma send_body_slot:
  assumes "send_body sk w sched e p ms slot g = (g', slot', r)"
  shows "case slot of None \<Rightarrow> slot' = None \<and> (\<exists>m. r = Ran (Inl m))
    | Some _ \<Rightarrow> (case r of
        Ran (Inr _) \<Rightarrow> (\<exists>i cl rep cl' text. parse_input e p = Ran (Ok i) \<and> c_client e g = (Some (Ok cl), Ran (Ok cl)) \<and>
          send sk w ms sched i cl = (Ok rep, cl') \<and> g' = Some (Ok cl') \<and>
          fe_encode e (report_json rep) = Ok text \<and> CHR 0x00 \<notin> set text \<and> slot' = Some (Some text))
      | _ \<Rightarrow> slot' = Some None)"
proof (cases slot)
  case None
  with assms show ?thesis by (auto simp: send_body_def)
next
  case (Some old)
  have known: "g1 = Some (Ok cl)" if "c_client e g = (g1, Ran (Inr cl))" for g1 cl
    using that by (cases g) (auto simp: c_client_def Let_def split: if_splits)
  from assms Some known show ?thesis
    unfolding send_body_def
    by (simp split: ran.splits sum.splits prod.splits if_splits option.splits)
      (auto simp: c_string_def split: if_splits)
qed

lemma c_send_result:
  "case signal_send sk w sched e p ms slot g of (g', slot', c) \<Rightarrow>
     (case cx_error c of None \<Rightarrow> cx_success c | Some m \<Rightarrow> \<not> cx_success c \<and> CHR 0x00 \<notin> set m) \<and>
     (case slot of
        None \<Rightarrow> slot' = None \<and> \<not> cx_success c
      | Some _ \<Rightarrow>
          if cx_success c
          then \<exists>i cl rep cl' text. parse_input e p = Ran (Ok i) \<and> c_client e g = (Some (Ok cl), Ran (Ok cl)) \<and>
            send sk w ms sched i cl = (Ok rep, cl') \<and> g' = Some (Ok cl') \<and>
            fe_encode e (report_json rep) = Ok text \<and> CHR 0x00 \<notin> set text \<and> slot' = Some (Some text)
          else slot' = Some None)"
proof -
  obtain g' slot' r where b: "send_body sk w sched e p ms slot g = (g', slot', r)"
    by (cases "send_body sk w sched e p ms slot g") auto
  from send_body_slot [OF b] guarded_error [of r] show ?thesis
    by (auto simp: signal_send_def b split: option.splits ran.splits sum.splits)
qed

text \<open>
  C27. A C caller can rely on what \<open>signal_send\<close> returns, whatever it passes and whatever panics inside: the
  error is null exactly on success and is a proper C string otherwise; the result pointer, when there
  is one to write to, holds a string exactly on success, which is the report of the send that was
  made, as JSON, and is null otherwise.
\<close>

theorem c_send_result_iff_success:
  "case signal_send sk w sched e p ms slot g of (g', slot', c) \<Rightarrow>
     (case cx_error c of None \<Rightarrow> cx_success c | Some m \<Rightarrow> \<not> cx_success c \<and> CHR 0x00 \<notin> set m) \<and>
     (case slot of
        None \<Rightarrow> slot' = None \<and> \<not> cx_success c
      | Some _ \<Rightarrow>
          if cx_success c
          then \<exists>i cl rep cl' text. parse_input e p = Ran (Ok i) \<and> c_client e g = (Some (Ok cl), Ran (Ok cl)) \<and>
            send sk w ms sched i cl = (Ok rep, cl') \<and> g' = Some (Ok cl') \<and>
            fe_encode e (report_json rep) = Ok text \<and> CHR 0x00 \<notin> set text \<and> slot' = Some (Some text)
          else slot' = Some None)"
  by (rule c_send_result)

subsection \<open>The bindings agree\<close>

lemma py_to_dict_report: "py_to_dict (py_result_of rep) = report_json rep"
  by (simp add: py_to_dict_def py_result_of_def report_json_def py_provider_dict_def outcome_json_def Let_def)

lemma guarded_err: "cx_error (guarded (Ran (Inl m))) = Some (unwrap_or ''error message contained null byte'' (c_string m))"
  by (simp add: guarded_def c_error_def)

text \<open>
  C26. Python and C callers are told the same. A Python result as a dict is the JSON object the C library
  writes, field by field; given the same signal for the same client, \<open>send\<close> and \<open>signal_send\<close> leave the
  same client, both succeed or both fail, with the same report or the same error text; and \<open>flush\<close>
  returns whether \<open>signal_flush\<close> succeeds. (The C call is one in which nothing panics and the report
  can be written as text.)
\<close>

theorem python_and_c_agree:
  assumes "parse_input ce p = Ran (Ok i)" "py_signal_input pe a = Ok i"
    and "\<not> fe_panics ce In_Client" "\<not> fe_panics ce In_Encode"
    and "\<And>rep. \<exists>text. fe_encode ce (report_json rep) = Ok text \<and> CHR 0x00 \<notin> set text"
  shows "(case (signal_send sk w sched ce p ms (Some old) (Some (Ok cl)), py_send sk w sched pe a (Ok ms) (Some (Ok cl))) of
      ((g1, slot, c), (r, g2)) \<Rightarrow> g1 = g2 \<and>
        (case r of
           Inr d \<Rightarrow> cx_success c \<and> (\<exists>text. slot = Some (Some text) \<and> fe_encode ce (py_to_dict d) = Ok text)
         | Inl err \<Rightarrow> slot = Some None \<and> (\<exists>m. err = Runtime_Error m \<and>
             cx_error c = Some (unwrap_or ''error message contained null byte'' (c_string m))))) \<and>
    (case (signal_flush running rounds g, py_flush running rounds (Ok ms) g) of
      ((g1, c), (r, g2)) \<Rightarrow> g1 = g2 \<and> r = Ok (cx_success c))"
proof
  obtain v cl' where s: "send sk w ms sched i cl = (v, cl')" by fastforce
  have cc: "c_client ce (Some (Ok cl)) = (Some (Ok cl), Ran (Ok cl))" by (simp add: c_client_def Let_def)
  have pc: "py_client pe (Some (Ok cl)) = (Ok cl, Some (Ok cl))" by (simp add: py_client_def Let_def)
  show "case (signal_send sk w sched ce p ms (Some old) (Some (Ok cl)), py_send sk w sched pe a (Ok ms) (Some (Ok cl))) of
      ((g1, slot, c), (r, g2)) \<Rightarrow> g1 = g2 \<and>
        (case r of
           Inr d \<Rightarrow> cx_success c \<and> (\<exists>text. slot = Some (Some text) \<and> fe_encode ce (py_to_dict d) = Ok text)
         | Inl err \<Rightarrow> slot = Some None \<and> (\<exists>m. err = Runtime_Error m \<and>
             cx_error c = Some (unwrap_or ''error message contained null byte'' (c_string m))))"
  proof (cases v)
    case (Inl err)
    with s show ?thesis
      by (simp add: signal_send_def send_body_def py_send_def assms(1-4) cc pc guarded_err)
  next
    case (Inr rep)
    from assms(5) obtain t where "fe_encode ce (report_json rep) = Ok t" "CHR 0x00 \<notin> set t" by blast
    with Inr s show ?thesis
      by (simp add: signal_send_def send_body_def py_send_def assms(1-4) cc pc py_to_dict_report c_string_def)
  qed
  show "case (signal_flush running rounds g, py_flush running rounds (Ok ms) g) of
      ((g1, c), (r, g2)) \<Rightarrow> g1 = g2 \<and> r = Ok (cx_success c)"
    by (auto simp: signal_flush_def py_flush_def case_prod_beta Let_def split: option.splits sum.splits)
qed

subsection \<open>A client that could not be built\<close>

inductive calls :: "'s sink \<Rightarrow> 's global_client \<Rightarrow> 's global_client \<Rightarrow> bool" for sk where
  no_call: "calls sk g g"
| notify_call: "calls sk g g1 \<Longrightarrow> signal_notify_async sk w e p g1 = (g2, c) \<Longrightarrow> calls sk g g2"
| send_call: "calls sk g g1 \<Longrightarrow> signal_send sk w sched e p ms slot g1 = (g2, slot', c) \<Longrightarrow> calls sk g g2"
| flush_call: "calls sk g g1 \<Longrightarrow> signal_flush running rounds g1 = (g2, c) \<Longrightarrow> calls sk g g2"

inductive_cases callsE: "calls sk g g'"

lemma c_client_failed: "c_client e (Some (Inl m)) = (Some (Inl m), Ran (Inl (''opssignal is not configured: '' @ m)))"
  by (simp add: c_client_def Let_def)

lemma calls_failed: "calls sk g g' \<Longrightarrow> g = Some (Inl m) \<Longrightarrow> g' = Some (Inl m)"
proof (induction rule: calls.induct)
  case (notify_call g g1 w e p g2 c)
  then show ?case
    by (auto simp: signal_notify_async_def notify_async_body_def c_client_failed split: ran.splits sum.splits)
next
  case (send_call g g1 w sched e p ms slot g2 slot' c)
  then show ?case
    by (auto simp: signal_send_def send_body_def c_client_failed split: ran.splits sum.splits option.splits)
qed (auto simp: signal_flush_def)

text \<open>
  A config error is final for the process: after a first call that could not build the client, no
  call changes the cached error, and every later \<open>signal_send\<close> of a valid signal fails with that same
  error, even if the config has been mended meanwhile (\<open>e'\<close> is any later state of the host).
\<close>

theorem config_error_is_sticky:
  assumes "c_client e None = (g, Ran (Inl m))" "calls sk g g'" "parse_input e' p = Ran (Ok i)"
  shows "g' = g \<and> (case signal_send sk w sched e' p ms (Some old) g' of
    (g'', slot, c) \<Rightarrow> g'' = g \<and> slot = Some None \<and> \<not> cx_success c \<and>
      cx_error c = Some (unwrap_or ''error message contained null byte'' (c_string m)))"
proof -
  from assms(1) obtain err where g: "g = Some (Inl err)" and m: "m = ''opssignal is not configured: '' @ err"
    by (cases "map_err error_display (host_client e)") (auto simp: c_client_def Let_def split: if_splits)
  from calls_failed [OF assms(2) g] have g': "g' = Some (Inl err)" .
  then have "send_body sk w sched e' p ms (Some old) g' = (g', Some None, Ran (Inl m))"
    by (simp add: send_body_def assms(3) c_client_failed m)
  with g g' show ?thesis by (simp add: signal_send_def guarded_err)
qed

subsection \<open>Add-ons\<close>

lemma cloud_of_scheme_in: "cloud_of_scheme s = Some c \<Longrightarrow> \<exists>ss. (c, ss) \<in> set CLOUD_SCHEMES \<and> s \<in> set ss"
  unfolding cloud_of_scheme_def by (auto simp: find_Some_iff) (metis nth_mem)

lemma cloud_schemes_disjoint:
  "(c, ss) \<in> set CLOUD_SCHEMES \<Longrightarrow> (c', ss') \<in> set CLOUD_SCHEMES \<Longrightarrow> s \<in> set ss \<Longrightarrow> s \<in> set ss' \<Longrightarrow> c = c'"
  by (auto simp: CLOUD_SCHEMES_def)

lemma register_cloud_fold:
  "registered_fetcher (fold (\<lambda>(name, schemes) ad. if name = c then fold (\<lambda>s. register_fetcher s f) schemes ad else ad) cs ad) s =
     (if \<exists>ss. (c, ss) \<in> set cs \<and> s \<in> set ss then Some f else registered_fetcher ad s)"
  by (induction cs arbitrary: ad) (auto simp: fetchers_fold)

lemma register_cloud_fetcher_fetchers:
  assumes "cloud_of_scheme s = Some d"
  shows "registered_fetcher (register_cloud_fetcher c f ad) s = (if c = d then Some f else registered_fetcher ad s)"
  using cloud_of_scheme_in [OF assms] cloud_schemes_disjoint
  unfolding register_cloud_fetcher_def register_cloud_fold by auto

lemma register_cloud_sender_frame [simp]:
  "registered_fetcher (register_cloud_sender c f ad) s = registered_fetcher ad s"
  "ad_features (register_cloud_sender c f ad) = ad_features ad"
  by (simp_all add: registered_fetcher_def register_cloud_sender_def)

lemma register_cloud_fetcher_features [simp]: "ad_features (register_cloud_fetcher c f ad) = ad_features ad"
proof -
  have one: "ad_features (fold (\<lambda>s. register_fetcher s f) ss ad) = ad_features ad" for ss ad
    by (induction ss arbitrary: ad) (simp_all add: register_fetcher_def)
  have "ad_features (fold (\<lambda>(name, schemes) ad. if name = c then fold (\<lambda>s. register_fetcher s f) schemes ad else ad) cs ad)
      = ad_features ad" for cs
    by (induction cs arbitrary: ad) (auto simp: one)
  then show ?thesis by (simp add: register_cloud_fetcher_def)
qed

text \<open>What is registered for a cloud is the fetcher of its own add-on, whatever the other add-ons are.\<close>

lemma register_addons_fetcher:
  assumes "cloud_of_scheme s = Some c" "(c, name) \<in> set ADDONS" "modules name = Some m" "pm_fetch m = Some f"
  shows "registered_fetcher (register_addons modules alive errtext th ad) s = Some (\<lambda>u. run_on_thread (th_fetch th c u) (addon_fetch alive errtext f u)) \<and>
    ad_features (register_addons modules alive errtext th ad) = ad_features ad"
proof -
  define add where "add = (\<lambda>(c, name) ad. case modules name of
         None \<Rightarrow> ad
       | Some m \<Rightarrow>
           (let ad1 = (case pm_fetch m of
                  Some f \<Rightarrow> register_cloud_fetcher c (\<lambda>u. run_on_thread (th_fetch th c u) (addon_fetch alive errtext f u)) ad
                | None \<Rightarrow> ad)
            in case pm_send m of
                 Some f \<Rightarrow> register_cloud_sender c (\<lambda>prov cj sj k.
                    run_on_thread (th_send th c prov cj sj k) (addon_send alive errtext f prov cj sj k)) ad1
               | None \<Rightarrow> ad1))"
  have own: "registered_fetcher (add (c, name) ad) s = Some (\<lambda>u. run_on_thread (th_fetch th c u) (addon_fetch alive errtext f u))" for ad
    using assms(3,4) by (simp add: add_def register_cloud_fetcher_fetchers [OF assms(1)] Let_def split: option.split)
  have other: "registered_fetcher (add (d, n) ad) s = registered_fetcher ad s" if "d \<noteq> c" for d n ad
    using that by (simp add: add_def register_cloud_fetcher_fetchers [OF assms(1)] Let_def split: option.split)
  have feat: "ad_features (add x ad) = ad_features ad" for x ad
    by (cases x) (simp add: add_def Let_def split: option.split)
  have all: "register_addons modules alive errtext th ad =
      add (''azure'', ''opssignal_azure'') (add (''gcp'', ''opssignal_gcp'') (add (''aws'', ''opssignal_aws'') ad))"
    by (simp add: register_addons_def add_def ADDONS_def)
  consider "c = ''aws''" "name = ''opssignal_aws''" | "c = ''gcp''" "name = ''opssignal_gcp''" | "c = ''azure''" "name = ''opssignal_azure''"
    using assms(2) by (auto simp: ADDONS_def)
  then have "registered_fetcher (register_addons modules alive errtext th ad) s = Some (\<lambda>u. run_on_thread (th_fetch th c u) (addon_fetch alive errtext f u))"
    using own other by cases (simp_all add: all)
  then show ?thesis by (simp add: all feat)
qed

lemma cloud_Http: "cloud (Http u) = None"
  by (cases "starts_with ''http://'' u") (simp_all add: cloud_def cloud_of_scheme_def CLOUD_SCHEMES_def)

lemma cloud_File: "cloud (File p) = None"
  by (simp add: cloud_def cloud_of_scheme_def CLOUD_SCHEMES_def)

lemma cloud_source_is_no_secret:
  assumes "cloud src = Some c"
  shows "(case split_once CHR '':'' (source_display src) of Some (s, _) \<Rightarrow> s \<in> set (map fst STORES) | None \<Rightarrow> False) = False"
  using assms by (cases src) (simp_all add: cloud_Http cloud_File STORES_def)

text \<open>
  C25. The process a Python client is built in, with a cloud's add-on installed and the cloud not compiled
  in, reads a config source of that cloud as the add-on's own native code does: given a source parsed
  from a text without white space inside, it returns the same text, or fails whenever the native read
  fails. This is as long as the interpreter is up, the wheel can start its runtime and the read's thread
  starts and answers within its 20 seconds; otherwise the read fails as a config error. The request
  crosses the boundary as the source's text and is parsed again there.
\<close>

theorem addon_reads_like_native_build:
  assumes "parse_source raw = Ok src" "list_all (\<lambda>c. \<not> is_ws c) (trim raw)"
    and "cloud src = Some c" "(c, name) \<in> set ADDONS" "pe_modules e name = Some m"
    and "pm_fetch m = Some (wheel_fetch wl)" "c \<notin> set (ad_features (nt_addons (ho_net e)))"
  shows "if pe_alive e \<and> wl_no_runtime wl = None \<and> th_fetch (pe_threads e) c (source_display src) = Returns
    then map_err (\<lambda>_. ()) (fetch (ch_source (ho_chain (py_build e))) src) = map_err (\<lambda>_. ()) (fetch (wl_source wl) src)
    else \<exists>why. fetch (ch_source (ho_chain (py_build e))) src = Err (Config_Error why)"
proof -
  let ?b = "ch_source (ho_chain (py_build e))"
  from assms(3) have s: "cloud_of_scheme (scheme src) = Some c" by (simp add: cloud_def)
  have ad: "so_addons ?b = register_addons (pe_modules e) (pe_alive e) (pe_text e) (pe_threads e) (nt_addons (ho_net e))"
    by (simp add: py_build_def with_addons_def)
  from register_addons_fetcher [where modules = "pe_modules e", OF s assms(4-6)]
  have reg: "registered_fetcher (so_addons ?b) (scheme src) =
      Some (\<lambda>u. run_on_thread (th_fetch (pe_threads e) c u) (addon_fetch (pe_alive e) (pe_text e) (wheel_fetch wl) u))"
    and feat: "ad_features (so_addons ?b) = ad_features (nt_addons (ho_net e))" unfolding ad by simp_all
  have "\<not> built_in (so_addons ?b) c" using assms(7) by (auto simp: built_in_def feat)
  then have cl: "fetch_cloud ?b src = fetch_external (so_addons ?b) (scheme src) (source_display src)"
    using assms(3) by (simp add: fetch_cloud_def)
  have un: "fetch_unprefixed ?b src = fetch_cloud ?b src"
    using assms(3) by (cases src) (simp_all add: fetch_unprefixed_def cloud_Http cloud_File)
  have again: "parse_source (source_display src) = Ok src" using parse_source_again [OF assms(1,2)] .
  have wheel: "wheel_fetch wl (source_display src) =
      map_err Runtime_Error (map_err message (fetch_unprefixed (wl_source wl) src))" if "wl_no_runtime wl = None"
    using that cloud_source_is_no_secret [OF assms(3)] again by (simp add: wheel_fetch_def fetch_blocking_def)
  have broken: "\<exists>err. wheel_fetch wl (source_display src) = Inl err" if "wl_no_runtime wl \<noteq> None"
    using that by (auto simp: wheel_fetch_def fetch_blocking_def)
  show ?thesis
  proof (cases "pe_alive e \<and> wl_no_runtime wl = None \<and> th_fetch (pe_threads e) c (source_display src) = Returns")
    case True
    then show ?thesis
      by (cases "fetch_unprefixed (wl_source wl) src")
        (simp_all add: fetch_def un cl fetch_external_def ok_or_def reg run_on_thread_def addon_fetch_def wheel)
  next
    case False
    have "\<exists>why. fetch_external (so_addons ?b) (scheme src) (source_display src) = Err (Config_Error why)"
      using False broken
      by (cases "th_fetch (pe_threads e) c (source_display src)")
        (auto simp: fetch_external_def ok_or_def reg run_on_thread_def addon_fetch_def)
    then have "\<exists>why. fetch ?b src = Err (Config_Error why)" by (auto simp: fetch_def un cl)
    with False show ?thesis by auto
  qed
qed

subsection \<open>A sample process\<close>

definition sample_c_host :: "bool \<Rightarrow> unit c_host" where
  "sample_c_host broken = \<lparr>ho_vars = (\<lambda>v. if broken \<and> v = REFRESH_ENV_VAR then Some ''soon'' else None), ho_temp_dir = ''/tmp'',
     ho_is_file = (\<lambda>_. False), ho_no_runtime = None, ho_net = sample_net, ho_openers = ho_openers sample_cli_env,
     ho_chain = sample_chain_env (\<lambda>_. []), ho_written = (\<lambda>_. Written), ho_pid = 7, ho_secrets = [], ho_files = [],
     fe_utf8 = Inr, fe_signal = (\<lambda>_. Inr sample_input), fe_encode = (\<lambda>_. Inr ''{}''), fe_panics = (\<lambda>_. False),
     fe_wreck = (\<lambda>cl. cl)\<rparr>"

definition sample_py_host :: "(unit, unit) py_host" where
  "sample_py_host = \<lparr>ho_vars = (\<lambda>_. None), ho_temp_dir = ''/tmp'',
     ho_is_file = (\<lambda>_. False), ho_no_runtime = None, ho_net = sample_net, ho_openers = ho_openers sample_cli_env,
     ho_chain = sample_chain_env (\<lambda>_. []), ho_written = (\<lambda>_. Written), ho_pid = 7, ho_secrets = [], ho_files = [],
     pe_modules = (\<lambda>_. None), pe_text = (\<lambda>_. []), pe_alive = True,
     pe_threads = \<lparr>th_fetch = (\<lambda>_ _. Returns), th_send = (\<lambda>_ _ _ _ _. Returns)\<rparr>, pe_dumps = (\<lambda>_. Inr ''{}''), pe_json = (\<lambda>_. Inr JNull)\<rparr>"

definition sample_py_args :: "unit py_args" where
  "sample_py_args = \<lparr>pa_source = ''airflow'', pa_event_type = ''task_failed'', pa_title = ''t'', pa_severity = ''error'',
     pa_message = None, pa_environment = None, pa_service = None, pa_component = None, pa_team = None, pa_run_id = None,
     pa_correlation_id = None, pa_trace_id = None, pa_log_url = None, pa_metadata = None, pa_dedup_key = Some ''etl.load'',
     pa_action = ''trigger''\<rparr>"

lemma sample_c_parse: "parse_input (sample_c_host broken) (Some json) = Ran (Ok sample_input)"
  by (simp add: parse_input_def sample_c_host_def sample_input_valid)

lemma sample_py_input: "py_signal_input sample_py_host sample_py_args = Ok sample_input"
proof -
  have s: "severity_from_str ''error'' = Ok Error" and a: "action_from_str ''trigger'' = Ok Trigger" by code_simp+
  let ?i = "\<lparr>in_source = ''airflow'', in_service = None, in_component = None, in_event_type = ''task_failed'', in_severity = Error,
     in_title = ''t'', in_message = None, in_environment = None, in_team = None, in_run_id = None, in_correlation_id = None,
     in_trace_id = None, in_log_url = None, in_metadata = None, in_dedup_key = Some ''etl.load'', in_action = Trigger\<rparr>"
  have i: "?i = sample_input" by (simp add: sample_input_def default_input_def)
  have v: "validate ?i = Inr ()" unfolding i by (rule sample_input_valid)
  show ?thesis by (simp add: py_signal_input_def sample_py_args_def s a Let_def v) (simp add: i)
qed

theorem python_and_c_agree_witness:
  "\<exists>d g. py_send quiet_sink sample_world [0, 0] sample_py_host sample_py_args (Ok 5000) (Some (Ok sample_cli_client)) = (Ok d, g) \<and>
     signal_send quiet_sink sample_world [0, 0] (sample_c_host False) (Some ''{}'') 5000 (Some None) (Some (Ok sample_cli_client)) =
       (g, Some (Some ''{}''), \<lparr>cx_success = True, cx_error = None\<rparr>)"
proof -
  let ?c = "signal_send quiet_sink sample_world [0, 0] (sample_c_host False) (Some ''{}'') 5000 (Some None) (Some (Ok sample_cli_client))"
  let ?p = "py_send quiet_sink sample_world [0, 0] sample_py_host sample_py_args (Ok 5000) (Some (Ok sample_cli_client))"
  have e: "\<exists>text. fe_encode (sample_c_host False) (report_json rep) = Ok text \<and> CHR 0x00 \<notin> set text" for rep
    by (simp add: sample_c_host_def)
  have "case (?c, ?p) of ((g1, slot, c), (r, g2)) \<Rightarrow> g1 = g2 \<and>
        (case r of
           Inr d \<Rightarrow> cx_success c \<and> (\<exists>text. slot = Some (Some text) \<and> fe_encode (sample_c_host False) (py_to_dict d) = Ok text)
         | Inl err \<Rightarrow> slot = Some None \<and> (\<exists>m. err = Runtime_Error m \<and>
             cx_error c = Some (unwrap_or ''error message contained null byte'' (c_string m))))"
    by (rule python_and_c_agree [where running = "\<lambda>cl. cl" and rounds = "[]" and g = None, THEN conjunct1,
          OF sample_c_parse [of False "''{}''"] sample_py_input _ _ e])
      (simp_all add: sample_c_host_def)
  moreover have "in_action sample_input = Trigger" by (simp add: sample_input_def default_input_def)
  from sample_cli_send(1) [OF sample_input_valid this, of 5000] obtain rep cl' where
    "send quiet_sink sample_world 5000 [0, 0] sample_input sample_cli_client = (Inr rep, cl')" by blast
  then have p: "?p = (Ok (py_result_of rep), Some (Ok cl'))"
    by (simp add: py_send_def sample_py_input py_client_def Let_def)
  ultimately obtain slot c where c: "?c = (Some (Ok cl'), slot, c)" "cx_success c" "slot = Some (Some ''{}'')"
    by (cases ?c) (auto simp: sample_c_host_def)
  moreover from c(1,2) have "cx_error c = None"
    using c_send_result [where sk = quiet_sink and w = sample_world and sched = "[0, 0]" and e = "sample_c_host False"
        and p = "Some ''{}''" and ms = 5000 and slot = "Some None" and g = "Some (Ok sample_cli_client)"]
    by (simp split: option.splits)
  ultimately have "?c = (Some (Ok cl'), Some (Some ''{}''), \<lparr>cx_success = True, cx_error = None\<rparr>)" by (cases c) simp
  with p show ?thesis by blast
qed

theorem config_error_is_sticky_witness:
  "\<exists>g m. c_client (sample_c_host True) None = (g, Ran (Inl m)) \<and>
     (case signal_send quiet_sink sample_world [0, 0] (sample_c_host False) (Some ''{}'') 5000 (Some None) g of
       (g'', slot, c) \<Rightarrow> g'' = g \<and> slot = Some None \<and> \<not> cx_success c)"
proof -
  obtain err where "host_client (sample_c_host True) = Inl err"
    by (simp add: host_client_def client_from_env_def load_options_from_env_def sample_c_host_def REFRESH_ENV_VAR_def
        parse_u64_def trim_def trim_start_def trim_end_def is_ws_def is_digit_def)
  then have c: "c_client (sample_c_host True) None =
      (Some (Inl (error_display err)), Ran (Inl (''opssignal is not configured: '' @ error_display err)))"
    by (simp add: c_client_def Let_def sample_c_host_def)
  from config_error_is_sticky [OF c no_call sample_c_parse [of False "''{}''"],
        where w = sample_world and sched = "[0, 0]" and ms = 5000 and old = None and sk = quiet_sink]
  show ?thesis
    by - (intro exI [of _ "Some (Inl (error_display err))"] exI conjI, rule c, auto split: prod.splits)
qed

text \<open>The AWS wheel, whose native code is reached through the add-on of a base build.\<close>

definition sample_wheel :: wheel where
  "sample_wheel = \<lparr>wl_no_runtime = None,
     wl_source = (ch_source (sample_chain_env (\<lambda>_. [])))\<lparr>so_addons := \<lparr>ad_features = [''aws''], ad_fetchers = [], ad_senders = []\<rparr>,
       so_native := (\<lambda>src. if src = S3 ''ops'' ''signal.yaml'' then Inr ''routes: []'' else Inl (Config_Error ''denied''))\<rparr>,
     wl_secret = ch_secret (sample_chain_env (\<lambda>_. [])), wl_net = sample_net,
     wl_signal = (\<lambda>_. Inl ''no''), wl_email_config = (\<lambda>_. Inl ''no'')\<rparr>"

definition aws_py_host :: "(unit, unit) py_host" where
  "aws_py_host = sample_py_host\<lparr>pe_modules := (\<lambda>n. if n = ''opssignal_aws'' then Some (wheel_aws sample_wheel) else None)\<rparr>"

theorem addon_reads_like_native_build_witness:
  "fetch (ch_source (ho_chain (py_build aws_py_host))) (S3 ''ops'' ''signal.yaml'') = Ok ''routes: []'' \<and>
   (\<exists>why. fetch (ch_source (ho_chain (py_build (aws_py_host\<lparr>pe_threads := \<lparr>th_fetch = (\<lambda>_ _. Too_Late),
      th_send = (\<lambda>_ _ _ _ _. Returns)\<rparr>\<rparr>)))) (S3 ''ops'' ''signal.yaml'') = Err (Config_Error why))"
proof -
  let ?src = "S3 ''ops'' ''signal.yaml''"
  have parsed: "parse_source ''s3://ops/signal.yaml'' = Ok ?src" by code_simp
  have plain: "list_all (\<lambda>c. \<not> is_ws c) (trim ''s3://ops/signal.yaml'')" by code_simp
  have cl: "cloud ?src = Some ''aws''" by code_simp
  have reads: "if pe_alive e \<and> wl_no_runtime sample_wheel = None \<and> th_fetch (pe_threads e) ''aws'' (source_display ?src) = Returns
    then map_err (\<lambda>_. ()) (fetch (ch_source (ho_chain (py_build e))) ?src) = map_err (\<lambda>_. ()) (fetch (wl_source sample_wheel) ?src)
    else \<exists>why. fetch (ch_source (ho_chain (py_build e))) ?src = Err (Config_Error why)"
    if "pe_modules e = pe_modules aws_py_host" "ho_net e = sample_net" for e :: "(unit, unit) py_host"
    by (rule addon_reads_like_native_build [OF parsed plain cl, where name = "''opssignal_aws''" and m = "wheel_aws sample_wheel"])
      (simp_all add: that ADDONS_def wheel_aws_def aws_py_host_def sample_net_def)
  have "fetch (wl_source sample_wheel) ?src = Ok ''routes: []''"
    by (simp add: fetch_def fetch_unprefixed_def fetch_cloud_def cl built_in_def sample_wheel_def)
  with reads [of aws_py_host] have "fetch (ch_source (ho_chain (py_build aws_py_host))) ?src = Ok ''routes: []''"
    by (cases "fetch (ch_source (ho_chain (py_build aws_py_host))) ?src")
      (simp_all add: aws_py_host_def sample_py_host_def sample_wheel_def)
  moreover from reads [of "aws_py_host\<lparr>pe_threads := \<lparr>th_fetch = (\<lambda>_ _. Too_Late), th_send = (\<lambda>_ _ _ _ _. Returns)\<rparr>\<rparr>"]
  have "\<exists>why. fetch (ch_source (ho_chain (py_build (aws_py_host\<lparr>pe_threads := \<lparr>th_fetch = (\<lambda>_ _. Too_Late),
      th_send = (\<lambda>_ _ _ _ _. Returns)\<rparr>\<rparr>)))) ?src = Err (Config_Error why)"
    by (simp add: aws_py_host_def sample_py_host_def)
  ultimately show ?thesis by blast
qed

end
