(* ===== verification/Cloud_Base.thy ===== *)
theory Cloud_Base
  imports Source_Reads Provider_Payloads
begin

text \<open>
  What the cloud modules share (\<^verbatim>\<open>crates/core/src/cloud/mod.rs\<close>): building a client, reading an object,
  turning a response into an error, and the rule for endpoint overrides. HTTP, URLs, the object
  store clients with their credential chains, base64, serde and the clock are the parameters in
  \<open>cloud_env\<close>; the caches the modules keep between calls are the state \<open>cloud_state\<close>.
\<close>

subsection \<open>Requests and what answers them\<close>

record request =
  rq_method :: string
  rq_url :: string
  rq_headers :: "(string \<times> string) list"
  rq_body :: string

record reply =
  rp_status :: nat
  rp_headers :: "(string \<times> string) list"
  rp_body :: "(string, string) res"

text \<open>
  A URL is its text. \<open>cd_url_extend\<close> appends path segments (not to a URL that cannot be a base),
  \<open>cd_url_pairs\<close> query parameters. \<open>cd_object\<close> is \<open>None\<close> when the read does not end in time.
\<close>

record cloud_env =
  cd_var :: "string \<Rightarrow> string option"
  cd_read_file :: "string \<Rightarrow> (string, string) res"
  cd_now :: int
  cd_later :: int
  cd_client :: "(string, unit) res"
  cd_http :: "request \<Rightarrow> (string, reply) res"
  cd_status :: "nat \<Rightarrow> string"
  cd_lossy :: "string \<Rightarrow> string"
  cd_utf8 :: "string \<Rightarrow> string option"
  cd_json :: "string \<Rightarrow> (string, json) res"
  cd_json_text :: "json \<Rightarrow> string"
  cd_misfit :: "string \<Rightarrow> string"
  cd_url_parse :: "string \<Rightarrow> (string, string) res"
  cd_url_scheme :: "string \<Rightarrow> string"
  cd_url_host :: "string \<Rightarrow> string option"
  cd_url_extend :: "string \<Rightarrow> string list \<Rightarrow> string option"
  cd_url_pairs :: "string \<Rightarrow> (string \<times> string) list \<Rightarrow> string"
  cd_form :: "(string \<times> string) list \<Rightarrow> string"
  cd_percent :: "string \<Rightarrow> string"
  cd_date :: string
  cd_base64 :: "string \<Rightarrow> string"
  cd_unbase64 :: "string \<Rightarrow> (string, string) res"
  cd_store :: "string \<Rightarrow> string \<Rightarrow> (string, unit) res"
  cd_object :: "string \<Rightarrow> string \<Rightarrow> string \<Rightarrow> (string, string) res option"
  cd_aws_credential :: "(string, string) res"
  cd_gcp_credential :: "(string, string) res"
  cd_builds :: "request \<Rightarrow> (string, unit) res"
  cd_sign :: "string \<Rightarrow> string \<Rightarrow> string \<Rightarrow> request \<Rightarrow> (string, request) res"

text \<open>
  Azure tokens by scope with the time they are used until, values with their ETag by URL, and
  AppConfig sessions (token for the next poll, configuration last received) by profile.
\<close>

record cloud_state =
  cs_tokens :: "(string \<times> string \<times> int) list"
  cs_etags :: "(string \<times> string \<times> string) list"
  cs_sessions :: "(string \<times> string \<times> string) list"

subsection \<open>Shared functions\<close>

definition status_err :: "cloud_env \<Rightarrow> nat \<Rightarrow> string \<Rightarrow> signal_error" where
  "status_err e status body =
     (let start = take 300 (trim (cd_lossy e body))
      in if start = [] then Config_Error (''server returned '' @ cd_status e status)
         else Config_Error (''server returned '' @ cd_status e status @ '': '' @ start))"

definition check_endpoint :: "cloud_env \<Rightarrow> string \<Rightarrow> (signal_error, unit) res" where
  "check_endpoint e u =
     and_then (map_err (\<lambda>m. Config_Error (u @ '': '' @ m)) (cd_url_parse e u)) (\<lambda>parsed.
       let loopback = (cd_url_host e parsed \<in> {Some ''localhost'', Some ''127.0.0.1'', Some ''[::1]''})
       in if cd_url_scheme e parsed = ''https'' \<or> (cd_url_scheme e parsed = ''http'' \<and> loopback) then Ok ()
          else Err (Config_Error (u @ '': endpoints must use https:// (plain http:// only for localhost)'')))"

definition utf8_text :: "cloud_env \<Rightarrow> string \<Rightarrow> (signal_error, string) res" where
  "utf8_text e bytes = ok_or (Config_Error ''config is not valid UTF-8'') (cd_utf8 e bytes)"

definition fetch_object :: "cloud_env \<Rightarrow> string \<Rightarrow> string \<Rightarrow> string \<Rightarrow> (signal_error, string) res" where
  "fetch_object e c bucket path =
     and_then (ok_or (Config_Error (''timed out after '' @ debug_duration 10000)) (cd_object e c bucket path)) (\<lambda>got.
     and_then (map_err Config_Error got) (utf8_text e))"

text \<open>A store is built for a bucket before it is read.\<close>

definition fetch_stored :: "cloud_env \<Rightarrow> string \<Rightarrow> string \<Rightarrow> string \<Rightarrow> (signal_error, string) res" where
  "fetch_stored e c bucket path =
     and_then (map_err Config_Error (cd_store e c bucket)) (\<lambda>_. fetch_object e c bucket path)"

text \<open>A request on the plain client, with the body read: \<open>client()?.execute(..)\<close> and \<open>resp.bytes()\<close>.\<close>

definition exchange :: "cloud_env \<Rightarrow> (string \<Rightarrow> string) \<Rightarrow> request \<Rightarrow> (signal_error, reply) res" where
  "exchange e describe_error r =
     and_then (map_err Config_Error (cd_client e)) (\<lambda>_.
     map_err (\<lambda>m. Config_Error (describe_error m)) (cd_http e r))"

definition body_of :: "reply \<Rightarrow> (signal_error, string) res" where
  "body_of r = map_err Config_Error (rp_body r)"

text \<open>The body of a successful reply.\<close>

definition success_body :: "cloud_env \<Rightarrow> reply \<Rightarrow> (signal_error, string) res" where
  "success_body e r =
     and_then (body_of r) (\<lambda>b. if \<not> is_success (rp_status r) then Err (status_err e (rp_status r) b) else Ok b)"

definition parse_reply :: "cloud_env \<Rightarrow> string \<Rightarrow> string \<Rightarrow> (signal_error, json) res" where
  "parse_reply e what b = map_err (\<lambda>m. Config_Error (''unexpected '' @ what @ '' response: '' @ m)) (cd_json e b)"

text \<open>
  \<open>cd_json\<close> gives an object the entries of the text, in its order. A \<open>serde_json::Value\<close> keeps the last
  entry of each name. A derived struct takes its fields from an object that names none of them twice,
  or from an array with just their values; a missing field is \<open>None\<close> here.
\<close>

fun as_value :: "json \<Rightarrow> json" where
  "as_value (JArr xs) = JArr (map as_value xs)"
| "as_value (JObj kvs) = JObj (fold (\<lambda>(k, v). AList.update k v) (map (\<lambda>(k, v). (k, as_value v)) kvs) [])"
| "as_value v = v"

definition parse_value_reply :: "cloud_env \<Rightarrow> string \<Rightarrow> string \<Rightarrow> (signal_error, json) res" where
  "parse_value_reply e what b = and_then (parse_reply e what b) (\<lambda>v. Ok (as_value v))"

definition struct_fields :: "string list \<Rightarrow> json \<Rightarrow> json option list option" where
  "struct_fields names v =
     (case v of
        JObj kvs \<Rightarrow>
          if list_all (\<lambda>n. length (filter (\<lambda>(k, _). k = n) kvs) \<le> 1) names then Some (map (map_of kvs) names) else None
      | JArr xs \<Rightarrow> if length xs = length names then Some (map Some xs) else None
      | _ \<Rightarrow> None)"

text \<open>An \<open>Option<String>\<close> field; \<open>None\<close> is a value that does not fit.\<close>

definition opt_text :: "json option \<Rightarrow> string option option" where
  "opt_text x = (case x of None \<Rightarrow> Some None | Some JNull \<Rightarrow> Some None | Some (JStr s) \<Rightarrow> Some (Some s) | _ \<Rightarrow> None)"

definition url_parsed :: "cloud_env \<Rightarrow> string \<Rightarrow> (signal_error, string) res" where
  "url_parsed e u = map_err Config_Error (cd_url_parse e u)"

definition url_extended :: "cloud_env \<Rightarrow> string \<Rightarrow> string \<Rightarrow> string list \<Rightarrow> (signal_error, string) res" where
  "url_extended e base u segs = ok_or (Config_Error (base @ '' cannot be a base URL'')) (cd_url_extend e u segs)"

text \<open>\<open>str::replace\<close> with a non-empty pattern.\<close>

lemma find_sub_length: "find_sub p s = Some (a, b) \<Longrightarrow> length s = length a + length p + length b"
  using find_sub_Some by fastforce

function replace_all :: "string \<Rightarrow> string \<Rightarrow> string \<Rightarrow> string" where
  "replace_all pat by_text s =
     (if pat = [] then s
      else case find_sub pat s of
        None \<Rightarrow> s
      | Some (a, b) \<Rightarrow> a @ by_text @ replace_all pat by_text b)"
  by pat_completeness auto

termination
  by (relation "measure (\<lambda>(_, _, s). length s)") (auto simp del: find_sub.simps dest!: find_sub_length)

declare replace_all.simps [simp del]

text \<open>\<open>trim_end_matches\<close> with a non-empty string.\<close>

function trim_end_text :: "string \<Rightarrow> string \<Rightarrow> string" where
  "trim_end_text pat s =
     (if pat \<noteq> [] \<and> length pat \<le> length s \<and> drop (length s - length pat) s = pat
      then trim_end_text pat (take (length s - length pat) s) else s)"
  by pat_completeness auto

termination
proof (relation "measure (\<lambda>(_, s). length s)")
  show "((pat, take (length s - length pat) s), (pat, s)) \<in> measure (\<lambda>(_, s). length s)"
    if "pat \<noteq> [] \<and> length pat \<le> length s \<and> drop (length s - length pat) s = pat" for pat s :: string
    using that by (cases pat) auto
qed simp

declare trim_end_text.simps [simp del]

text \<open>A JSON pointer, as \<open>serde_json\<close> resolves it.\<close>

definition pointer_index :: "string \<Rightarrow> nat option" where
  "pointer_index t = (case t of [] \<Rightarrow> None | c # cs \<Rightarrow>
     if c = CHR ''+'' \<or> (c = CHR ''0'' \<and> cs \<noteq> []) then None else parse_u64 t)"

fun pointer_steps :: "json \<Rightarrow> string list \<Rightarrow> json option" where
  "pointer_steps v [] = Some v"
| "pointer_steps v (t # ts) =
     (case v of
        JObj kvs \<Rightarrow> (case map_of kvs t of None \<Rightarrow> None | Some x \<Rightarrow> pointer_steps x ts)
      | JArr xs \<Rightarrow>
          (case pointer_index t of
             None \<Rightarrow> None
           | Some i \<Rightarrow> if i < length xs then pointer_steps (xs ! i) ts else None)
      | _ \<Rightarrow> None)"

definition json_pointer :: "json \<Rightarrow> string \<Rightarrow> json option" where
  "json_pointer v p =
     (case p of
        [] \<Rightarrow> Some v
      | c # rest \<Rightarrow>
          if c \<noteq> CHR ''/'' then None
          else pointer_steps v
            (map (\<lambda>t. replace_all ''~0'' ''~'' (replace_all ''~1'' ''/'' t)) (split_on CHR ''/'' rest)))"

end
