(* ===== verification/Cloud_Aws.thy ===== *)
theory Cloud_Aws
  imports Cloud_Base
begin

text \<open>
  AWS: S3, AppConfig, DynamoDB, Secrets Manager and SES (\<^verbatim>\<open>crates/core/src/cloud/aws.rs\<close>). Every call
  but S3's is signed for its service and region. The AppConfig polling sessions are the only state.
\<close>

definition fetch_s3 :: "cloud_env \<Rightarrow> string \<Rightarrow> string \<Rightarrow> (signal_error, string) res" where
  "fetch_s3 e bucket key = fetch_stored e ''aws'' bucket key"

definition aws_credential :: "cloud_env \<Rightarrow> (signal_error, string) res" where
  "aws_credential e =
     and_then (map_err Config_Error (cd_store e ''aws'' ''opssignal-unused'')) (\<lambda>_.
     map_err (\<lambda>m. Config_Error (''cannot get AWS credentials: '' @ m)) (cd_aws_credential e))"

definition aws_region :: "cloud_env \<Rightarrow> string" where
  "aws_region e = unwrap_or ''us-east-1'' (or_opt (cd_var e ''AWS_REGION'') (cd_var e ''AWS_DEFAULT_REGION''))"

definition aws_endpoint :: "cloud_env \<Rightarrow> string \<Rightarrow> string \<Rightarrow> string \<Rightarrow> (signal_error, string) res" where
  "aws_endpoint e service_env host reg =
     (case or_opt (cd_var e (''AWS_ENDPOINT_URL_'' @ service_env)) (cd_var e ''AWS_ENDPOINT_URL'') of
        Some u \<Rightarrow> and_then (check_endpoint e u) (\<lambda>_. Ok (trim_end_slashes u))
      | None \<Rightarrow> Ok (''https://'' @ host @ ''.'' @ reg @ ''.amazonaws.com''))"

text \<open>\<open>send\<close> of \<open>cloud/mod.rs\<close>: the signed request on the plain client, with its response read.\<close>

definition cloud_send :: "cloud_env \<Rightarrow> request \<Rightarrow> (signal_error, nat \<times> (string \<times> string) list \<times> string) res" where
  "cloud_send e r =
     and_then (url_parsed e (rq_url r)) (\<lambda>_.
     and_then (exchange e (\<lambda>m. m) r) (\<lambda>rep.
     and_then (body_of rep) (\<lambda>b. Ok (rp_status rep, rp_headers rep, b))))"

definition aws_call :: "cloud_env \<Rightarrow> string \<Rightarrow> string \<Rightarrow> request \<Rightarrow> (signal_error, nat \<times> (string \<times> string) list \<times> string) res" where
  "aws_call e service reg r =
     and_then (aws_credential e) (\<lambda>cred.
     and_then (map_err Config_Error (cd_builds e r)) (\<lambda>_.
     and_then (map_err (\<lambda>m. Config_Error (''cannot sign the request: '' @ m)) (cd_sign e cred service reg r)) (\<lambda>signed.
     cloud_send e signed)))"

definition post_request :: "string \<Rightarrow> (string \<times> string) list \<Rightarrow> string \<Rightarrow> request" where
  "post_request u hs b = \<lparr>rq_method = ''POST'', rq_url = u, rq_headers = hs, rq_body = b\<rparr>"

text \<open>The checked body of a call: \<open>if !status.is_success() { return Err(status_err(..)) }\<close>.\<close>

definition aws_body :: "cloud_env \<Rightarrow> nat \<times> (string \<times> string) list \<times> string \<Rightarrow> (signal_error, string) res" where
  "aws_body e rep = (let (status, _, b) = rep in if \<not> is_success status then Err (status_err e status b) else Ok b)"

subsection \<open>AppConfig\<close>

definition remember :: "string \<Rightarrow> string \<Rightarrow> string \<Rightarrow> cloud_state \<Rightarrow> cloud_state" where
  "remember i tok cfg st = st\<lparr>cs_sessions := AList.update i (tok, cfg) (cs_sessions st)\<rparr>"

definition start_session :: "cloud_env \<Rightarrow> string \<Rightarrow> string \<Rightarrow> string \<Rightarrow> string \<Rightarrow> (signal_error, string) res" where
  "start_session e base app env prof =
     (let body = cd_json_text e (JObj [(''ApplicationIdentifier'', JStr app), (''EnvironmentIdentifier'', JStr env),
            (''ConfigurationProfileIdentifier'', JStr prof)])
      in and_then (aws_call e ''appconfig'' (aws_region e)
             (post_request (base @ ''/configurationsessions'') [(''content-type'', ''application/json'')] body)) (\<lambda>rep.
         and_then (aws_body e rep) (\<lambda>b.
         and_then (parse_reply e ''AppConfig'' b) (\<lambda>v.
         case struct_fields [''InitialConfigurationToken''] v of
           Some [Some (JStr t)] \<Rightarrow> Ok t
         | _ \<Rightarrow> Err (Config_Error (''unexpected AppConfig response: '' @ cd_misfit e b))))))"

definition latest :: "cloud_env \<Rightarrow> string \<Rightarrow> string \<Rightarrow> (signal_error, string \<times> string) res" where
  "latest e base tok =
     and_then (url_parsed e (base @ ''/configuration'')) (\<lambda>u.
     and_then (aws_call e ''appconfig'' (aws_region e)
         \<lparr>rq_method = ''GET'', rq_url = cd_url_pairs e u [(''configuration_token'', tok)], rq_headers = [], rq_body = []\<rparr>) (\<lambda>rep.
     and_then (aws_body e rep) (\<lambda>b.
     and_then (ok_or (Config_Error ''AppConfig sent no Next-Poll-Configuration-Token'')
         (map_of (fst (snd rep)) ''next-poll-configuration-token'')) (\<lambda>nxt. Ok (nxt, b)))))"

definition new_session :: "cloud_env \<Rightarrow> string \<Rightarrow> string \<Rightarrow> string \<Rightarrow> string \<Rightarrow> string \<Rightarrow> cloud_state \<Rightarrow>
    (signal_error, string) res \<times> cloud_state" where
  "new_session e i base app env prof st =
     (case and_then (start_session e base app env prof) (latest e base) of
        Inl err \<Rightarrow> (Err err, st)
      | Inr (nxt, b) \<Rightarrow>
          if b = [] then (Err (Config_Error ''AppConfig has no configuration deployed to this environment''), st)
          else (case utf8_text e b of
              Inl err \<Rightarrow> (Err err, st)
            | Inr cfg \<Rightarrow> (Ok cfg, remember i nxt cfg st)))"

definition fetch_appconfig :: "cloud_env \<Rightarrow> string \<Rightarrow> string \<Rightarrow> string \<Rightarrow> cloud_state \<Rightarrow> (signal_error, string) res \<times> cloud_state" where
  "fetch_appconfig e app env prof st =
     (let i = app @ ''/'' @ env @ ''/'' @ prof in
      case aws_endpoint e ''APPCONFIGDATA'' ''appconfigdata'' (aws_region e) of
        Inl err \<Rightarrow> (Err err, st)
      | Inr base \<Rightarrow>
          (case map_of (cs_sessions st) i of
             None \<Rightarrow> new_session e i base app env prof st
           | Some (tok, old) \<Rightarrow>
               (case latest e base tok of
                  Inl _ \<Rightarrow> new_session e i base app env prof st
                | Inr (nxt, b) \<Rightarrow>
                    (case if b = [] then Ok old else utf8_text e b of
                       Inl err \<Rightarrow> (Err err, st)
                     | Inr cfg \<Rightarrow> (Ok cfg, remember i nxt cfg st)))))"

subsection \<open>DynamoDB, Secrets Manager, SES\<close>

definition fetch_dynamodb :: "cloud_env \<Rightarrow> string \<Rightarrow> string \<Rightarrow> string option \<Rightarrow> string option \<Rightarrow> (signal_error, string) res" where
  "fetch_dynamodb e table i key_opt value_opt =
     (let key = unwrap_or ''id'' key_opt; val = unwrap_or ''config'' value_opt; reg = aws_region e in
      and_then (aws_endpoint e ''DYNAMODB'' ''dynamodb'' reg) (\<lambda>base.
      let body = cd_json_text e (JObj [(''TableName'', JStr table), (''Key'', JObj [(key, JObj [(''S'', JStr i)])]),
            (''ProjectionExpression'', JStr ''#v''), (''ExpressionAttributeNames'', JObj [(''#v'', JStr val)])])
      in and_then (aws_call e ''dynamodb'' reg (post_request (base @ ''/'')
             [(''content-type'', ''application/x-amz-json-1.0''), (''x-amz-target'', ''DynamoDB_20120810.GetItem'')] body)) (\<lambda>rep.
         and_then (aws_body e rep) (\<lambda>b.
         and_then (parse_value_reply e ''DynamoDB'' b) (\<lambda>v.
         case jget v ''Item'' of
           None \<Rightarrow> Err (Config_Error (''no item with '' @ key @ '' = '' @ quoted i))
         | Some item \<Rightarrow>
             ok_or (Config_Error (''item '' @ quoted i @ '' has no string attribute '' @ quoted val @ '' holding the config''))
               (case jget item val of None \<Rightarrow> None | Some x \<Rightarrow> (case jget x ''S'' of None \<Rightarrow> None | Some y \<Rightarrow> as_str y)))))))"

definition secret_region :: "cloud_env \<Rightarrow> string \<Rightarrow> string" where
  "secret_region e i =
     (case split_on CHR '':'' i of
        a # _ # service # reg # _ \<Rightarrow>
          if a = ''arn'' \<and> service = ''secretsmanager'' \<and> reg \<noteq> [] then reg else aws_region e
      | _ \<Rightarrow> aws_region e)"

definition aws_secret :: "cloud_env \<Rightarrow> string \<Rightarrow> (signal_error, string) res" where
  "aws_secret e i =
     (let reg = secret_region e i in
      and_then (aws_endpoint e ''SECRETSMANAGER'' ''secretsmanager'' reg) (\<lambda>base.
      and_then (aws_call e ''secretsmanager'' reg (post_request (base @ ''/'')
          [(''content-type'', ''application/x-amz-json-1.1''), (''x-amz-target'', ''secretsmanager.GetSecretValue'')]
          (cd_json_text e (JObj [(''SecretId'', JStr i)])))) (\<lambda>rep.
      and_then (aws_body e rep) (\<lambda>b.
      and_then (parse_reply e ''Secrets Manager'' b) (\<lambda>v.
      case struct_fields [''SecretString''] v of
        Some [x] \<Rightarrow>
          (case opt_text x of
             Some (Some t) \<Rightarrow> Ok t
           | Some None \<Rightarrow> Err (Config_Error ''the secret is binary; store it as a string'')
           | None \<Rightarrow> Err (Config_Error (''unexpected Secrets Manager response: '' @ cd_misfit e b)))
      | _ \<Rightarrow> Err (Config_Error (''unexpected Secrets Manager response: '' @ cd_misfit e b)))))))"

fun ses_failure :: "signal_error \<Rightarrow> signal_error" where
  "ses_failure (Config_Error m) = Delivery_Error (''ses: '' @ m)"
| "ses_failure (Delivery_Error m) = Delivery_Error (''ses: '' @ m)"
| "ses_failure other = other"

definition send_ses_raw :: "cloud_env \<Rightarrow> string option \<Rightarrow> string option \<Rightarrow> string \<Rightarrow> (signal_error, unit) res" where
  "send_ses_raw e reg_opt conf_set raw =
     (let reg = unwrap_or (aws_region e) reg_opt in
      and_then (map_err ses_failure (aws_endpoint e ''SESV2'' ''email'' reg)) (\<lambda>base.
      let b0 = JObj [(''Content'', JObj [(''Raw'', JObj [(''Data'', JStr (cd_base64 e raw))])])];
          body = (case conf_set of Some s \<Rightarrow> jset ''ConfigurationSetName'' (JStr s) b0 | None \<Rightarrow> b0)
      in and_then (map_err ses_failure (aws_call e ''ses'' reg (post_request (base @ ''/v2/email/outbound-emails'')
             [(''content-type'', ''application/json'')] (cd_json_text e body)))) (\<lambda>(status, _, b).
         if \<not> is_success status then Err (ses_failure (status_err e status b)) else Ok ())))"

end
