(* ===== verification/Cloud_Azure.thy ===== *)
theory Cloud_Azure
  imports Cloud_Base
begin

text \<open>
  Azure: Blob Storage, App Configuration, Cosmos DB and Key Vault (\<^verbatim>\<open>crates/core/src/cloud/azure.rs\<close>).
  Two caches are kept between calls: bearer tokens until shortly before they expire, and the last
  value of each URL with its ETag, so that an unchanged value costs a 304.
\<close>

definition fetch_blob :: "cloud_env \<Rightarrow> string \<Rightarrow> string \<Rightarrow> (signal_error, string) res" where
  "fetch_blob e cont blob = fetch_stored e ''azure'' cont blob"

subsection \<open>Tokens\<close>

definition set_var :: "cloud_env \<Rightarrow> string \<Rightarrow> string option" where
  "set_var e name = (case cd_var e name of Some v \<Rightarrow> if v = [] then None else Some v | None \<Rightarrow> None)"

definition number_or_string :: "json \<Rightarrow> nat option" where
  "number_or_string v = (case v of JNum n \<Rightarrow> parse_u64 n | JStr s \<Rightarrow> parse_u64 s | _ \<Rightarrow> None)"

definition read_token :: "cloud_env \<Rightarrow> reply \<Rightarrow> (signal_error, string \<times> nat) res" where
  "read_token e rep =
     and_then (success_body e rep) (\<lambda>b.
     and_then (parse_reply e ''Azure token'' b) (\<lambda>v.
     case struct_fields [''access_token'', ''expires_in''] v of
       Some [Some (JStr t), Some x] \<Rightarrow>
         ok_or (Config_Error (''unexpected Azure token response: '' @ cd_misfit e b))
           (map_option (Pair t) (number_or_string x))
     | _ \<Rightarrow> Err (Config_Error (''unexpected Azure token response: '' @ cd_misfit e b))))"

definition entra :: "cloud_env \<Rightarrow> string \<Rightarrow> (string \<times> string) list \<Rightarrow> (signal_error, string \<times> nat) res" where
  "entra e tenant form =
     (let authority = unwrap_or ''https://login.microsoftonline.com'' (cd_var e ''AZURE_AUTHORITY_HOST'') in
      and_then (check_endpoint e authority) (\<lambda>_.
      and_then (exchange e (\<lambda>m. ''cannot get an Azure token: '' @ m)
          \<lparr>rq_method = ''POST'', rq_url = trim_end_slashes authority @ ''/'' @ tenant @ ''/oauth2/v2.0/token'',
           rq_headers = [], rq_body = cd_form e form\<rparr>) (read_token e)))"

definition managed_identity :: "cloud_env \<Rightarrow> string \<Rightarrow> string option \<Rightarrow> (signal_error, string \<times> nat) res" where
  "managed_identity e scope client_id =
     (let query = [(''api-version'', ''2018-02-01''), (''resource'', trim_end_text ''/.default'' scope)] @
            (case client_id of Some i \<Rightarrow> [(''client_id'', i)] | None \<Rightarrow> [])
      in and_then (exchange e (\<lambda>m. ''no Azure credentials: set AZURE_CLIENT_ID and AZURE_TENANT_ID with '' @
               ''workload identity or AZURE_CLIENT_SECRET, or run with a managed identity ('' @ m @ '')'')
             \<lparr>rq_method = ''GET'', rq_url = cd_url_pairs e ''http://169.254.169.254/metadata/identity/oauth2/token'' query,
              rq_headers = [(''Metadata'', ''true'')], rq_body = []\<rparr>) (read_token e))"

text \<open>A new token, from the first of the three ways the environment is set up for.\<close>

definition issue_token :: "cloud_env \<Rightarrow> string \<Rightarrow> (signal_error, string \<times> nat) res" where
  "issue_token e scope =
     (case (set_var e ''AZURE_CLIENT_ID'', set_var e ''AZURE_TENANT_ID'') of
        (Some client_id, Some tenant) \<Rightarrow>
          (case set_var e ''AZURE_FEDERATED_TOKEN_FILE'' of
             Some path \<Rightarrow>
               and_then (map_err (\<lambda>m. Config_Error (''cannot read '' @ path @ '': '' @ m)) (cd_read_file e path)) (\<lambda>assertion.
               entra e tenant [(''client_id'', client_id), (''scope'', scope), (''grant_type'', ''client_credentials''),
                 (''client_assertion_type'', ''urn:ietf:params:oauth:client-assertion-type:jwt-bearer''),
                 (''client_assertion'', trim assertion)])
           | None \<Rightarrow>
               (case set_var e ''AZURE_CLIENT_SECRET'' of
                  Some secret \<Rightarrow>
                    entra e tenant [(''client_id'', client_id), (''client_secret'', secret), (''scope'', scope),
                      (''grant_type'', ''client_credentials'')]
                | None \<Rightarrow> managed_identity e scope (Some client_id)))
      | (client_id, _) \<Rightarrow> managed_identity e scope client_id)"

text \<open>Times are in milliseconds; \<open>cd_later\<close> is the clock once the token has arrived.\<close>

definition token :: "cloud_env \<Rightarrow> string \<Rightarrow> cloud_state \<Rightarrow> (signal_error, string) res \<times> cloud_state" where
  "token e scope st =
     (let fresh = (case issue_token e scope of
            Inl err \<Rightarrow> (Err err, st)
          | Inr (t, expires_in) \<Rightarrow>
              (let until = cd_later e + 1000 * int (expires_in - 60)
               in (Ok t, st\<lparr>cs_tokens := AList.update scope (t, until) (cs_tokens st)\<rparr>)))
      in case map_of (cs_tokens st) scope of
           Some (t, until) \<Rightarrow> if cd_now e < until then (Ok t, st) else fresh
         | None \<Rightarrow> fresh)"

subsection \<open>App Configuration\<close>

definition endpoint_of :: "cloud_env \<Rightarrow> string \<Rightarrow> string \<Rightarrow> string \<Rightarrow> string \<Rightarrow> (signal_error, string) res" where
  "endpoint_of e var_name placeholder name default_url =
     (case cd_var e var_name of
        Some template \<Rightarrow>
          (let u = replace_all placeholder name template
           in and_then (check_endpoint e u) (\<lambda>_. Ok (trim_end_slashes u)))
      | None \<Rightarrow> Ok default_url)"

definition bearer :: "string \<Rightarrow> string \<times> string" where
  "bearer t = (''Authorization'', ''Bearer '' @ t)"

definition app_config_url :: "cloud_env \<Rightarrow> string \<Rightarrow> string \<Rightarrow> string option \<Rightarrow> (signal_error, string) res" where
  "app_config_url e ep key label =
     and_then (url_parsed e ep) (\<lambda>u.
     and_then (url_extended e ep u [''kv'', key]) (\<lambda>u.
     Ok (cd_url_pairs e u [(''label'', unwrap_or [CHR 0x00] label), (''api-version'', ''1.0'')])))"

text \<open>What a reply means for a key: its value with the ETag to remember, if there is one.\<close>

definition app_config_value :: "cloud_env \<Rightarrow> string \<Rightarrow> string option \<Rightarrow> reply \<Rightarrow> (signal_error, string \<times> string option) res" where
  "app_config_value e key label rep =
     and_then (body_of rep) (\<lambda>b.
     if rp_status rep = 404 then
       Err (Config_Error (case label of
           Some l \<Rightarrow> ''key '' @ quoted key @ '' with label '' @ quoted l @ '' not found''
         | None \<Rightarrow> ''key '' @ quoted key @ '' (no label) not found''))
     else if \<not> is_success (rp_status rep) then Err (status_err e (rp_status rep) b)
     else and_then (parse_reply e ''App Configuration'' b) (\<lambda>v.
       case struct_fields [''value'', ''etag''] v of
         Some [vl, et] \<Rightarrow>
           (case (opt_text vl, opt_text et) of
              (Some (Some x), Some t) \<Rightarrow> Ok (x, t)
            | (Some None, Some _) \<Rightarrow> Err (Config_Error (''key '' @ quoted key @ '' has no value''))
            | _ \<Rightarrow> Err (Config_Error (''unexpected App Configuration response: '' @ cd_misfit e b)))
       | _ \<Rightarrow> Err (Config_Error (''unexpected App Configuration response: '' @ cd_misfit e b))))"

text \<open>
  A conditional read of \<open>url\<close>: with an ETag remembered for it the request says so, and a 304 then
  stands for the remembered value. Anything else is read as \<open>value_of\<close> says, and remembered if it
  has an ETag.
\<close>

definition conditional_read :: "cloud_env \<Rightarrow> (string \<Rightarrow> string \<times> string) \<Rightarrow> (reply \<Rightarrow> (signal_error, string \<times> string option) res) \<Rightarrow>
    request \<Rightarrow> cloud_state \<Rightarrow> (signal_error, string) res \<times> cloud_state" where
  "conditional_read e condition value_of r st =
     (let cached = map_of (cs_etags st) (rq_url r);
          r' = (case cached of Some (etag, _) \<Rightarrow> r\<lparr>rq_headers := rq_headers r @ [condition etag]\<rparr> | None \<Rightarrow> r)
      in case exchange e (\<lambda>m. m) r' of
           Inl err \<Rightarrow> (Err err, st)
         | Inr rep \<Rightarrow>
             (case (rp_status rep = 304, cached) of
                (True, Some (_, v)) \<Rightarrow> (Ok v, st)
              | _ \<Rightarrow>
                  (case value_of rep of
                     Inl err \<Rightarrow> (Err err, st)
                   | Inr (v, None) \<Rightarrow> (Ok v, st)
                   | Inr (v, Some etag) \<Rightarrow> (Ok v, st\<lparr>cs_etags := AList.update (rq_url r) (etag, v) (cs_etags st)\<rparr>))))"

definition app_config_request :: "string \<Rightarrow> string \<Rightarrow> request" where
  "app_config_request u tok = \<lparr>rq_method = ''GET'', rq_url = u,
     rq_headers = [bearer tok, (''Accept'', ''application/vnd.microsoft.appconfig.kv+json'')], rq_body = []\<rparr>"

definition if_none_match_quoted :: "string \<Rightarrow> string \<times> string" where
  "if_none_match_quoted etag = (''If-None-Match'', [CHR 0x22] @ etag @ [CHR 0x22])"

definition fetch_app_config :: "cloud_env \<Rightarrow> string \<Rightarrow> string \<Rightarrow> string option \<Rightarrow> cloud_state \<Rightarrow>
    (signal_error, string) res \<times> cloud_state" where
  "fetch_app_config e store key label st =
     (case endpoint_of e ''AZURE_APPCONFIG_ENDPOINT'' ''{store}'' store (''https://'' @ store @ ''.azconfig.io'') of
        Inl err \<Rightarrow> (Err err, st)
      | Inr ep \<Rightarrow>
          (let scope = (if cd_var e ''AZURE_APPCONFIG_ENDPOINT'' = None then ''https://azconfig.io/.default'' else ep @ ''/.default'')
           in case and_then (app_config_url e ep key label) (\<lambda>u. and_then (map_err Config_Error (cd_client e)) (\<lambda>_. Ok u)) of
                Inl err \<Rightarrow> (Err err, st)
              | Inr u \<Rightarrow>
                  (case token e scope st of
                     (Inl err, st1) \<Rightarrow> (Err err, st1)
                   | (Inr tok, st1) \<Rightarrow>
                       conditional_read e if_none_match_quoted (app_config_value e key label) (app_config_request u tok) st1)))"

subsection \<open>Cosmos DB\<close>

definition cosmos_value :: "cloud_env \<Rightarrow> string \<Rightarrow> string option \<Rightarrow> string \<Rightarrow> reply \<Rightarrow> (signal_error, string \<times> string option) res" where
  "cosmos_value e i pk field rep =
     and_then (body_of rep) (\<lambda>b.
     if rp_status rep = 404 then
       Err (Config_Error (''no item '' @ quoted i @ '' with partition key '' @ quoted (unwrap_or i pk)))
     else if \<not> is_success (rp_status rep) then Err (status_err e (rp_status rep) b)
     else and_then (parse_value_reply e ''Cosmos DB'' b) (\<lambda>item.
       and_then (ok_or (Config_Error (''item '' @ quoted i @ '' has no string property '' @ quoted field @ '' holding the config''))
           (case jget item field of None \<Rightarrow> None | Some x \<Rightarrow> as_str x)) (\<lambda>v.
       Ok (v, case jget item ''_etag'' of None \<Rightarrow> None | Some x \<Rightarrow> as_str x))))"

definition cosmos_request :: "cloud_env \<Rightarrow> string \<Rightarrow> string \<Rightarrow> string \<Rightarrow> request" where
  "cosmos_request e u tok partition_key = \<lparr>rq_method = ''GET'', rq_url = u,
     rq_headers = [(''Authorization'', cd_percent e (''type=aad&ver=1.0&sig='' @ tok)), (''x-ms-version'', ''2018-12-31''),
       (''x-ms-date'', cd_date e), (''x-ms-documentdb-partitionkey'', partition_key)], rq_body = []\<rparr>"

definition if_none_match :: "string \<Rightarrow> string \<times> string" where
  "if_none_match etag = (''If-None-Match'', etag)"

definition fetch_cosmos :: "cloud_env \<Rightarrow> string \<Rightarrow> string \<Rightarrow> string \<Rightarrow> string \<Rightarrow> string option \<Rightarrow> string option \<Rightarrow> cloud_state \<Rightarrow>
    (signal_error, string) res \<times> cloud_state" where
  "fetch_cosmos e acc db cont i pk field_opt st =
     (let field = unwrap_or ''config'' field_opt in
      case endpoint_of e ''AZURE_COSMOS_ENDPOINT'' ''{account}'' acc (''https://'' @ acc @ ''.documents.azure.com'') of
        Inl err \<Rightarrow> (Err err, st)
      | Inr ep \<Rightarrow>
          (case and_then (url_parsed e ep) (\<lambda>u. url_extended e ep u [''dbs'', db, ''colls'', cont, ''docs'', i]) of
             Inl err \<Rightarrow> (Err err, st)
           | Inr u \<Rightarrow>
               (case token e (ep @ ''/.default'') st of
                  (Inl err, st1) \<Rightarrow> (Err err, st1)
                | (Inr tok, st1) \<Rightarrow>
                    conditional_read e if_none_match (cosmos_value e i pk field)
                      (cosmos_request e u tok (cd_json_text e (JArr [JStr (unwrap_or i pk)]))) st1)))"

subsection \<open>Key Vault\<close>

definition azure_secret :: "cloud_env \<Rightarrow> string \<Rightarrow> string \<Rightarrow> string \<Rightarrow> cloud_state \<Rightarrow> (signal_error, string) res \<times> cloud_state" where
  "azure_secret e vault name version st =
     (case endpoint_of e ''AZURE_KEYVAULT_ENDPOINT'' ''{vault}'' vault (''https://'' @ vault @ ''.vault.azure.net'') of
        Inl err \<Rightarrow> (Err err, st)
      | Inr ep \<Rightarrow>
          (let scope = (if cd_var e ''AZURE_KEYVAULT_ENDPOINT'' = None then ''https://vault.azure.net/.default'' else ep @ ''/.default'')
           in case and_then (url_parsed e ep) (\<lambda>u.
                and_then (url_extended e ep u [''secrets'', name]) (\<lambda>u.
                and_then (if version \<noteq> [] then url_extended e ep u [version] else Ok u) (\<lambda>u.
                and_then (map_err Config_Error (cd_client e)) (\<lambda>_.
                Ok (cd_url_pairs e u [(''api-version'', ''7.4'')]))))) of
                Inl err \<Rightarrow> (Err err, st)
              | Inr u \<Rightarrow>
                  (case token e scope st of
                     (Inl err, st1) \<Rightarrow> (Err err, st1)
                   | (Inr tok, st1) \<Rightarrow>
                       (and_then (exchange e (\<lambda>m. m) \<lparr>rq_method = ''GET'', rq_url = u, rq_headers = [bearer tok], rq_body = []\<rparr>) (\<lambda>rep.
                        and_then (success_body e rep) (\<lambda>b.
                        and_then (parse_reply e ''Key Vault'' b) (\<lambda>v.
                        case struct_fields [''value''] v of
                          Some [x] \<Rightarrow>
                            (case opt_text x of
                               Some (Some t) \<Rightarrow> Ok t
                             | Some None \<Rightarrow> Err (Config_Error (''secret '' @ quoted name @ '' has no value''))
                             | None \<Rightarrow> Err (Config_Error (''unexpected Key Vault response: '' @ cd_misfit e b)))
                        | _ \<Rightarrow> Err (Config_Error (''unexpected Key Vault response: '' @ cd_misfit e b))))), st1))))"

end
