(* ===== verification/Cloud_Gcp.thy ===== *)
theory Cloud_Gcp
  imports Cloud_Base
begin

text \<open>
  Google Cloud: Cloud Storage, Firestore and Secret Manager (\<^verbatim>\<open>crates/core/src/cloud/gcp.rs\<close>). The
  token comes from the object store's credential chain; nothing is kept between calls.
\<close>

definition fetch_gcs :: "cloud_env \<Rightarrow> string \<Rightarrow> string \<Rightarrow> (signal_error, string) res" where
  "fetch_gcs e bucket obj = fetch_stored e ''gcp'' bucket obj"

definition gcp_token :: "cloud_env \<Rightarrow> (signal_error, string) res" where
  "gcp_token e =
     and_then (map_err Config_Error (cd_store e ''gcp'' ''opssignal-unused'')) (\<lambda>_.
     map_err (\<lambda>m. Config_Error (''cannot get Google Cloud credentials: '' @ m)) (cd_gcp_credential e))"

definition bearer_get :: "string \<Rightarrow> string \<Rightarrow> request" where
  "bearer_get u tok = \<lparr>rq_method = ''GET'', rq_url = u, rq_headers = [(''Authorization'', ''Bearer '' @ tok)], rq_body = []\<rparr>"

text \<open>The base URL of Firestore, and the token to use there; the emulator needs no credentials.\<close>

definition firestore_base :: "cloud_env \<Rightarrow> (signal_error, string \<times> string) res" where
  "firestore_base e =
     (case cd_var e ''FIRESTORE_EMULATOR_HOST'' of
        Some host \<Rightarrow> Ok (''http://'' @ host, ''owner'')
      | None \<Rightarrow> and_then (gcp_token e) (\<lambda>t. Ok (''https://firestore.googleapis.com'', t)))"

definition firestore_text :: "cloud_env \<Rightarrow> string \<Rightarrow> string \<Rightarrow> reply \<Rightarrow> (signal_error, string) res" where
  "firestore_text e document field rep =
     and_then (body_of rep) (\<lambda>b.
     if rp_status rep = 404 then Err (Config_Error (''document '' @ quoted document @ '' not found''))
     else if \<not> is_success (rp_status rep) then Err (status_err e (rp_status rep) b)
     else and_then (parse_value_reply e ''Firestore'' b) (\<lambda>doc.
       ok_or (Config_Error (''document '' @ quoted document @ '' has no string field '' @ quoted field @ '' holding the config''))
         (case json_pointer doc (''/fields/'' @ field @ ''/stringValue'') of None \<Rightarrow> None | Some v \<Rightarrow> as_str v)))"

definition fetch_firestore :: "cloud_env \<Rightarrow> string \<Rightarrow> string \<Rightarrow> string option \<Rightarrow> string option \<Rightarrow>
    (signal_error, string) res" where
  "fetch_firestore e project document database_opt field_opt =
     (let database = unwrap_or ''(default)'' database_opt; field = unwrap_or ''config'' field_opt in
      and_then (firestore_base e) (\<lambda>(base, tok).
      and_then (url_parsed e base) (\<lambda>u.
      and_then (url_extended e base u
          ([''v1'', ''projects'', project, ''databases'', database, ''documents''] @ split_on CHR ''/'' document)) (\<lambda>u.
      and_then (exchange e (\<lambda>m. m) (bearer_get (cd_url_pairs e u [(''mask.fieldPaths'', field)]) tok))
        (firestore_text e document field)))))"

definition gcp_secret_text :: "cloud_env \<Rightarrow> reply \<Rightarrow> (signal_error, string) res" where
  "gcp_secret_text e rep =
     and_then (success_body e rep) (\<lambda>b.
     and_then (parse_value_reply e ''Secret Manager'' b) (\<lambda>v.
     and_then (ok_or (Config_Error ''Secret Manager sent no payload'')
         (case json_pointer v ''/payload/data'' of None \<Rightarrow> None | Some d \<Rightarrow> as_str d)) (\<lambda>d.
     and_then (map_err (\<lambda>m. Config_Error (''Secret Manager payload is not base64: '' @ m)) (cd_unbase64 e d)) (\<lambda>raw.
     ok_or (Config_Error ''the secret is not valid UTF-8'') (cd_utf8 e raw)))))"

definition gcp_secret :: "cloud_env \<Rightarrow> string \<Rightarrow> string \<Rightarrow> string \<Rightarrow> (signal_error, string) res" where
  "gcp_secret e project secret version =
     and_then (case cd_var e ''GOOGLE_SECRET_MANAGER_ENDPOINT'' of
         Some u \<Rightarrow> and_then (check_endpoint e u) (\<lambda>_. Ok (trim_end_slashes u))
       | None \<Rightarrow> Ok ''https://secretmanager.googleapis.com'') (\<lambda>base.
     and_then (url_parsed e base) (\<lambda>u.
     and_then (url_extended e base u [''v1'', ''projects'', project, ''secrets'', secret, ''versions'', version @ '':access'']) (\<lambda>u.
     and_then (map_err Config_Error (cd_client e)) (\<lambda>_.
     and_then (gcp_token e) (\<lambda>tok.
     and_then (exchange e (\<lambda>m. m) (bearer_get u tok)) (gcp_secret_text e))))))"

end
