(* ===== verification/Native_Reads.thy ===== *)
theory Native_Reads
  imports Cloud_Aws Cloud_Azure Cloud_Gcp
begin

text \<open>
  The cloud code behind a build's features: which function reads a source
  (\<^verbatim>\<open>ConfigSource::fetch_cloud\<close> of \<^verbatim>\<open>source.rs\<close>) or a secret (\<^verbatim>\<open>read\<close> of \<^verbatim>\<open>secrets.rs\<close>), and what the
  state kept between calls guarantees: conditional reads, tokens and polling sessions do not show
  in what is read, and an insecure endpoint override is never contacted.
\<close>

subsection \<open>Dispatch\<close>

definition native_fetch :: "addons \<Rightarrow> cloud_env \<Rightarrow> config_source \<Rightarrow> cloud_state \<Rightarrow> (signal_error, string) res \<times> cloud_state" where
  "native_fetch ad e src st =
     (let has = (\<lambda>c. c \<in> set (ad_features ad));
          external = (fetch_external ad (scheme src) (source_display src), st)
      in case src of
        S3 bucket key \<Rightarrow> if has ''aws'' then (fetch_s3 e bucket key, st) else external
      | App_Config app env prof \<Rightarrow> if has ''aws'' then fetch_appconfig e app env prof st else external
      | Dynamo_Db table i key val \<Rightarrow> if has ''aws'' then (fetch_dynamodb e table i key val, st) else external
      | Gcs bucket obj \<Rightarrow> if has ''gcp'' then (fetch_gcs e bucket obj, st) else external
      | Firestore project document database field \<Rightarrow>
          if has ''gcp'' then (fetch_firestore e project document database field, st) else external
      | Cosmos acc db cont i pk field \<Rightarrow> if has ''azure'' then fetch_cosmos e acc db cont i pk field st else external
      | Azure cont blob \<Rightarrow> if has ''azure'' then (fetch_blob e cont blob, st) else external
      | Azure_App_Config store key label \<Rightarrow> if has ''azure'' then fetch_app_config e store key label st else external
      | _ \<Rightarrow> external)"

text \<open>A secret without the cache; \<open>None\<close> is the panic of \<open>expect("checked by parse")\<close>.\<close>

definition native_secret :: "addons \<Rightarrow> cloud_env \<Rightarrow> string \<Rightarrow> cloud_state \<Rightarrow> ((signal_error, string) res \<times> cloud_state) option" where
  "native_secret ad e u st =
     (case parse_ref u of
        Inl err \<Rightarrow> Some (Err err, st)
      | Inr r \<Rightarrow>
          if rf_scheme r = ''aws-sm'' \<and> ''aws'' \<in> set (ad_features ad) then Some (aws_secret e (rf_path r), st)
          else if rf_scheme r = ''gcp-sm'' \<and> ''gcp'' \<in> set (ad_features ad)
          then map_option (\<lambda>(project, name, version). (gcp_secret e project name version, st)) (gcp_name (rf_path r))
          else if rf_scheme r = ''azure-kv'' \<and> ''azure'' \<in> set (ad_features ad)
          then map_option (\<lambda>(vault, name, version). azure_secret e vault name version st) (azure_name (rf_path r))
          else Some (fetch_external ad (rf_scheme r) (secret_url r), st))"

text \<open>The environments of \<open>Source_Reads\<close> and \<open>Secret_Values\<close> with the cloud code of this build in them.\<close>

definition with_native :: "cloud_env \<Rightarrow> cloud_state \<Rightarrow> source_env \<Rightarrow> source_env" where
  "with_native e st se = se\<lparr>so_native := \<lambda>src. fst (native_fetch (so_addons se) e src st)\<rparr>"

definition with_native_secrets :: "cloud_env \<Rightarrow> cloud_state \<Rightarrow> secret_env \<Rightarrow> secret_env" where
  "with_native_secrets e st se = se\<lparr>sv_native := \<lambda>s path. fst (the (native_secret (sv_addons se) e (s @ '':'' @ path) st))\<rparr>"

lemma with_native_reads: "fetch_cloud (with_native e st se) src = fst (native_fetch (so_addons se) e src st)"
  by (cases src)
    (auto simp: fetch_cloud_def with_native_def native_fetch_def cloud_def cloud_of_scheme_def CLOUD_SCHEMES_def built_in_def)

lemma with_native_secrets_reads:
  assumes "parse_ref u = Inr r" and "rf_field r = None"
  shows "read_secret (with_native_secrets e st se) u = fst (the (native_secret (sv_addons se) e u st))"
proof -
  have u: "u = secret_url r" using assms by (simp add: parse_ref_iff ref_text_def)
  have "rf_scheme r \<in> {''aws-sm'', ''gcp-sm'', ''azure-kv''}"
    using assms(1) by (auto simp: parse_ref_iff well_formed_ref_def STORES_def)
  with assms(1) show ?thesis
    by (auto simp: read_secret_def with_native_secrets_def built_in_def cloud_of_store_def native_secret_def u secret_url_def)
qed

subsection \<open>Calls in a row\<close>

text \<open>The results of a sequence of calls, each with the environment it finds, from a state.\<close>

fun reads_run :: "(cloud_env \<Rightarrow> 'k \<Rightarrow> cloud_state \<Rightarrow> (signal_error, 'r) res \<times> cloud_state) \<Rightarrow>
    (cloud_env \<times> 'k) list \<Rightarrow> cloud_state \<Rightarrow> (signal_error, 'r) res list" where
  "reads_run read [] st = []"
| "reads_run read ((e, k) # calls) st = (let (r, st') = read e k st in r # reads_run read calls st')"

definition no_state :: cloud_state where
  "no_state = \<lparr>cs_tokens = [], cs_etags = [], cs_sessions = []\<rparr>"

text \<open>An invariant of the state that every call keeps, and what each result owes to it.\<close>

lemma reads_run_invariant:
  assumes "kept st"
    and "\<And>e k st. (e, k) \<in> set calls \<Longrightarrow> kept st \<Longrightarrow> kept (snd (read e k st)) \<and> good e k (fst (read e k st))"
  shows "list_all2 (\<lambda>(e, k) r. good e k r) calls (reads_run read calls st)"
  using assms
proof (induction calls arbitrary: st)
  case (Cons c calls)
  obtain e k where c: "c = (e, k)" by (cases c)
  obtain r st' where r: "read e k st = (r, st')" by (cases "read e k st")
  have "kept st' \<and> good e k r" using Cons.prems(2) [of e k st] Cons.prems(1) by (simp add: c r)
  moreover have "list_all2 (\<lambda>(e, k) r. good e k r) calls (reads_run read calls st')"
    using Cons.IH [of st'] Cons.prems(2) calculation by simp
  ultimately show ?case by (simp add: c r)
qed simp

subsection \<open>Conditional reads\<close>

text \<open>
  What HTTP promises of ETags: one names one value of its URL (\<open>content\<close>), and a conditional request
  is answered like the plain one unless the value is still the one named, which may be a 304.
\<close>

definition honest :: "cloud_env \<Rightarrow> (string \<Rightarrow> string \<times> string) \<Rightarrow> (reply \<Rightarrow> (signal_error, string \<times> string option) res) \<Rightarrow>
    (string \<Rightarrow> string \<Rightarrow> string option) \<Rightarrow> request \<Rightarrow> bool" where
  "honest e condition value_of content r \<longleftrightarrow>
     (\<forall>rep. cd_http e r = Inr rep \<longrightarrow> rp_status rep \<noteq> 304 \<and>
        (\<forall>v etag. value_of rep = Inr (v, Some etag) \<longrightarrow> content (rq_url r) etag = Some v)) \<and>
     (\<forall>etag. let answer = cd_http e (r\<lparr>rq_headers := rq_headers r @ [condition etag]\<rparr>) in
        answer = cd_http e r \<or>
        (\<exists>rep rep' v. answer = Inr rep \<and> rp_status rep = 304 \<and> cd_http e r = Inr rep' \<and> value_of rep' = Inr (v, Some etag)))"

definition etags_hold :: "(string \<Rightarrow> string \<Rightarrow> string option) \<Rightarrow> cloud_state \<Rightarrow> bool" where
  "etags_hold content st \<longleftrightarrow> (\<forall>u etag v. map_of (cs_etags st) u = Some (etag, v) \<longrightarrow> content u etag = Some v)"

definition forget_etags :: "cloud_state \<Rightarrow> cloud_state" where
  "forget_etags st = st\<lparr>cs_etags := []\<rparr>"

lemma forget_etags_simps [simp]:
  "cs_tokens (forget_etags st) = cs_tokens st" "cs_etags (forget_etags st) = []" "cs_sessions (forget_etags st) = cs_sessions st"
  "forget_etags (st\<lparr>cs_etags := x\<rparr>) = forget_etags st" "forget_etags (forget_etags st) = forget_etags st"
  by (simp_all add: forget_etags_def)

text \<open>What is done with an answer: the function of the code after the request.\<close>

definition answered :: "(reply \<Rightarrow> (signal_error, string \<times> string option) res) \<Rightarrow> string \<Rightarrow> cloud_state \<Rightarrow> reply \<Rightarrow>
    (signal_error, string) res \<times> cloud_state" where
  "answered value_of u st rep =
     (case value_of rep of
        Inl err \<Rightarrow> (Err err, st)
      | Inr (v, None) \<Rightarrow> (Ok v, st)
      | Inr (v, Some etag) \<Rightarrow> (Ok v, st\<lparr>cs_etags := AList.update u (etag, v) (cs_etags st)\<rparr>))"

lemma conditional_read_plain:
  "map_of (cs_etags st) (rq_url r) = None \<Longrightarrow>
     conditional_read e condition value_of r st =
       (case exchange e (\<lambda>m. m) r of Inl err \<Rightarrow> (Err err, st) | Inr rep \<Rightarrow> answered value_of (rq_url r) st rep)"
  by (simp add: conditional_read_def answered_def split: sum.splits option.splits prod.splits bool.splits)

lemma conditional_read_cached:
  "map_of (cs_etags st) (rq_url r) = Some (etag, v) \<Longrightarrow>
     conditional_read e condition value_of r st =
       (case exchange e (\<lambda>m. m) (r\<lparr>rq_headers := rq_headers r @ [condition etag]\<rparr>) of
          Inl err \<Rightarrow> (Err err, st)
        | Inr rep \<Rightarrow> if rp_status rep = 304 then (Ok v, st) else answered value_of (rq_url r) st rep)"
  by (simp add: conditional_read_def answered_def split: sum.splits option.splits prod.splits bool.splits)

lemma exchange_http: "exchange e (\<lambda>m. m) r =
     (case cd_client e of Inl m \<Rightarrow> Err (Config_Error m) | Inr _ \<Rightarrow> map_err Config_Error (cd_http e r))"
  by (simp add: exchange_def split: sum.splits)

lemma answered_same:
  "fst (answered value_of u st rep) = fst (answered value_of u st' rep)"
  "forget_etags (snd (answered value_of u st rep)) = forget_etags st"
  by (simp_all add: answered_def split: sum.splits option.splits prod.splits)

lemma answered_holds:
  assumes "etags_hold content st" and "\<And>v etag. value_of rep = Inr (v, Some etag) \<Longrightarrow> content u etag = Some v"
  shows "etags_hold content (snd (answered value_of u st rep))"
  using assms by (auto simp: answered_def etags_hold_def map_of_update split: sum.splits option.splits prod.splits if_splits)

lemma conditional_read_transparent:
  assumes honest: "honest e condition value_of content r" and hold: "etags_hold content st"
  shows "fst (conditional_read e condition value_of r st) = fst (conditional_read e condition value_of r (forget_etags st)) \<and>
    forget_etags (snd (conditional_read e condition value_of r st)) = forget_etags st \<and>
    etags_hold content (snd (conditional_read e condition value_of r st))"
proof -
  let ?plain = "\<lambda>st. case exchange e (\<lambda>m. m) r of Inl err \<Rightarrow> (Err err, st) | Inr rep \<Rightarrow> answered value_of (rq_url r) st rep"
  have plain: "fst (?plain st) = fst (?plain (forget_etags st)) \<and> forget_etags (snd (?plain st)) = forget_etags st \<and>
      etags_hold content (snd (?plain st))"
    using honest hold answered_same answered_holds [OF hold]
    by (auto simp: exchange_http honest_def split: sum.splits)
  show ?thesis
  proof (cases "map_of (cs_etags st) (rq_url r)")
    case None
    then show ?thesis using plain by (simp add: conditional_read_plain)
  next
    case (Some c)
    obtain etag v where c: "c = (etag, v)" by (cases c)
    let ?answer = "cd_http e (r\<lparr>rq_headers := rq_headers r @ [condition etag]\<rparr>)"
    consider (same) "?answer = cd_http e r"
      | (unchanged) rep rep' w where "?answer = Inr rep" "rp_status rep = 304" "cd_http e r = Inr rep'"
          "value_of rep' = Inr (w, Some etag)"
      using honest unfolding honest_def Let_def by metis
    then show ?thesis
    proof cases
      case same
      have "conditional_read e condition value_of r st = ?plain st"
        using honest by (auto simp: conditional_read_cached [OF Some [unfolded c]] exchange_http same honest_def split: sum.splits)
      then show ?thesis using plain by (simp add: conditional_read_plain)
    next
      case unchanged
      have "w = v" using honest hold Some c unchanged by (auto simp: honest_def etags_hold_def)
      with unchanged hold show ?thesis
        by (auto simp: conditional_read_cached [OF Some [unfolded c]] conditional_read_plain exchange_http answered_def split: sum.splits)
    qed
  qed
qed

text \<open>
  A source read conditionally: \<open>prep\<close> builds the request (and may issue a token), \<open>read\<close> sends it with
  the ETag remembered for its URL.
\<close>

locale conditional_source =
  fixes prep :: "cloud_env \<Rightarrow> 'k \<Rightarrow> cloud_state \<Rightarrow> (signal_error, request) res \<times> cloud_state"
    and condition :: "string \<Rightarrow> string \<times> string"
    and value_of :: "cloud_env \<Rightarrow> 'k \<Rightarrow> reply \<Rightarrow> (signal_error, string \<times> string option) res"
    and read :: "cloud_env \<Rightarrow> 'k \<Rightarrow> cloud_state \<Rightarrow> (signal_error, string) res \<times> cloud_state"
  assumes read_steps: "read e k st =
      (case prep e k st of
         (Inl err, st1) \<Rightarrow> (Err err, st1)
       | (Inr r, st1) \<Rightarrow> conditional_read e condition (value_of e k) r st1)"
    and prep_ignores_etags: "prep e k (st\<lparr>cs_etags := x\<rparr>) = (fst (prep e k st), (snd (prep e k st))\<lparr>cs_etags := x\<rparr>)"
begin

lemma prep_forget: "prep e k (forget_etags st) = (fst (prep e k st), forget_etags (snd (prep e k st)))"
  by (simp add: forget_etags_def prep_ignores_etags)

lemma prep_keeps_etags: "cs_etags (snd (prep e k st)) = cs_etags st"
proof -
  have "prep e k st = (fst (prep e k st), (snd (prep e k st))\<lparr>cs_etags := cs_etags st\<rparr>)"
    using prep_ignores_etags [where e = e and k = k and st = st and x = "cs_etags st"] by simp
  then have "cs_etags (snd (prep e k st)) = cs_etags (snd (fst (prep e k st), (snd (prep e k st))\<lparr>cs_etags := cs_etags st\<rparr>))"
    by (rule arg_cong)
  then show ?thesis by simp
qed

lemma read_transparent:
  assumes "\<And>r. fst (prep e k st) = Inr r \<Longrightarrow> honest e condition (value_of e k) content r" and "etags_hold content st"
  shows "fst (read e k st) = fst (read e k (forget_etags st)) \<and>
    forget_etags (snd (read e k st)) = forget_etags (snd (read e k (forget_etags st))) \<and> etags_hold content (snd (read e k st))"
proof -
  obtain p st1 where p: "prep e k st = (p, st1)" by (cases "prep e k st")
  have hold: "etags_hold content st1" using assms(2) prep_keeps_etags [of e k st] by (simp add: p etags_hold_def)
  show ?thesis
  proof (cases p)
    case (Inl err)
    then show ?thesis using hold by (simp add: read_steps prep_forget p)
  next
    case (Inr r)
    have h: "honest e condition (value_of e k) content r" using assms(1) p Inr by simp
    moreover have "etags_hold content (forget_etags st1)" by (simp add: etags_hold_def)
    moreover have "read e k st = conditional_read e condition (value_of e k) r st1"
      "read e k (forget_etags st) = conditional_read e condition (value_of e k) r (forget_etags st1)"
      by (simp_all add: read_steps prep_forget p Inr)
    moreover note conditional_read_transparent [OF h hold] conditional_read_transparent [OF h, of "forget_etags st1"]
    ultimately show ?thesis by (metis forget_etags_simps(5))
  qed
qed

lemma run_transparent:
  assumes "\<forall>(e, k) \<in> set calls. \<forall>st r. fst (prep e k st) = Inr r \<longrightarrow> honest e condition (value_of e k) content r"
    and "etags_hold content st" and "forget_etags st = forget_etags st'"
  shows "reads_run read calls st = reads_run (\<lambda>e k st. read e k (forget_etags st)) calls st'"
  using assms
proof (induction calls arbitrary: st st')
  case (Cons c calls)
  obtain e k where c: "c = (e, k)" by (cases c)
  have "\<And>r. fst (prep e k st) = Inr r \<Longrightarrow> honest e condition (value_of e k) content r"
    using Cons.prems(1) by (auto simp: c)
  note step = read_transparent [OF this Cons.prems(2)]
  have "forget_etags (snd (read e k st)) = forget_etags (snd (read e k (forget_etags st')))"
    using step Cons.prems(3) by simp
  from Cons.IH [OF _ _ this] step Cons.prems(1,3) show ?case
    by (cases "read e k st"; cases "read e k (forget_etags st')") (simp add: c)
qed simp

end

lemma token_ignores_etags: "token e scope (st\<lparr>cs_etags := x\<rparr>) = (fst (token e scope st), (snd (token e scope st))\<lparr>cs_etags := x\<rparr>)"
  by (simp add: token_def Let_def split: sum.splits option.splits prod.splits)

text \<open>The request of each of the two conditional sources, from their URL and their token.\<close>

definition prepared :: "(signal_error, string \<times> string) res \<Rightarrow> cloud_env \<Rightarrow> (string \<Rightarrow> string \<Rightarrow> request) \<Rightarrow> cloud_state \<Rightarrow>
    (signal_error, request) res \<times> cloud_state" where
  "prepared url_scope e req st =
     (case url_scope of
        Inl err \<Rightarrow> (Err err, st)
      | Inr (u, scope) \<Rightarrow>
          (case token e scope st of (Inl err, st1) \<Rightarrow> (Err err, st1) | (Inr tok, st1) \<Rightarrow> (Ok (req u tok), st1)))"

lemma prepared_ignores_etags:
  "prepared us e req (st\<lparr>cs_etags := x\<rparr>) = (fst (prepared us e req st), (snd (prepared us e req st))\<lparr>cs_etags := x\<rparr>)"
  by (simp add: prepared_def token_ignores_etags split: sum.splits prod.splits)

definition app_config_prep :: "cloud_env \<Rightarrow> string \<times> string \<times> string option \<Rightarrow> cloud_state \<Rightarrow>
    (signal_error, request) res \<times> cloud_state" where
  "app_config_prep e = (\<lambda>(store, key, label).
     prepared
       (and_then (endpoint_of e ''AZURE_APPCONFIG_ENDPOINT'' ''{store}'' store (''https://'' @ store @ ''.azconfig.io'')) (\<lambda>ep.
        and_then (app_config_url e ep key label) (\<lambda>u.
        and_then (map_err Config_Error (cd_client e)) (\<lambda>_.
        Ok (u, if cd_var e ''AZURE_APPCONFIG_ENDPOINT'' = None then ''https://azconfig.io/.default'' else ep @ ''/.default'')))))
       e app_config_request)"

definition read_app_config :: "cloud_env \<Rightarrow> string \<times> string \<times> string option \<Rightarrow> cloud_state \<Rightarrow>
    (signal_error, string) res \<times> cloud_state" where
  "read_app_config e = (\<lambda>(store, key, label). fetch_app_config e store key label)"

lemma read_app_config_steps:
  "read_app_config e k st = (case app_config_prep e k st of (Inl err, st1) \<Rightarrow> (Err err, st1)
    | (Inr r, st1) \<Rightarrow> conditional_read e if_none_match_quoted ((\<lambda>(store, key, label). app_config_value e key label) k) r st1)"
proof -
  obtain store key label where k: "k = (store, key, label)" by (cases k)
  let ?ep = "endpoint_of e ''AZURE_APPCONFIG_ENDPOINT'' ''{store}'' store (''https://'' @ store @ ''.azconfig.io'')"
  note defs = read_app_config_def app_config_prep_def prepared_def fetch_app_config_def Let_def k prod.case
  show ?thesis
  proof (cases ?ep)
    case (Inl err)
    then show ?thesis by (simp add: defs)
  next
    case (Inr ep)
    show ?thesis
    proof (cases "and_then (app_config_url e ep key label) (\<lambda>u. and_then (map_err Config_Error (cd_client e)) (\<lambda>_. Ok u))")
      case (Inl err)
      then have "and_then (app_config_url e ep key label) (\<lambda>u. and_then (map_err Config_Error (cd_client e)) (\<lambda>_. Ok (f u))) = Inl err" for f :: "string \<Rightarrow> string \<times> string"
        by (cases "app_config_url e ep key label"; cases "cd_client e") auto
      with Inl Inr show ?thesis by (simp add: defs)
    next
      case Inr': (Inr u)
      then have "app_config_url e ep key label = Inr u" "\<exists>c. cd_client e = Inr c"
        by (auto simp: and_then_Inr_iff)
      with Inr Inr' show ?thesis by (auto simp: defs split: sum.splits prod.splits)
    qed
  qed
qed

interpretation app_config: conditional_source app_config_prep if_none_match_quoted
  "\<lambda>e (store, key, label). app_config_value e key label" read_app_config
proof unfold_locales
  show "read_app_config e k st = (case app_config_prep e k st of (Inl err, st1) \<Rightarrow> (Err err, st1)
    | (Inr r, st1) \<Rightarrow> conditional_read e if_none_match_quoted ((\<lambda>(store, key, label). app_config_value e key label) k) r st1)" for e k st
    by (rule read_app_config_steps)
  show "app_config_prep e k (st\<lparr>cs_etags := x\<rparr>) =
      (fst (app_config_prep e k st), (snd (app_config_prep e k st))\<lparr>cs_etags := x\<rparr>)" for e k st x
    by (cases k) (simp add: app_config_prep_def prepared_ignores_etags)
qed

definition cosmos_prep :: "cloud_env \<Rightarrow> string \<times> string \<times> string \<times> string \<times> string option \<times> string option \<Rightarrow> cloud_state \<Rightarrow>
    (signal_error, request) res \<times> cloud_state" where
  "cosmos_prep e = (\<lambda>(acc, db, cont, i, pk, field).
     prepared
       (and_then (endpoint_of e ''AZURE_COSMOS_ENDPOINT'' ''{account}'' acc (''https://'' @ acc @ ''.documents.azure.com'')) (\<lambda>ep.
        and_then (and_then (url_parsed e ep) (\<lambda>u. url_extended e ep u [''dbs'', db, ''colls'', cont, ''docs'', i])) (\<lambda>u.
        Ok (u, ep @ ''/.default''))))
       e (\<lambda>u tok. cosmos_request e u tok (cd_json_text e (JArr [JStr (unwrap_or i pk)]))))"

definition read_cosmos :: "cloud_env \<Rightarrow> string \<times> string \<times> string \<times> string \<times> string option \<times> string option \<Rightarrow> cloud_state \<Rightarrow>
    (signal_error, string) res \<times> cloud_state" where
  "read_cosmos e = (\<lambda>(acc, db, cont, i, pk, field). fetch_cosmos e acc db cont i pk field)"

interpretation cosmos: conditional_source cosmos_prep if_none_match
  "\<lambda>e (acc, db, cont, i, pk, field). cosmos_value e i pk (unwrap_or ''config'' field)" read_cosmos
proof unfold_locales
  show "read_cosmos e k st = (case cosmos_prep e k st of (Inl err, st1) \<Rightarrow> (Err err, st1)
    | (Inr r, st1) \<Rightarrow> conditional_read e if_none_match
        ((\<lambda>(acc, db, cont, i, pk, field). cosmos_value e i pk (unwrap_or ''config'' field)) k) r st1)" for e k st
    by (cases k) (simp add: read_cosmos_def cosmos_prep_def prepared_def fetch_cosmos_def Let_def split: sum.split prod.split)
  show "cosmos_prep e k (st\<lparr>cs_etags := x\<rparr>) = (fst (cosmos_prep e k st), (snd (cosmos_prep e k st))\<lparr>cs_etags := x\<rparr>)" for e k st x
    by (cases k) (simp add: cosmos_prep_def prepared_ignores_etags)
qed

subsection \<open>A cloud to try it on\<close>

text \<open>A store that holds one value, \<open>''one''\<close> or \<open>''two''\<close>, behind a managed identity that issues tokens for a day.\<close>

definition METADATA_URL :: string where
  "METADATA_URL = ''http://169.254.169.254/metadata/identity/oauth2/token''"

definition sample_json :: "string \<Rightarrow> (string, json) res" where
  "sample_json b =
     (if b = ''token'' then Ok (JObj [(''access_token'', JStr ''t''), (''expires_in'', JNum ''86400'')])
      else if b = ''item'' then Ok (JObj [(''a'', JStr ''one''), (''b'', JStr ''two''), (''_etag'', JStr ''e'')])
      else Ok (JObj [(''value'', JStr b), (''etag'', JStr (''e'' @ b))]))"

definition sample_http :: "string \<Rightarrow> string \<Rightarrow> request \<Rightarrow> (string, reply) res" where
  "sample_http body condition r =
     (if rq_url r = METADATA_URL then Ok \<lparr>rp_status = 200, rp_headers = [], rp_body = Ok ''token''\<rparr>
      else if (''If-None-Match'', condition) \<in> set (rq_headers r) then Ok \<lparr>rp_status = 304, rp_headers = [], rp_body = Ok []\<rparr>
      else Ok \<lparr>rp_status = 200, rp_headers = [], rp_body = Ok body\<rparr>)"

definition sample_cloud :: "string \<Rightarrow> string \<Rightarrow> int \<Rightarrow> cloud_env" where
  "sample_cloud body condition now =
     \<lparr>cd_var = (\<lambda>_. None), cd_read_file = (\<lambda>_. Err []), cd_now = now, cd_later = now + 50, cd_client = Ok (),
      cd_http = sample_http body condition, cd_status = (\<lambda>_. []), cd_lossy = id, cd_utf8 = Some, cd_json = sample_json,
      cd_json_text = (\<lambda>_. []), cd_misfit = (\<lambda>_. []), cd_url_parse = Ok, cd_url_scheme = (\<lambda>_. ''https''),
      cd_url_host = (\<lambda>_. None), cd_url_extend = (\<lambda>u segs. Some (u @ concat (map (\<lambda>x. ''/'' @ x) segs))),
      cd_url_pairs = (\<lambda>u _. u), cd_form = (\<lambda>_. []), cd_percent = id, cd_date = [], cd_base64 = id, cd_unbase64 = Ok,
      cd_store = (\<lambda>_ _. Ok ()), cd_object = (\<lambda>_ _ _. None), cd_aws_credential = Ok [], cd_gcp_credential = Ok [],
      cd_builds = (\<lambda>_. Ok ()), cd_sign = (\<lambda>_ _ _ r. Ok r)\<rparr>"

lemma sample_cloud_simps [simp]:
  "cd_var (sample_cloud b c n) = (\<lambda>_. None)" "cd_now (sample_cloud b c n) = n" "cd_later (sample_cloud b c n) = n + 50"
  "cd_client (sample_cloud b c n) = Ok ()" "cd_http (sample_cloud b c n) = sample_http b c"
  "cd_json (sample_cloud b c n) = sample_json" "cd_url_parse (sample_cloud b c n) = Ok"
  "cd_url_extend (sample_cloud b c n) u segs = Some (u @ concat (map (\<lambda>x. ''/'' @ x) segs))"
  "cd_url_pairs (sample_cloud b c n) u ps = u" "cd_percent (sample_cloud b c n) = id"
  "cd_utf8 (sample_cloud b c n) = Some" "cd_store (sample_cloud b c n) = (\<lambda>_ _. Ok ())"
  "cd_aws_credential (sample_cloud b c n) = Ok []" "cd_builds (sample_cloud b c n) = (\<lambda>_. Ok ())"
  "cd_sign (sample_cloud b c n) = (\<lambda>_ _ _ r. Ok r)"
  by (simp_all add: sample_cloud_def)

lemma parse_day: "parse_u64 ''86400'' = Some 86400"
  by (simp add: parse_u64_def is_digit_def digits_val_def digit_val_def u64_max_def)

lemma sample_issue: "issue_token (sample_cloud b c n) scope = Ok (''t'', 86400)"
  by (simp add: issue_token_def set_var_def managed_identity_def exchange_http exchange_def sample_http_def METADATA_URL_def
      read_token_def struct_fields_def success_body_def body_of_def is_success_def parse_reply_def sample_json_def jget_def number_or_string_def
      parse_day)

subsection \<open>What is read\<close>

text \<open>
  C16. The ETag cache of App Configuration does not show: if the store answers conditional requests as
  HTTP says, any sequence of reads, of any keys and at any times, gives exactly what it would give with
  every value read anew; only the downloads are spared.
\<close>

theorem app_config_cache_is_transparent:
  assumes "\<forall>(e, store, key, label) \<in> set calls. \<forall>u tok.
      honest e if_none_match_quoted (app_config_value e key label) content (app_config_request u tok)"
  shows "reads_run read_app_config calls no_state =
      reads_run (\<lambda>e k st. read_app_config e k (forget_etags st)) calls no_state"
proof (rule app_config.run_transparent [where content = content])
  show "\<forall>(e, k) \<in> set calls. \<forall>st r. fst (app_config_prep e k st) = Inr r \<longrightarrow>
      honest e if_none_match_quoted (case k of (store, key, label) \<Rightarrow> app_config_value e key label) content r"
    using assms by (fastforce simp: app_config_prep_def prepared_def split: sum.splits prod.splits)
qed (simp_all add: etags_hold_def no_state_def)

theorem app_config_cache_is_transparent_witness:
  "let one = sample_cloud ''one'' ([CHR 0x22] @ ''eone'' @ [CHR 0x22]); two = sample_cloud ''two'' ([CHR 0x22] @ ''etwo'' @ [CHR 0x22]);
       key = (''s'', ''k'', None);
       calls = [(one 0, key), (one 100, key), (two 200, key)]
   in reads_run read_app_config calls no_state = reads_run (\<lambda>e k st. read_app_config e k (forget_etags st)) calls no_state"
  unfolding Let_def
  by (rule app_config_cache_is_transparent [where content = "\<lambda>_ t. if t = ''eone'' then Some ''one'' else if t = ''etwo'' then Some ''two'' else None"])
    (auto simp: honest_def sample_http_def app_config_request_def app_config_value_def struct_fields_def opt_text_def body_of_def is_success_def parse_reply_def
      sample_json_def jget_def if_none_match_quoted_def bearer_def split: if_splits)

definition item_url :: "cloud_env \<Rightarrow> string \<Rightarrow> string \<Rightarrow> string \<Rightarrow> string \<Rightarrow> (signal_error, string) res" where
  "item_url e acc db cont i =
     and_then (endpoint_of e ''AZURE_COSMOS_ENDPOINT'' ''{account}'' acc (''https://'' @ acc @ ''.documents.azure.com'')) (\<lambda>ep.
     and_then (url_parsed e ep) (\<lambda>u. url_extended e ep u [''dbs'', db, ''colls'', cont, ''docs'', i]))"

lemma cosmos_prep_url:
  "fst (cosmos_prep e (acc, db, cont, i, pk, field) st) = Inr r \<Longrightarrow> item_url e acc db cont i = Inr (rq_url r)"
  by (auto simp: cosmos_prep_def prepared_def item_url_def cosmos_request_def and_then_Inr_iff split: sum.splits prod.splits)

lemma read_cosmos_sent:
  assumes "fst (cosmos_prep e (acc, db, cont, i, pk, field) st) = Inr r"
  shows "\<exists>st1. cs_etags st1 = cs_etags st \<and> read_cosmos e (acc, db, cont, i, pk, field) st =
    conditional_read e if_none_match (cosmos_value e i pk (unwrap_or ''config'' field)) r st1"
proof -
  obtain st1 where p: "cosmos_prep e (acc, db, cont, i, pk, field) st = (Inr r, st1)"
    using assms by (cases "cosmos_prep e (acc, db, cont, i, pk, field) st") simp
  then have "cs_etags st1 = cs_etags st" using cosmos.prep_keeps_etags [of e "(acc, db, cont, i, pk, field)" st] by simp
  then show ?thesis using cosmos.read_steps [of e "(acc, db, cont, i, pk, field)" st] p by auto
qed

text \<open>
  C40. The ETag cache of Cosmos DB does show: it is kept by the URL of an item, which names neither the
  field nor the partition key. For any item and any two fields (with any partition keys): if a first
  read of one is answered with the item and its ETag, and the item is unchanged when the other is read,
  so that the store answers the conditional request with a 304, the second read returns the first one's
  text, although reading without the cache would give the other field's own text.
\<close>

theorem cosmos_cache_mixes_fields:
  assumes first: "fst (cosmos_prep e1 (acc, db, cont, i, pk1, f1) st) = Inr r1" "map_of (cs_etags st) (rq_url r1) = None"
    "exchange e1 (\<lambda>m. m) r1 = Inr rep1" "cosmos_value e1 i pk1 (unwrap_or ''config'' f1) rep1 = Inr (text1, Some etag)"
    and st1: "st1 = snd (read_cosmos e1 (acc, db, cont, i, pk1, f1) st)"
    and second: "fst (cosmos_prep e2 (acc, db, cont, i, pk2, f2) st1) = Inr r2" "item_url e2 acc db cont i = item_url e1 acc db cont i"
    and unchanged: "exchange e2 (\<lambda>m. m) (r2\<lparr>rq_headers := rq_headers r2 @ [if_none_match etag]\<rparr>) = Inr rep2" "rp_status rep2 = 304"
    and own: "exchange e2 (\<lambda>m. m) r2 = Inr rep3" "cosmos_value e2 i pk2 (unwrap_or ''config'' f2) rep3 = Inr (text2, etag3)"
  shows "reads_run read_cosmos [(e1, acc, db, cont, i, pk1, f1), (e2, acc, db, cont, i, pk2, f2)] st = [Ok text1, Ok text1] \<and>
    fst (read_cosmos e2 (acc, db, cont, i, pk2, f2) (forget_etags st1)) = Ok text2"
proof -
  obtain sa where sa: "cs_etags sa = cs_etags st" "read_cosmos e1 (acc, db, cont, i, pk1, f1) st =
      conditional_read e1 if_none_match (cosmos_value e1 i pk1 (unwrap_or ''config'' f1)) r1 sa"
    using read_cosmos_sent [OF first(1)] by blast
  then have one: "read_cosmos e1 (acc, db, cont, i, pk1, f1) st =
      (Ok text1, sa\<lparr>cs_etags := AList.update (rq_url r1) (etag, text1) (cs_etags sa)\<rparr>)"
    using first(2-4) by (simp add: conditional_read_plain answered_def)
  have same: "rq_url r2 = rq_url r1"
    using cosmos_prep_url [OF first(1)] cosmos_prep_url [OF second(1)] second(2) by simp
  have kept: "map_of (cs_etags st1) (rq_url r2) = Some (etag, text1)"
    by (simp add: st1 one same map_of_update)
  obtain sb where sb: "cs_etags sb = cs_etags st1" "read_cosmos e2 (acc, db, cont, i, pk2, f2) st1 =
      conditional_read e2 if_none_match (cosmos_value e2 i pk2 (unwrap_or ''config'' f2)) r2 sb"
    using read_cosmos_sent [OF second(1)] by blast
  have two: "fst (read_cosmos e2 (acc, db, cont, i, pk2, f2) st1) = Ok text1"
    using unchanged by (simp add: sb(2) conditional_read_cached [OF kept [folded sb(1)]])
  have "fst (cosmos_prep e2 (acc, db, cont, i, pk2, f2) (forget_etags st1)) = Inr r2"
    using second(1) by (simp add: cosmos.prep_forget)
  from read_cosmos_sent [OF this] obtain sc where sc: "cs_etags sc = []"
    "read_cosmos e2 (acc, db, cont, i, pk2, f2) (forget_etags st1) =
      conditional_read e2 if_none_match (cosmos_value e2 i pk2 (unwrap_or ''config'' f2)) r2 sc"
    by auto
  then have "fst (read_cosmos e2 (acc, db, cont, i, pk2, f2) (forget_etags st1)) = Ok text2"
    using own by (cases etag3) (simp_all add: conditional_read_plain answered_def)
  with one two st1 show ?thesis by (simp add: case_prod_beta)
qed

text \<open>An item with the fields \<open>a\<close> and \<open>b\<close>, read twice within a second.\<close>

theorem cosmos_cache_mixes_fields_witness:
  "let server = sample_cloud ''item'' ''e'';
       field = (\<lambda>f. (''acc'', ''db'', ''c'', ''i'', None, Some f))
   in reads_run read_cosmos [(server 0, field ''a''), (server 100, field ''b'')] no_state = [Ok ''one'', Ok ''one'']"
proof -
  define cloud where "cloud = sample_cloud ''item'' ''e''"
  let ?key = "\<lambda>f. (''acc'', ''db'', ''c'', ''i'', None, Some f)"
  let ?scope = "''https://acc.documents.azure.com/.default''"
  let ?r = "cosmos_request (cloud 0) ''https://acc.documents.azure.com/dbs/db/colls/c/docs/i'' ''t'' []"
  let ?item = "\<lparr>rp_status = 200, rp_headers = [], rp_body = Ok ''item''\<rparr>"
  have r: "?r = cosmos_request (cloud n) ''https://acc.documents.azure.com/dbs/db/colls/c/docs/i'' ''t'' []" for n
    by (simp add: cosmos_request_def cloud_def sample_cloud_def)
  have url: "item_url (cloud n) ''acc'' ''db'' ''c'' ''i'' = Ok ''https://acc.documents.azure.com/dbs/db/colls/c/docs/i''" for n
    by (simp add: item_url_def endpoint_of_def url_parsed_def url_extended_def cloud_def ok_or_def)
  have prep: "fst (cosmos_prep (cloud n) (?key f) st) = Inr ?r" if "fst (token (cloud n) ?scope st) = Ok ''t''" for n f st
    using that unfolding r [of n]
    by (cases "token (cloud n) ?scope st")
      (simp add: cosmos_prep_def prepared_def endpoint_of_def url_parsed_def url_extended_def ok_or_def cloud_def sample_cloud_def)
  have http: "exchange (cloud n) (\<lambda>m. m) ?r = Inr ?item"
    "exchange (cloud n) (\<lambda>m. m) (?r\<lparr>rq_headers := rq_headers ?r @ [if_none_match ''e'']\<rparr>) =
       Inr \<lparr>rp_status = 304, rp_headers = [], rp_body = Ok []\<rparr>" for n
    by (simp_all add: cloud_def exchange_http exchange_def sample_http_def cosmos_request_def METADATA_URL_def if_none_match_def)
  have fields: "cosmos_value (cloud n) ''i'' None ''a'' ?item = Ok (''one'', Some ''e'')"
    "cosmos_value (cloud n) ''i'' None ''b'' ?item = Ok (''two'', Some ''e'')" for n
    by (simp_all add: cloud_def cosmos_value_def body_of_def is_success_def parse_reply_def parse_value_reply_def sample_json_def
        as_str_def ok_or_def)
  have first: "fst (token (cloud 0) ?scope no_state) = Ok ''t''"
    by (simp add: cloud_def token_def sample_issue no_state_def)
  have "fst (token (cloud 100) ?scope (snd (read_cosmos (cloud 0) (?key ''a'') no_state))) = Ok ''t''"
    by (simp add: cloud_def read_cosmos_def fetch_cosmos_def endpoint_of_def url_parsed_def url_extended_def token_def sample_issue
        no_state_def conditional_read_def exchange_http exchange_def sample_http_def cosmos_request_def METADATA_URL_def
        cosmos_value_def body_of_def is_success_def parse_reply_def parse_value_reply_def sample_json_def as_str_def ok_or_def)
  from cosmos_cache_mixes_fields [where etag = "''e''" and ?text1.0 = "''one''" and ?text2.0 = "''two''" and ?etag3.0 = "Some ''e''",
      OF prep [OF first] _ http(1) _ refl prep [OF this] _ http(2) _ http(1)]
  have "reads_run read_cosmos [(cloud 0, ?key ''a''), (cloud 100, ?key ''b'')] no_state = [Ok ''one'', Ok ''one'']"
    by (simp add: fields url no_state_def)
  then show ?thesis by (simp add: cloud_def)
qed

subsection \<open>Tokens\<close>

text \<open>The clock does not run backwards, neither in a call nor between calls.\<close>

fun clocked :: "int \<Rightarrow> (cloud_env \<times> 'k) list \<Rightarrow> bool" where
  "clocked T [] = True"
| "clocked T ((e, _) # calls) = (T \<le> cd_now e \<and> cd_now e \<le> cd_later e \<and> clocked (cd_later e) calls)"

text \<open>At a time, each cached token either is no longer used or is good for \<open>spare\<close> longer than it is used.\<close>

definition tokens_spare :: "(string \<Rightarrow> string \<Rightarrow> int) \<Rightarrow> int \<Rightarrow> int \<Rightarrow> cloud_state \<Rightarrow> bool" where
  "tokens_spare expiry spare now st \<longleftrightarrow>
     (\<forall>scope t until. map_of (cs_tokens st) scope = Some (t, until) \<longrightarrow> until \<le> now \<or> until + spare \<le> expiry scope t)"

lemma tokens_spare_later: "tokens_spare expiry spare now st \<Longrightarrow> now \<le> now' \<Longrightarrow> tokens_spare expiry spare now' st"
  by (fastforce simp: tokens_spare_def)

lemma token_step:
  assumes kept: "tokens_spare expiry (60000 - latency) (cd_now e) st"
    and clock: "cd_now e \<le> cd_later e" "cd_later e \<le> cd_now e + latency"
    and issued: "\<And>t n. issue_token e scope = Inr (t, n) \<Longrightarrow> cd_now e + 1000 * int n \<le> expiry scope t"
  shows "tokens_spare expiry (60000 - latency) (cd_later e) (snd (token e scope st)) \<and>
    (\<forall>t. fst (token e scope st) = Inr t \<longrightarrow>
       (\<exists>n. issue_token e scope = Inr (t, n)) \<or> cd_now e + (60000 - latency) \<le> expiry scope t)"
proof -
  define fresh where "fresh = (case issue_token e scope of
      Inl err \<Rightarrow> (Err err, st)
    | Inr (t, expires_in) \<Rightarrow>
        (Ok t, st\<lparr>cs_tokens := AList.update scope (t, cd_later e + 1000 * int (expires_in - 60)) (cs_tokens st)\<rparr>))"
  have later: "tokens_spare expiry (60000 - latency) (cd_later e) st" using kept clock by (blast intro: tokens_spare_later)
  have new: "tokens_spare expiry (60000 - latency) (cd_later e) (snd fresh) \<and>
      (\<forall>t. fst fresh = Inr t \<longrightarrow> (\<exists>n. issue_token e scope = Inr (t, n)))"
  proof (cases "issue_token e scope")
    case (Inr p)
    obtain t n where p: "p = (t, n)" by (cases p)
    have "until \<le> cd_later e \<or> until + (60000 - latency) \<le> expiry scope t" if "until = cd_later e + 1000 * int (n - 60)" for until
      using issued [of t n] clock Inr that by (cases "n \<le> 60") (auto simp: p of_nat_diff)
    then show ?thesis using later by (auto simp: fresh_def Inr p tokens_spare_def map_of_update)
  qed (simp add: fresh_def later)
  show ?thesis
  proof (cases "\<exists>t until. map_of (cs_tokens st) scope = Some (t, until) \<and> cd_now e < until")
    case True
    then obtain t until where t: "map_of (cs_tokens st) scope = Some (t, until)" "cd_now e < until" by blast
    then have "token e scope st = (Ok t, st)" by (simp add: token_def Let_def)
    moreover have "cd_now e + (60000 - latency) \<le> expiry scope t" using kept t by (fastforce simp: tokens_spare_def)
    ultimately show ?thesis using later by simp
  next
    case False
    then have "token e scope st = fresh"
      by (auto simp: token_def fresh_def Let_def split: option.splits prod.splits sum.splits)
    then show ?thesis using new by auto
  qed
qed

lemma tokens_run:
  assumes "clocked T calls" and "\<forall>(e, scope) \<in> set calls. cd_later e \<le> cd_now e + latency"
    and "\<forall>(e, scope) \<in> set calls. \<forall>t n. issue_token e scope = Inr (t, n) \<longrightarrow> cd_now e + 1000 * int n \<le> expiry scope t"
    and "tokens_spare expiry (60000 - latency) T st"
  shows "list_all2 (\<lambda>(e, scope) r. \<forall>t. r = Inr t \<longrightarrow>
      (\<exists>n. issue_token e scope = Inr (t, n)) \<or> cd_now e + (60000 - latency) \<le> expiry scope t)
    calls (reads_run token calls st)"
  using assms
proof (induction calls arbitrary: T st)
  case (Cons c calls)
  obtain e scope where c: "c = (e, scope)" by (cases c)
  have clock: "T \<le> cd_now e" "cd_now e \<le> cd_later e" "clocked (cd_later e) calls" "cd_later e \<le> cd_now e + latency"
    using Cons.prems(1,2) by (auto simp: c)
  have "tokens_spare expiry (60000 - latency) (cd_now e) st" using Cons.prems(4) clock(1) by (rule tokens_spare_later)
  note step = token_step [OF this clock(2,4)]
  obtain r st' where r: "token e scope st = (r, st')" by (cases "token e scope st")
  have "tokens_spare expiry (60000 - latency) (cd_later e) st' \<and> (\<forall>t. r = Inr t \<longrightarrow>
      (\<exists>n. issue_token e scope = Inr (t, n)) \<or> cd_now e + (60000 - latency) \<le> expiry scope t)"
    using step [of scope] Cons.prems(3) by (auto simp: c r)
  with Cons.IH [OF clock(3)] Cons.prems(2,3) show ?case by (simp add: c r)
qed simp

text \<open>
  C18. A token is never handed out about to expire. If the issuer's lifetimes are true, the clock runs
  forward and issuing a token takes at most \<open>latency\<close> milliseconds (the requests time out after ten
  seconds), then in any sequence of calls a token is either new, or was issued for the same scope and
  has a minute less that latency left. A lifetime under a minute is never served from the cache.
\<close>

theorem tokens_are_served_fresh:
  assumes "clocked T calls" and "\<forall>(e, scope) \<in> set calls. cd_later e \<le> cd_now e + latency"
    and "\<forall>(e, scope) \<in> set calls. \<forall>t n. issue_token e scope = Inr (t, n) \<longrightarrow> cd_now e + 1000 * int n \<le> expiry scope t"
  shows "list_all2 (\<lambda>(e, scope) r. \<forall>t. r = Inr t \<longrightarrow>
      (\<exists>n. issue_token e scope = Inr (t, n)) \<or> cd_now e + (60000 - latency) \<le> expiry scope t)
    calls (reads_run token calls no_state)"
proof -
  have "tokens_spare expiry (60000 - latency) T no_state" by (simp add: tokens_spare_def no_state_def)
  with assms show ?thesis
    by (rule tokens_run)
qed

theorem tokens_are_served_fresh_witness:
  "let calls = [(sample_cloud [] [] 0, ''s''), (sample_cloud [] [] 1000, ''s'')]
   in reads_run token calls no_state = [Ok ''t'', Ok ''t''] \<and>
      list_all2 (\<lambda>(e, scope) r. \<forall>t. r = Inr t \<longrightarrow>
        (\<exists>n. issue_token e scope = Inr (t, n)) \<or> cd_now e + (60000 - 50) \<le> 86401000) calls (reads_run token calls no_state)"
proof -
  let ?calls = "[(sample_cloud [] [] 0, ''s''), (sample_cloud [] [] 1000, ''s'')]"
  have "reads_run token ?calls no_state = [Ok ''t'', Ok ''t'']"
    by (simp add: token_def sample_issue no_state_def)
  moreover have "list_all2 (\<lambda>(e, scope) r. \<forall>t. r = Inr t \<longrightarrow>
      (\<exists>n. issue_token e scope = Inr (t, n)) \<or> cd_now e + (60000 - 50) \<le> 86401000) ?calls (reads_run token ?calls no_state)"
    by (rule tokens_are_served_fresh [where expiry = "\<lambda>_ _. 86401000" and latency = 50 and T = 0]) (auto simp: sample_issue)
  ultimately show ?thesis by (simp add: Let_def)
qed

subsection \<open>AppConfig sessions\<close>

text \<open>
  What AppConfig promises of a polling session, as its HTTP interface has it. A token belongs to a
  profile (\<open>owner\<close>) and knows what its session was last sent (\<open>sent\<close>). A successful request for a
  session of a profile is answered with a token that was sent nothing. A successful poll is answered
  with a token whose session was sent the configuration deployed now, and with its bytes, or with
  none if the session had them already. Requests arrive as they are after signing.
\<close>

definition session_service :: "(string \<Rightarrow> string) \<Rightarrow> (string \<Rightarrow> string option) \<Rightarrow> (string \<Rightarrow> string) \<Rightarrow> cloud_env \<Rightarrow> bool" where
  "session_service owner sent deployed e \<longleftrightarrow>
     (\<forall>cred reg r signed rep b. cd_sign e cred ''appconfig'' reg r = Inr signed \<and> cd_http e signed = Inr rep \<and>
        is_success (rp_status rep) \<and> rp_body rep = Inr b \<longrightarrow>
        (\<forall>base app env prof v t. rq_method r = ''POST'' \<and> rq_url r = base @ ''/configurationsessions'' \<and>
           rq_body r = cd_json_text e (JObj [(''ApplicationIdentifier'', JStr app), (''EnvironmentIdentifier'', JStr env),
             (''ConfigurationProfileIdentifier'', JStr prof)]) \<and>
           cd_json e b = Inr v \<and> struct_fields [''InitialConfigurationToken''] v = Some [Some (JStr t)] \<longrightarrow>
           owner t = app @ ''/'' @ env @ ''/'' @ prof \<and> sent t = None) \<and>
        (\<forall>base u t nxt. rq_method r = ''GET'' \<and> cd_url_parse e (base @ ''/configuration'') = Inr u \<and>
           rq_url r = cd_url_pairs e u [(''configuration_token'', t)] \<and>
           map_of (rp_headers rep) ''next-poll-configuration-token'' = Some nxt \<longrightarrow>
           owner nxt = owner t \<and> sent nxt = Some (deployed (owner t)) \<and>
           (if b = [] then sent t = None \<or> sent t = Some (deployed (owner t)) else b = deployed (owner t))))"

definition sessions_hold :: "(string \<Rightarrow> string) \<Rightarrow> (string \<Rightarrow> string option) \<Rightarrow> (string \<Rightarrow> string option) \<Rightarrow> cloud_state \<Rightarrow> bool" where
  "sessions_hold owner sent dec st \<longleftrightarrow>
     (\<forall>i tok cfg. map_of (cs_sessions st) i = Some (tok, cfg) \<longrightarrow> owner tok = i \<and> (\<exists>b. sent tok = Some b \<and> dec b = Some cfg))"

lemma aws_call_Inr:
  "aws_call e service reg r = Inr (status, hs, b) \<longleftrightarrow>
     (\<exists>cred signed rep. aws_credential e = Inr cred \<and> cd_builds e r = Inr () \<and> cd_sign e cred service reg r = Inr signed \<and>
        cloud_send e signed = Inr (status, hs, b) \<and> cd_http e signed = Inr rep \<and>
        status = rp_status rep \<and> hs = rp_headers rep \<and> rp_body rep = Inr b)"
  by (auto simp: aws_call_def cloud_send_def exchange_def body_of_def and_then_Inr_iff map_err_Inr_iff)

lemma text_field_Inr:
  "(case fs of Some [Some (JStr t)] \<Rightarrow> Ok t | _ \<Rightarrow> Err err) = Inr x \<longleftrightarrow> fs = Some [Some (JStr x)]"
  by (simp split: option.split list.split json.split)

lemma session_started:
  assumes "session_service owner sent deployed e" and "start_session e base app env prof = Inr t"
  shows "owner t = app @ ''/'' @ env @ ''/'' @ prof \<and> sent t = None"
proof -
  let ?r = "post_request (base @ ''/configurationsessions'') [(''content-type'', ''application/json'')]
    (cd_json_text e (JObj [(''ApplicationIdentifier'', JStr app), (''EnvironmentIdentifier'', JStr env),
       (''ConfigurationProfileIdentifier'', JStr prof)]))"
  from assms(2) obtain status hs b v where call: "aws_call e ''appconfig'' (aws_region e) ?r = Inr (status, hs, b)"
    and v: "is_success status" "cd_json e b = Inr v" "struct_fields [''InitialConfigurationToken''] v = Some [Some (JStr t)]"
    by (auto simp: start_session_def and_then_Inr_iff aws_body_def parse_reply_def map_err_Inr_iff text_field_Inr
        split: if_splits)
  from call v(1) obtain cred signed rep where "cd_sign e cred ''appconfig'' (aws_region e) ?r = Inr signed"
    "cd_http e signed = Inr rep" "is_success (rp_status rep)" "rp_body rep = Inr b" by (auto simp: aws_call_Inr)
  moreover have "rq_method ?r = ''POST''" "rq_url ?r = base @ ''/configurationsessions''"
    "rq_body ?r = cd_json_text e (JObj [(''ApplicationIdentifier'', JStr app), (''EnvironmentIdentifier'', JStr env),
       (''ConfigurationProfileIdentifier'', JStr prof)])"
    by (simp_all add: post_request_def)
  ultimately show ?thesis using assms(1) v(2,3) unfolding session_service_def by blast
qed

lemma session_polled:
  assumes "session_service owner sent deployed e" and "latest e base t = Inr (nxt, b)"
  shows "owner nxt = owner t \<and> sent nxt = Some (deployed (owner t)) \<and>
    (if b = [] then sent t = None \<or> sent t = Some (deployed (owner t)) else b = deployed (owner t))"
proof -
  let ?r = "\<lambda>u. \<lparr>rq_method = ''GET'', rq_url = cd_url_pairs e u [(''configuration_token'', t)], rq_headers = [], rq_body = []\<rparr>"
  from assms(2) obtain u status hs where u: "cd_url_parse e (base @ ''/configuration'') = Inr u"
    and call: "aws_call e ''appconfig'' (aws_region e) (?r u) = Inr (status, hs, b)"
    and ok: "is_success status" "map_of hs ''next-poll-configuration-token'' = Some nxt"
    by (auto simp: latest_def url_parsed_def and_then_Inr_iff aws_body_def map_err_Inr_iff ok_or_def
        split: if_splits option.splits)
  from call ok obtain cred signed rep where "cd_sign e cred ''appconfig'' (aws_region e) (?r u) = Inr signed"
    "cd_http e signed = Inr rep" "is_success (rp_status rep)" "rp_body rep = Inr b"
    "map_of (rp_headers rep) ''next-poll-configuration-token'' = Some nxt" by (auto simp: aws_call_Inr)
  moreover have "rq_method (?r u) = ''GET''" "rq_url (?r u) = cd_url_pairs e u [(''configuration_token'', t)]" by simp_all
  ultimately show ?thesis using assms(1) u unfolding session_service_def by blast
qed

lemma remember_holds:
  "sessions_hold owner sent dec st \<Longrightarrow> owner tok = i \<Longrightarrow> sent tok = Some b \<Longrightarrow> dec b = Some cfg \<Longrightarrow>
     sessions_hold owner sent dec (remember i tok cfg st)"
  by (auto simp: sessions_hold_def remember_def map_of_update)

lemma new_session_current:
  assumes "session_service owner sent deployed e" and "cd_utf8 e = dec" and "sessions_hold owner sent dec st"
    and i: "i = app @ ''/'' @ env @ ''/'' @ prof"
  shows "sessions_hold owner sent dec (snd (new_session e i base app env prof st)) \<and>
    (\<forall>cfg. fst (new_session e i base app env prof st) = Inr cfg \<longrightarrow> dec (deployed i) = Some cfg)"
proof (cases "and_then (start_session e base app env prof) (latest e base)")
  case (Inl err)
  then show ?thesis using assms(3) by (simp add: new_session_def)
next
  case (Inr p)
  obtain nxt b where p: "p = (nxt, b)" by (cases p)
  then obtain t where t: "start_session e base app env prof = Inr t" "latest e base t = Inr (nxt, b)"
    using Inr by (auto simp: and_then_Inr_iff)
  have "owner nxt = i" "sent nxt = Some (deployed i)" "b \<noteq> [] \<Longrightarrow> b = deployed i"
    using session_started [OF assms(1) t(1)] session_polled [OF assms(1) t(2)] by (simp_all add: i)
  then show ?thesis
    using assms(2,3) by (auto simp: new_session_def Inr p utf8_text_def ok_or_def remember_holds split: option.splits)
qed

lemma polled_current:
  assumes service: "session_service owner sent deployed e" and dec: "cd_utf8 e = dec" and hold: "sessions_hold owner sent dec st"
    and "map_of (cs_sessions st) i = Some (tok, old)" and poll: "latest e base tok = Inr (nxt, b)"
    and got: "(if b = [] then Ok old else utf8_text e b) = Inr cfg"
  shows "dec (deployed i) = Some cfg \<and> sessions_hold owner sent dec (remember i nxt cfg st)"
proof -
  obtain b' where tok: "owner tok = i" "sent tok = Some b'" "dec b' = Some old"
    using hold [unfolded sessions_hold_def, rule_format, of i tok old] assms(4) by blast
  have "owner nxt = i" "sent nxt = Some (deployed i)" "b = [] \<Longrightarrow> b' = deployed i" "b \<noteq> [] \<Longrightarrow> b = deployed i"
    using session_polled [OF service poll] tok(1,2) by simp_all
  moreover from this have "dec (deployed i) = Some cfg"
    using got dec tok(3) by (auto simp: utf8_text_def split: if_splits)
  ultimately show ?thesis using hold by (simp add: remember_holds)
qed

lemma fetch_appconfig_current:
  assumes service: "session_service owner sent deployed e" and "cd_utf8 e = dec" and hold: "sessions_hold owner sent dec st"
  shows "sessions_hold owner sent dec (snd (fetch_appconfig e app env prof st)) \<and>
    (\<forall>cfg. fst (fetch_appconfig e app env prof st) = Inr cfg \<longrightarrow> dec (deployed (app @ ''/'' @ env @ ''/'' @ prof)) = Some cfg)"
proof -
  define i where "i = app @ ''/'' @ env @ ''/'' @ prof"
  note new = new_session_current [OF service assms(2) hold i_def]
  have step: "fetch_appconfig e app env prof st =
      (case aws_endpoint e ''APPCONFIGDATA'' ''appconfigdata'' (aws_region e) of
        Inl err \<Rightarrow> (Err err, st)
      | Inr base \<Rightarrow>
          (case map_of (cs_sessions st) i of
             None \<Rightarrow> new_session e i base app env prof st
           | Some (tok, old) \<Rightarrow>
               (case latest e base tok of
                  Inl _ \<Rightarrow> new_session e i base app env prof st
                | Inr (nxt, b) \<Rightarrow>
                    (case if b = [] then Ok old else utf8_text e b of
                       Inl err \<Rightarrow> (Err err, st)
                     | Inr cfg \<Rightarrow> (Ok cfg, remember i nxt cfg st)))))"
    by (simp only: fetch_appconfig_def Let_def i_def)
  have "sessions_hold owner sent dec (snd (fetch_appconfig e app env prof st)) \<and>
    (\<forall>cfg. fst (fetch_appconfig e app env prof st) = Inr cfg \<longrightarrow> dec (deployed i) = Some cfg)" (is ?kept)
  proof (cases "aws_endpoint e ''APPCONFIGDATA'' ''appconfigdata'' (aws_region e)")
    case (Inl err)
    then show ?kept using hold by (simp add: step)
  next
    case base: (Inr base)
    show ?kept
    proof (cases "map_of (cs_sessions st) i")
      case None
      then show ?kept using new by (simp add: step base)
    next
      case (Some s)
      obtain tok old where s: "s = (tok, old)" by (cases s)
      show ?kept
      proof (cases "latest e base tok")
        case (Inl err)
        then show ?kept using new by (simp add: step base Some s)
      next
        case (Inr p)
        obtain nxt b where p: "p = (nxt, b)" by (cases p)
        have "dec (deployed i) = Some cfg \<and> sessions_hold owner sent dec (remember i nxt cfg st)"
          if "(if b = [] then Ok old else utf8_text e b) = Inr cfg" for cfg
          using polled_current [OF service assms(2) hold Some [unfolded s] Inr [unfolded p] that] .
        then show ?kept using hold by (auto simp: step base Some s Inr p split: sum.splits)
      qed
    qed
  qed
  then show ?thesis unfolding i_def .
qed

text \<open>
  C17. An AppConfig source always reads what is deployed at the time of the read, although polls of an
  unchanged profile are answered with nothing: the session and the copy kept with it agree, whatever
  profiles are read in between, deployments made, and sessions expired or refused.
\<close>

theorem session_reads_are_current:
  assumes "\<forall>(e, p) \<in> set calls. session_service owner sent (deployed e) e \<and> cd_utf8 e = dec"
  shows "list_all2 (\<lambda>(e, app, env, prof) r. \<forall>cfg. r = Inr cfg \<longrightarrow> dec (deployed e (app @ ''/'' @ env @ ''/'' @ prof)) = Some cfg)
    calls (reads_run (\<lambda>e (app, env, prof). fetch_appconfig e app env prof) calls no_state)"
proof -
  let ?good = "\<lambda>e (app, env, prof) r. \<forall>cfg. r = Inr cfg \<longrightarrow> dec (deployed e (app @ ''/'' @ env @ ''/'' @ prof)) = Some cfg"
  have "list_all2 (\<lambda>(e, k) r. ?good e k r) calls (reads_run (\<lambda>e (app, env, prof). fetch_appconfig e app env prof) calls no_state)"
  proof (rule reads_run_invariant [where kept = "sessions_hold owner sent dec"])
    show "sessions_hold owner sent dec no_state" by (simp add: sessions_hold_def no_state_def)
    show "sessions_hold owner sent dec (snd ((\<lambda>(app, env, prof). fetch_appconfig e app env prof) k st)) \<and>
        ?good e k (fst ((\<lambda>(app, env, prof). fetch_appconfig e app env prof) k st))"
      if "(e, k) \<in> set calls" "sessions_hold owner sent dec st" for e k st
      using fetch_appconfig_current [OF _ _ that(2), of "deployed e" e] assms that(1) by (cases k) auto
  qed
  then show ?thesis by (simp add: case_prod_unfold)
qed

text \<open>
  A service whose tokens are the version last sent, or \<open>0\<close>, before the name of their profile. The
  environment carries the version deployed in \<open>cd_date\<close>.
\<close>

fun session_text :: "json \<Rightarrow> string" where
  "session_text (JObj [(_, JStr a), (_, JStr b), (_, JStr c)]) = a @ ''/'' @ b @ ''/'' @ c"
| "session_text _ = []"

definition version_text :: "string \<Rightarrow> string" where
  "version_text v = ''config '' @ v"

definition session_http :: "char \<Rightarrow> request \<Rightarrow> (string, reply) res" where
  "session_http v r =
     (if rq_method r = ''POST'' then Ok \<lparr>rp_status = 201, rp_headers = [], rp_body = Ok (rq_body r)\<rparr>
      else Ok \<lparr>rp_status = 200, rp_headers = [(''next-poll-configuration-token'', v # drop 1 (rq_url r))],
             rp_body = Ok (if take 1 (rq_url r) = [v] then [] else version_text [v])\<rparr>)"

definition session_cloud :: "char \<Rightarrow> cloud_env" where
  "session_cloud v = (sample_cloud [] [] 0)
     \<lparr>cd_http := session_http v, cd_json := (\<lambda>b. Ok (JObj [(''InitialConfigurationToken'', JStr (CHR ''0'' # b))])),
      cd_json_text := session_text, cd_url_pairs := (\<lambda>_ ps. concat (map snd ps)), cd_date := [v]\<rparr>"

definition session_owner :: "string \<Rightarrow> string" where
  "session_owner t = drop 1 t"

definition session_sent :: "string \<Rightarrow> string option" where
  "session_sent t = (if t = [] \<or> hd t = CHR ''0'' then None else Some (version_text (take 1 t)))"

lemma session_cloud_version: "cd_date (session_cloud v) = [v]" "version_text [v] \<noteq> []"
  by (simp_all add: session_cloud_def version_text_def)

lemma session_cloud_serves:
  "v \<noteq> CHR ''0'' \<Longrightarrow> session_service session_owner session_sent (\<lambda>_. version_text (cd_date (session_cloud v))) (session_cloud v)"
  by (auto simp: session_service_def session_cloud_def session_http_def session_cloud_version struct_fields_def
      session_owner_def session_sent_def version_text_def split: if_splits)

theorem session_reads_are_current_witness:
  "let one = session_cloud CHR ''1''; two = session_cloud CHR ''2''; p = (''a'', ''e'', ''p'')
   in list_all2 (\<lambda>(e, app, env, prof) r. \<forall>cfg. r = Inr cfg \<longrightarrow> Some (version_text (cd_date e)) = Some cfg)
        [(one, p), (one, p), (two, p)]
        (reads_run (\<lambda>e (app, env, prof). fetch_appconfig e app env prof) [(one, p), (one, p), (two, p)] no_state)"
  unfolding Let_def
  by (rule session_reads_are_current [where owner = session_owner and sent = session_sent and
        deployed = "\<lambda>e _. version_text (cd_date e)" and dec = Some])
    (use session_cloud_serves in \<open>auto simp: session_cloud_def\<close>)

subsection \<open>Endpoint overrides\<close>

text \<open>
  The overrides that go through \<open>check_endpoint\<close>, with their placeholder filled in: of the service that a
  source is read from, and of the store of a secret. Two kinds of source have an override that does
  not: \<open>FIRESTORE_EMULATOR_HOST\<close> is contacted over http whatever host it names, and the object stores
  (S3, Cloud Storage, Blob Storage) leave theirs to the object store's own settings.
\<close>

definition aws_override :: "cloud_env \<Rightarrow> string \<Rightarrow> string option" where
  "aws_override e service_env = or_opt (cd_var e (''AWS_ENDPOINT_URL_'' @ service_env)) (cd_var e ''AWS_ENDPOINT_URL'')"

definition azure_override :: "cloud_env \<Rightarrow> string \<Rightarrow> string \<Rightarrow> string \<Rightarrow> string option" where
  "azure_override e var_name placeholder name = map_option (replace_all placeholder name) (cd_var e var_name)"

fun checked_override :: "cloud_env \<Rightarrow> config_source \<Rightarrow> string option" where
  "checked_override e (App_Config _ _ _) = aws_override e ''APPCONFIGDATA''"
| "checked_override e (Dynamo_Db _ _ _ _) = aws_override e ''DYNAMODB''"
| "checked_override e (Azure_App_Config store _ _) = azure_override e ''AZURE_APPCONFIG_ENDPOINT'' ''{store}'' store"
| "checked_override e (Cosmos acc _ _ _ _ _) = azure_override e ''AZURE_COSMOS_ENDPOINT'' ''{account}'' acc"
| "checked_override e _ = None"

definition secret_override :: "cloud_env \<Rightarrow> secret_ref \<Rightarrow> string option" where
  "secret_override e r =
     (if rf_scheme r = ''aws-sm'' then aws_override e ''SECRETSMANAGER''
      else if rf_scheme r = ''gcp-sm'' then cd_var e ''GOOGLE_SECRET_MANAGER_ENDPOINT''
      else case azure_name (rf_path r) of
        None \<Rightarrow> None
      | Some (vault, _, _) \<Rightarrow> azure_override e ''AZURE_KEYVAULT_ENDPOINT'' ''{vault}'' vault)"

lemma aws_endpoint_refused:
  "aws_override e service_env = Some u \<Longrightarrow> check_endpoint e u = Inl err \<Longrightarrow> aws_endpoint e service_env host reg = Inl err"
  by (simp add: aws_override_def aws_endpoint_def)

lemma endpoint_of_refused:
  "azure_override e var_name placeholder name = Some u \<Longrightarrow> check_endpoint e u = Inl err \<Longrightarrow>
     endpoint_of e var_name placeholder name url = Inl err"
  by (auto simp: azure_override_def endpoint_of_def)

text \<open>
  C28. An endpoint override that the code checks and that is not https, or http to this host, is never
  contacted, whatever the network would answer and whatever was read before. A source of AppConfig,
  DynamoDB, Azure App Configuration or Cosmos DB with such an override fails with the reason, without a
  request, a token or a change of what is kept, and the error names the source; a secret of any of the
  three stores, a mail through SES and a login at \<open>AZURE_AUTHORITY_HOST\<close> fail the same way. (Firestore's
  emulator host and the object stores' endpoints are not checked.)
\<close>

theorem insecure_checked_override_is_never_contacted:
  assumes "cd_url_parse e u = Inr parsed" and "cd_url_scheme e parsed \<noteq> ''https''"
    and "cd_url_scheme e parsed = ''http'' \<Longrightarrow> cd_url_host e parsed \<notin> {Some ''localhost'', Some ''127.0.0.1'', Some ''[::1]''}"
    and "why = u @ '': endpoints must use https:// (plain http:// only for localhost)''"
  shows "(checked_override e src = Some u \<and> cloud src = Some c \<and> c \<in> set (ad_features (so_addons se)) \<longrightarrow>
      native_fetch (so_addons se) e src st = (Err (Config_Error why), st) \<and>
      fetch (with_native e st se) src = Err (Config_Error (source_display src @ '': '' @ why))) \<and>
    (parse_ref text = Inr r \<and> secret_override e r = Some u \<and> cloud_of_store r \<in> set (ad_features ad) \<longrightarrow>
      native_secret ad e text st = Some (Err (Config_Error why), st)) \<and>
    (aws_override e ''SESV2'' = Some u \<longrightarrow> send_ses_raw e reg conf_set raw = Err (Delivery_Error (''ses: '' @ why))) \<and>
    (cd_var e ''AZURE_AUTHORITY_HOST'' = Some u \<longrightarrow> entra e tenant form = Err (Config_Error why))"
proof (intro conjI impI)
  have check: "check_endpoint e u = Inl (Config_Error why)" using assms by (auto simp: check_endpoint_def)
  note refused = aws_endpoint_refused [OF _ check] endpoint_of_refused [OF _ check]
  have native: "native_fetch (so_addons se) e src st = (Inl (Config_Error why), st)"
    if "checked_override e src = Some u" "cloud src = Some c" "c \<in> set (ad_features (so_addons se))"
    using that refused
    by (cases src)
      (auto simp: native_fetch_def cloud_def cloud_of_scheme_def CLOUD_SCHEMES_def fetch_appconfig_def fetch_dynamodb_def
        fetch_app_config_def fetch_cosmos_def Let_def)
  show "native_fetch (so_addons se) e src st = (Err (Config_Error why), st)"
    "fetch (with_native e st se) src = Err (Config_Error (source_display src @ '': '' @ why))"
    if src: "checked_override e src = Some u \<and> cloud src = Some c \<and> c \<in> set (ad_features (so_addons se))"
  proof -
    show n: "native_fetch (so_addons se) e src st = (Err (Config_Error why), st)" using src native by blast
    have "fetch_unprefixed (with_native e st se) src = Inl (Config_Error why)"
      using src with_native_reads [of e st se src] n by (cases src) (auto simp: fetch_unprefixed_def)
    then show "fetch (with_native e st se) src = Err (Config_Error (source_display src @ '': '' @ why))"
      by (simp add: fetch_def)
  qed
  show "native_secret ad e text st = Some (Err (Config_Error why), st)"
    if r: "parse_ref text = Inr r \<and> secret_override e r = Some u \<and> cloud_of_store r \<in> set (ad_features ad)"
  proof -
    have store: "rf_scheme r \<in> {''aws-sm'', ''gcp-sm'', ''azure-kv''}"
      using r by (auto simp: parse_ref_iff well_formed_ref_def STORES_def)
    have parts: "rf_scheme r = ''gcp-sm'' \<Longrightarrow> gcp_name (rf_path r) \<noteq> None" "rf_scheme r = ''azure-kv'' \<Longrightarrow> azure_name (rf_path r) \<noteq> None"
      using r by (auto simp: parse_ref_def check_path_def and_then_Inr_iff Let_def split: prod.splits if_splits)
    from store r parts refused check show ?thesis
      by (auto simp: native_secret_def secret_override_def cloud_of_store_def aws_secret_def gcp_secret_def azure_secret_def Let_def)
  qed
  show "send_ses_raw e reg conf_set raw = Err (Delivery_Error (''ses: '' @ why))" if "aws_override e ''SESV2'' = Some u"
    using refused(1) [OF that] by (simp add: send_ses_raw_def Let_def)
  show "entra e tenant form = Err (Config_Error why)" if "cd_var e ''AZURE_AUTHORITY_HOST'' = Some u"
    using that check by (simp add: entra_def)
qed

definition aws_build :: source_env where
  "aws_build = \<lparr>so_addons = \<lparr>ad_features = [''aws''], ad_fetchers = [], ad_senders = []\<rparr>, so_read_file = (\<lambda>_. Err []),
     so_http = (\<lambda>_. Err []), so_status = (\<lambda>_. []), so_native = (\<lambda>_. Err (Config_Error [])), so_url_join = (\<lambda>_ _. Err []), so_sha = id\<rparr>"

theorem insecure_checked_override_is_never_contacted_witness:
  "let e = (sample_cloud [] [] 0)\<lparr>cd_var := (\<lambda>v. if v = ''AWS_ENDPOINT_URL'' then Some ''http://10.0.0.1'' else None),
         cd_url_scheme := (\<lambda>_. ''http'')\<rparr>;
       src = Dynamo_Db ''t'' ''i'' None None;
       why = ''http://10.0.0.1'' @ '': endpoints must use https:// (plain http:// only for localhost)''
   in native_fetch (so_addons aws_build) e src no_state = (Err (Config_Error why), no_state) \<and>
      fetch (with_native e no_state aws_build) src = Err (Config_Error (source_display src @ '': '' @ why)) \<and>
      native_secret (so_addons aws_build) e ''aws-sm:prod'' no_state = Some (Err (Config_Error why), no_state) \<and>
      send_ses_raw e None None [] = Err (Delivery_Error (''ses: '' @ why))"
proof -
  let ?e = "(sample_cloud [] [] 0)\<lparr>cd_var := (\<lambda>v. if v = ''AWS_ENDPOINT_URL'' then Some ''http://10.0.0.1'' else None),
         cd_url_scheme := (\<lambda>_. ''http'')\<rparr>"
  let ?why = "''http://10.0.0.1'' @ '': endpoints must use https:// (plain http:// only for localhost)''"
  let ?src = "Dynamo_Db ''t'' ''i'' None None"
  let ?r = "\<lparr>rf_scheme = ''aws-sm'', rf_path = ''prod'', rf_field = None\<rparr>"
  have r: "parse_ref ''aws-sm:prod'' = Inr ?r" by code_simp
  have over: "aws_override ?e s = Some ''http://10.0.0.1''" for s
    by (simp add: aws_override_def or_opt_def)
  have "cd_url_parse ?e ''http://10.0.0.1'' = Inr ''http://10.0.0.1''" "cd_url_scheme ?e ''http://10.0.0.1'' \<noteq> ''https''"
    "cd_url_host ?e ''http://10.0.0.1'' \<notin> {Some ''localhost'', Some ''127.0.0.1'', Some ''[::1]''}"
    by (simp_all add: sample_cloud_def)
  note all = insecure_checked_override_is_never_contacted [OF this refl]
  have "native_fetch (so_addons aws_build) ?e ?src no_state = (Err (Config_Error ?why), no_state) \<and>
      fetch (with_native ?e no_state aws_build) ?src = Err (Config_Error (source_display ?src @ '': '' @ ?why))"
    by (rule all [THEN conjunct1, rule_format, where c = "''aws''"])
      (simp add: over aws_build_def cloud_def cloud_of_scheme_def CLOUD_SCHEMES_def)
  moreover have "native_secret (so_addons aws_build) ?e ''aws-sm:prod'' no_state = Some (Err (Config_Error ?why), no_state)"
    by (rule all [THEN conjunct2, THEN conjunct1, rule_format, OF conjI [OF r]])
      (simp add: over secret_override_def aws_build_def cloud_of_store_def)
  moreover have "send_ses_raw ?e None None [] = Err (Delivery_Error (''ses: '' @ ?why))"
    by (rule all [THEN conjunct2, THEN conjunct2, THEN conjunct1, rule_format]) (rule over)
  ultimately show ?thesis by (simp only: Let_def)
qed

text \<open>
  Reading a secret never panics: the \<open>expect("checked by parse")\<close> of the Google and Azure stores
  holds for every text, because a reference that parses has the parts its store needs. A text that does
  not parse is an error and touches neither the network nor what is kept.
\<close>

theorem secret_read_never_panics:
  "native_secret ad e u st \<noteq> None \<and>
    (case parse_ref u of Inl err \<Rightarrow> native_secret ad e u st = Some (Inl err, st) | Inr r \<Rightarrow> check_path r = Inr ())"
proof (cases "parse_ref u")
  case (Inr r)
  then have "check_path r = Inr ()"
    by (auto simp: parse_ref_def and_then_Inr_iff Let_def split: prod.splits)
  moreover from this have "rf_scheme r = ''gcp-sm'' \<Longrightarrow> gcp_name (rf_path r) \<noteq> None"
    "rf_scheme r = ''azure-kv'' \<Longrightarrow> azure_name (rf_path r) \<noteq> None"
    by (auto simp: check_path_def Let_def split: if_splits)
  ultimately show ?thesis using Inr by (auto simp: native_secret_def)
qed (simp add: native_secret_def)

subsection \<open>Mail through SES\<close>

text \<open>The network of a build with the AWS feature: a message is formatted and sent by \<open>send_ses_raw\<close>.\<close>

definition with_native_ses :: "(nat \<Rightarrow> cloud_env) \<Rightarrow> (email_message \<Rightarrow> string) \<Rightarrow> net \<Rightarrow> net" where
  "with_native_ses e formatted n = n\<lparr>nt_ses_raw := Some (\<lambda>reg conf_set m k. send_ses_raw (e k) reg conf_set (formatted m))\<rparr>"

definition config_failure :: "signal_error + 'a \<Rightarrow> bool" where
  "config_failure r \<longleftrightarrow> (\<forall>err. r = Inl err \<longrightarrow> (\<exists>m. err = Config_Error m))"

lemma config_failure_then: "config_failure r \<Longrightarrow> (\<And>x. config_failure (g x)) \<Longrightarrow> config_failure (and_then r g)"
  by (cases r) (simp_all add: config_failure_def)

lemma config_failure_map: "config_failure (map_err (\<lambda>m. Config_Error (f m)) r)"
  by (cases r) (simp_all add: config_failure_def)

lemma config_failure_leaf: "config_failure (Inr x)" "config_failure (Inl (Config_Error m))"
  by (simp_all add: config_failure_def)

lemmas config_failure_intros = config_failure_then config_failure_map config_failure_leaf

lemma aws_call_fails_with_config: "config_failure (aws_call e service reg r)"
  unfolding aws_call_def aws_credential_def cloud_send_def url_parsed_def exchange_def body_of_def
  by (intro config_failure_intros)

lemma aws_endpoint_fails_with_config: "config_failure (aws_endpoint e service_env h reg)"
  by (auto simp: aws_endpoint_def check_endpoint_def Let_def split: option.split intro!: config_failure_intros)

text \<open>Whatever goes wrong on the way to SES is a failed delivery named after it, never a config error.\<close>

lemma ses_fails_as_delivery:
  assumes "send_ses_raw e reg conf_set raw = Inl err"
  shows "\<exists>m. err = Delivery_Error (''ses: '' @ m)"
proof -
  have failed: "\<exists>m. x = Delivery_Error (''ses: '' @ m)" if "map_err ses_failure r = Inl x" "config_failure r"
    for x and r :: "(signal_error, 'b) res"
    using that by (cases r) (auto simp: config_failure_def)
  have status: "\<exists>m. ses_failure (status_err e status b) = Delivery_Error (''ses: '' @ m)" for status b
    by (simp add: status_err_def Let_def)
  let ?base = "aws_endpoint e ''SESV2'' ''email'' (unwrap_or (aws_region e) reg)"
  show ?thesis
  proof (cases "map_err ses_failure ?base")
    case (Inl x)
    then show ?thesis using assms failed [OF _ aws_endpoint_fails_with_config] by (simp add: send_ses_raw_def Let_def)
  next
    case (Inr base)
    then obtain r where sent: "and_then (map_err ses_failure (aws_call e ''ses'' (unwrap_or (aws_region e) reg) r)) (\<lambda>(status, _, b).
         if \<not> is_success status then Err (ses_failure (status_err e status b)) else Ok ()) = Inl err"
      using assms by (auto simp: send_ses_raw_def Let_def)
    show ?thesis
    proof (cases "map_err ses_failure (aws_call e ''ses'' (unwrap_or (aws_region e) reg) r)")
      case (Inl x)
      then show ?thesis using sent failed [OF _ aws_call_fails_with_config] by simp
    next
      case (Inr rep)
      then show ?thesis using sent status by (auto split: prod.splits if_splits)
    qed
  qed
qed

end
