(* ===== verification/Stores.thy ===== *)
theory Stores
  imports Reloads
begin

text \<open>
  Opening the SQLite file of a client: \<^verbatim>\<open>SqliteSink::open\<close> of \<^verbatim>\<open>sink.rs\<close>, \<^verbatim>\<open>Throttle::open\<close> of
  \<^verbatim>\<open>throttle.rs\<close> and \<^verbatim>\<open>AlertBook::open\<close> of \<^verbatim>\<open>lifecycle.rs\<close>, all on one file. A file holds the tables made
  so far; each statement may fail, and what was done before it stays done.
\<close>

subsection \<open>The file\<close>

record database =
  db_signals :: "(string \<times> signal_row) list option"
  db_deliveries :: "((string \<times> string) \<times> delivery_row) list option"
  db_throttle :: "row list option"
  db_alerts :: "alert_book option"

datatype open_step =
    Open_Sink | Create_Signals | Index_Signals | Create_Deliveries
  | Open_Throttle | Throttle_Busy_Timeout | Create_Throttle | Index_Throttle
  | Open_Alerts | Alerts_Busy_Timeout | Create_Alerts

type_synonym open_fault = "open_step \<Rightarrow> string option"

text \<open>\<open>CREATE TABLE IF NOT EXISTS\<close>.\<close>

definition if_not_exists :: "'a list option \<Rightarrow> 'a list option" where
  "if_not_exists t = Some (unwrap_or [] t)"

fun run_steps :: "open_fault \<Rightarrow> (open_step \<times> (database \<Rightarrow> database)) list \<Rightarrow> database \<Rightarrow> (string, unit) res \<times> database" where
  "run_steps fault [] d = (Ok (), d)"
| "run_steps fault ((s, f) # rest) d =
     (case fault s of Some m \<Rightarrow> (Err m, d) | None \<Rightarrow> run_steps fault rest (f d))"

subsection \<open>The three stores\<close>

definition sqlite_open :: "open_fault \<Rightarrow> database \<Rightarrow> (signal_error, tables) res \<times> database" where
  "sqlite_open fault d =
     (let (r, d') = run_steps fault
        [(Open_Sink, id),
         (Create_Signals, \<lambda>d. d\<lparr>db_signals := if_not_exists (db_signals d)\<rparr>),
         (Index_Signals, id),
         (Create_Deliveries, \<lambda>d. d\<lparr>db_deliveries := if_not_exists (db_deliveries d)\<rparr>)] d
      in (and_then (map_err Sink_Error r) (\<lambda>_.
            Ok \<lparr>tb_signals = unwrap_or [] (db_signals d'), tb_deliveries = unwrap_or [] (db_deliveries d')\<rparr>), d'))"

definition throttle_open :: "open_fault \<Rightarrow> database \<Rightarrow> (signal_error, row list) res \<times> database" where
  "throttle_open fault d =
     (let (r, d') = run_steps fault
        [(Open_Throttle, id), (Throttle_Busy_Timeout, id),
         (Create_Throttle, \<lambda>d. d\<lparr>db_throttle := if_not_exists (db_throttle d)\<rparr>),
         (Index_Throttle, id)] d
      in (and_then (map_err (\<lambda>m. Sink_Error (''throttle store: '' @ m)) r) (\<lambda>_.
            Ok (unwrap_or [] (db_throttle d'))), d'))"

definition alerts_open :: "open_fault \<Rightarrow> database \<Rightarrow> (signal_error, alert_book) res \<times> database" where
  "alerts_open fault d =
     (let (r, d') = run_steps fault
        [(Open_Alerts, id), (Alerts_Busy_Timeout, id),
         (Create_Alerts, \<lambda>d. d\<lparr>db_alerts := if_not_exists (db_alerts d)\<rparr>)] d
      in (and_then (map_err (\<lambda>m. Sink_Error (''alerts store: '' @ m)) r) (\<lambda>_.
            Ok (unwrap_or [] (db_alerts d'))), d'))"

text \<open>The files by their paths; one that does not exist yet is an empty database.\<close>

type_synonym disk = "string \<Rightarrow> database"

text \<open>The stores are opened one after the other, on the file at the configured path.\<close>

definition file_openers :: "open_fault \<Rightarrow> disk \<Rightarrow> tables openers" where
  "file_openers fault disk =
     \<lparr>op_sink = (\<lambda>path. fst (sqlite_open fault (disk path))),
      op_throttle = (\<lambda>path. fst (throttle_open fault (snd (sqlite_open fault (disk path))))),
      op_alerts = (\<lambda>path. fst (alerts_open fault (snd (throttle_open fault (snd (sqlite_open fault (disk path)))))))\<rparr>"

text \<open>What a process leaves in its file: its sink, and the stores it could open.\<close>

definition left_behind :: "string \<Rightarrow> tables client \<Rightarrow> disk \<Rightarrow> disk" where
  "left_behind path cl disk = disk(path := (disk path)\<lparr>
     db_signals := Some (tb_signals (cl_sink cl)), db_deliveries := Some (tb_deliveries (cl_sink cl)),
     db_throttle := or_opt (cl_rows cl) (db_throttle (disk path)), db_alerts := or_opt (cl_alerts cl) (db_alerts (disk path))\<rparr>)"

subsection \<open>Restarting\<close>

text \<open>Opening a store touches its own tables only, and never the rows in them.\<close>

lemma sqlite_open_file:
  "db_throttle (snd (sqlite_open fault d)) = db_throttle d" "db_alerts (snd (sqlite_open fault d)) = db_alerts d"
  "unwrap_or [] (db_signals (snd (sqlite_open fault d))) = unwrap_or [] (db_signals d)"
  "unwrap_or [] (db_deliveries (snd (sqlite_open fault d))) = unwrap_or [] (db_deliveries d)"
  by (auto simp: sqlite_open_def if_not_exists_def split: option.splits)

lemma throttle_open_file:
  "db_alerts (snd (throttle_open fault d)) = db_alerts d"
  "unwrap_or [] (db_throttle (snd (throttle_open fault d))) = unwrap_or [] (db_throttle d)"
  by (auto simp: throttle_open_def if_not_exists_def split: option.splits)

lemma sqlite_open_result:
  "fst (sqlite_open fault d) = Inr t \<Longrightarrow> t = \<lparr>tb_signals = unwrap_or [] (db_signals d), tb_deliveries = unwrap_or [] (db_deliveries d)\<rparr>"
  by (auto simp: sqlite_open_def if_not_exists_def and_then_Inr_iff split: option.splits)

lemma throttle_open_result:
  "fst (throttle_open fault d) =
     (case find (\<lambda>s. fault s \<noteq> None) [Open_Throttle, Throttle_Busy_Timeout, Create_Throttle, Index_Throttle] of
        None \<Rightarrow> Inr (unwrap_or [] (db_throttle d))
      | Some s \<Rightarrow> Inl (Sink_Error (''throttle store: '' @ the (fault s))))"
  by (auto simp: throttle_open_def if_not_exists_def split: option.splits)

lemma alerts_open_result:
  "fst (alerts_open fault d) =
     (case find (\<lambda>s. fault s \<noteq> None) [Open_Alerts, Alerts_Busy_Timeout, Create_Alerts] of
        None \<Rightarrow> Inr (unwrap_or [] (db_alerts d))
      | Some s \<Rightarrow> Inl (Sink_Error (''alerts store: '' @ the (fault s))))"
  by (auto simp: alerts_open_def if_not_exists_def split: option.splits)

lemma restarted_stores:
  assumes "with_runtime net (file_openers fault (left_behind path cl disk)) cfg = Inr cl'" and "st_path (cf_storage cfg) = path"
  shows "cl_sink cl' = cl_sink cl"
    and "find (\<lambda>s. fault s \<noteq> None) [Open_Throttle, Throttle_Busy_Timeout, Create_Throttle, Index_Throttle] = None \<Longrightarrow>
      cl_rows cl' = Some (unwrap_or (unwrap_or [] (db_throttle (disk path))) (cl_rows cl))"
    and "find (\<lambda>s. fault s \<noteq> None) [Open_Alerts, Alerts_Busy_Timeout, Create_Alerts] = None \<Longrightarrow>
      cl_alerts cl' = Some (unwrap_or (unwrap_or [] (db_alerts (disk path))) (cl_alerts cl))"
proof -
  let ?d = "left_behind path cl disk path"
  obtain sink d1 where 1: "sqlite_open fault ?d = (sink, d1)" by fastforce
  obtain rows d2 where 2: "throttle_open fault d1 = (rows, d2)" by fastforce
  obtain book d3 where 3: "alerts_open fault d2 = (book, d3)" by fastforce
  from assms have cl': "sink = Inr (cl_sink cl')" "cl_rows cl' = ok_option rows" "cl_alerts cl' = ok_option book"
    by (auto simp: with_runtime_def file_openers_def 1 2 3 and_then_Inr_iff Let_def split: sink_kind.splits)
  have "cl_sink cl' = \<lparr>tb_signals = unwrap_or [] (db_signals ?d), tb_deliveries = unwrap_or [] (db_deliveries ?d)\<rparr>"
    by (rule sqlite_open_result [where fault = fault]) (simp add: 1 cl'(1))
  then show "cl_sink cl' = cl_sink cl" by (simp add: left_behind_def)
  show "cl_rows cl' = Some (unwrap_or (unwrap_or [] (db_throttle (disk path))) (cl_rows cl))"
    if "find (\<lambda>s. fault s \<noteq> None) [Open_Throttle, Throttle_Busy_Timeout, Create_Throttle, Index_Throttle] = None"
  proof -
    have "rows = Inr (unwrap_or [] (db_throttle d1))" using throttle_open_result [of fault d1] unfolding that by (simp add: 2)
    moreover have "db_throttle d1 = db_throttle ?d" using sqlite_open_file(1) [of fault ?d] by (simp only: 1 snd_conv)
    ultimately show ?thesis using cl'(2) by (cases "cl_rows cl") (simp_all add: left_behind_def ok_option_def)
  qed
  show "cl_alerts cl' = Some (unwrap_or (unwrap_or [] (db_alerts (disk path))) (cl_alerts cl))"
    if "find (\<lambda>s. fault s \<noteq> None) [Open_Alerts, Alerts_Busy_Timeout, Create_Alerts] = None"
  proof -
    have "book = Inr (unwrap_or [] (db_alerts d2))" using alerts_open_result [of fault d2] unfolding that by (simp add: 3)
    moreover have "db_alerts d2 = db_alerts ?d"
      using sqlite_open_file(2) [of fault ?d] throttle_open_file(1) [of fault d1] by (simp only: 1 2 snd_conv)
    ultimately show ?thesis using cl'(3) by (cases "cl_alerts cl") (simp_all add: left_behind_def ok_option_def)
  qed
qed

text \<open>
  C29. A restart changes no plan: a process whose config names the file another one left finds every
  stored signal and outcome, refuses the same duplicates and excess sends, and sends an acknowledge or
  resolve to the same providers, as long as it could open the stores the other one had open. A process
  whose config names another file starts as if the first had never run.
\<close>

theorem restart_changes_no_plan:
  assumes "with_runtime net (file_openers fault (left_behind path cl disk)) cfg = Inr cl'"
    and "\<forall>s \<in> set [Open_Throttle, Throttle_Busy_Timeout, Create_Throttle, Index_Throttle, Open_Alerts, Alerts_Busy_Timeout, Create_Alerts].
      fault s = None"
    and "cl_rows cl \<noteq> None" and "cl_alerts cl \<noteq> None"
  shows "if st_path (cf_storage cfg) = path
    then cl_sink cl' = cl_sink cl \<and>
      (\<forall>w pl i. prepare w pl i (cl_rows cl') (cl_alerts cl') = prepare w pl i (cl_rows cl) (cl_alerts cl))
    else with_runtime net (file_openers fault disk) cfg = Inr cl'"
proof (cases "st_path (cf_storage cfg) = path")
  case True
  have "cl_rows cl' = cl_rows cl" "cl_alerts cl' = cl_alerts cl"
    using restarted_stores(2,3) [OF assms(1) True] assms(2-4) by auto
  with restarted_stores(1) [OF assms(1) True] True show ?thesis by simp
next
  case False
  then have "left_behind path cl disk (st_path (cf_storage cfg)) = disk (st_path (cf_storage cfg))"
    by (simp add: left_behind_def)
  then show ?thesis using assms(1) False
    by (cases "st_sink (cf_storage cfg)") (simp add: with_runtime_def file_openers_def Let_def)
qed

definition sample_running :: "tables client" where
  "sample_running = \<lparr>cl_sink = \<lparr>tb_signals = [], tb_deliveries = [((''id'', ''slack''), \<lparr>de_status = ''delivered'', de_error = None,
       de_attempts = 1, de_updated_at = []\<rparr>)]\<rparr>, cl_pipeline = from_config sample_net default_config,
     cl_rows = Some [(''route'', ''key'', 5)], cl_alerts = Some [], cl_groups = new_groups, cl_timers = [], cl_tasks = []\<rparr>"

definition empty_file :: database where
  "empty_file = \<lparr>db_signals = None, db_deliveries = None, db_throttle = None, db_alerts = None\<rparr>"

theorem restart_changes_no_plan_witness:
  "let disk = left_behind (st_path default_storage) sample_running (\<lambda>_. empty_file)
   in \<exists>cl'. with_runtime sample_net (file_openers (\<lambda>_. None) disk) default_config = Inr cl' \<and>
    cl_sink cl' = cl_sink sample_running \<and>
    (\<forall>w pl i. prepare w pl i (cl_rows cl') (cl_alerts cl') = prepare w pl i (cl_rows sample_running) (cl_alerts sample_running))"
proof -
  let ?disk = "left_behind (st_path default_storage) sample_running (\<lambda>_. empty_file)"
  obtain cl' where "with_runtime sample_net (file_openers (\<lambda>_. None) ?disk) default_config = Inr cl'"
    by (cases "st_sink (cf_storage default_config)")
      (simp add: with_runtime_def file_openers_def sqlite_open_def throttle_open_def alerts_open_def Let_def)
  moreover have "st_path (cf_storage default_config) = st_path default_storage" by (simp add: default_config_def)
  ultimately show ?thesis using restart_changes_no_plan [of sample_net "\<lambda>_. None" _ sample_running "\<lambda>_. empty_file" default_config cl']
    by (auto simp: sample_running_def Let_def)
qed

end
