(* ===== verification/Transports.thy ===== *)
theory Transports
  imports Cloud_Base
begin

text \<open>
  The adapters to the mail and HTTP libraries: the SMTP transport of \<^verbatim>\<open>providers/email.rs\<close> and, from
  \<^verbatim>\<open>cloud/mod.rs\<close>, the connector through which the object stores use the crate's own HTTP client. The
  libraries themselves are parameters.
\<close>

subsection \<open>SMTP\<close>

definition SMTP_TIMEOUT :: nat where "SMTP_TIMEOUT = 30000"

datatype smtp_security = Upgraded | Wrapped | Unprotected

record smtp_transport =
  tr_host :: string
  tr_security :: smtp_security
  tr_port :: nat
  tr_timeout :: nat
  tr_credentials :: "(string \<times> string) option"

text \<open>\<open>relay\<close> is \<open>starttls_relay\<close> or \<open>relay\<close> on a host name, which may refuse it.\<close>

record lettre =
  lt_relay :: "smtp_security \<Rightarrow> string \<Rightarrow> (string, unit) res"
  lt_send :: "smtp_transport \<Rightarrow> email_message \<Rightarrow> nat \<Rightarrow> (string, unit) res"

definition smtp_security_of :: "smtp_tls \<Rightarrow> smtp_security" where
  "smtp_security_of t = (case t of Starttls \<Rightarrow> Upgraded | Tls \<Rightarrow> Wrapped | Plain \<Rightarrow> Unprotected)"

definition smtp_built :: "lettre \<Rightarrow> smtp_config \<Rightarrow> (string, smtp_transport) res" where
  "smtp_built lt c =
     and_then (if sm_tls c = Plain then Ok () else lt_relay lt (smtp_security_of (sm_tls c)) (sm_host c)) (\<lambda>_.
     Ok \<lparr>tr_host = sm_host c, tr_security = smtp_security_of (sm_tls c), tr_port = smtp_port c, tr_timeout = SMTP_TIMEOUT,
         tr_credentials = (case (sm_username c, sm_password c) of (Some u, Some p) \<Rightarrow> Some (u, p) | _ \<Rightarrow> None)\<rparr>)"

definition smtp_transport_for :: "lettre \<Rightarrow> smtp_config \<Rightarrow> (signal_error, smtp_transport) res" where
  "smtp_transport_for lt c = map_err (\<lambda>m. Delivery_Error (''smtp: '' @ m)) (smtp_built lt c)"

definition with_smtp :: "lettre \<Rightarrow> net \<Rightarrow> net" where
  "with_smtp lt n = n\<lparr>nt_smtp := \<lambda>c m k. and_then (smtp_built lt c) (\<lambda>t. lt_send lt t m k)\<rparr>"

text \<open>Sending over SMTP builds the message, then the transport, then sends; each failure is a failed delivery.\<close>

lemma email_send_over_smtp:
  assumes "transport c = Some (Smtp smtp)"
  shows "email_send (with_smtp lt n) c ts sg k =
    and_then (message_for (with_smtp lt n) c ts sg) (\<lambda>msg.
    and_then (smtp_transport_for lt smtp) (\<lambda>t.
    map_err (\<lambda>m. Delivery_Error (''smtp: '' @ m)) (lt_send lt t msg k)))"
  using assms by (cases "smtp_built lt smtp") (simp_all add: email_send_def smtp_transport_for_def with_smtp_def)

subsection \<open>The object stores' HTTP client\<close>

record client_options =
  cp_timeout :: nat
  cp_https_only :: bool

datatype http_error_kind = Timeout_Kind | Connect_Kind | Request_Kind | Decode_Kind | Interrupted_Kind

record transport_error =
  te_timeout :: bool
  te_connect :: bool
  te_text :: string

text \<open>A request body is its bytes, or a stream, of which only the empty one can be sent.\<close>

record object_request =
  ob_method :: string
  ob_uri :: string
  ob_headers :: "(string \<times> string) list"
  ob_bytes :: "string option"
  ob_empty :: bool

record http_library =
  hl_build :: "client_options \<Rightarrow> (string, unit) res"
  hl_url :: "string \<Rightarrow> (string, string) res"
  hl_execute :: "client_options \<Rightarrow> request \<Rightarrow> (transport_error, reply) res"
  hl_response :: "nat \<Rightarrow> (string \<times> string) list \<Rightarrow> string \<Rightarrow> (string, unit) res"

definition FETCH_TIMEOUT_MS :: nat where "FETCH_TIMEOUT_MS = 10000"

text \<open>\<open>allow_http\<close> is the store's own setting, as text.\<close>

definition connect :: "http_library \<Rightarrow> string option \<Rightarrow> (string, client_options) res" where
  "connect hl allow_http =
     (let opts = \<lparr>cp_timeout = FETCH_TIMEOUT_MS, cp_https_only = (allow_http \<noteq> Some ''true'')\<rparr>
      in and_then (hl_build hl opts) (\<lambda>_. Ok opts))"

definition error_kind :: "transport_error \<Rightarrow> http_error_kind" where
  "error_kind e = (if te_timeout e then Timeout_Kind else if te_connect e then Connect_Kind else Request_Kind)"

definition service_call :: "http_library \<Rightarrow> client_options \<Rightarrow> object_request \<Rightarrow> (http_error_kind \<times> string, reply) res" where
  "service_call hl opts r =
     and_then (case ob_bytes r of
         Some b \<Rightarrow> Ok b
       | None \<Rightarrow> if ob_empty r then Ok [] else Err (Request_Kind, ''streaming request bodies are not supported'')) (\<lambda>body.
     and_then (map_err (Pair Request_Kind) (hl_url hl (ob_uri r))) (\<lambda>u.
     and_then (map_err (\<lambda>e. (error_kind e, te_text e))
         (hl_execute hl opts \<lparr>rq_method = ob_method r, rq_url = u, rq_headers = ob_headers r, rq_body = body\<rparr>)) (\<lambda>rep.
     and_then (map_err (Pair Decode_Kind) (rp_body rep)) (\<lambda>b.
     and_then (map_err (Pair Interrupted_Kind) (hl_response hl (rp_status rep) (rp_headers rep) b)) (\<lambda>_.
     Ok \<lparr>rp_status = rp_status rep, rp_headers = rp_headers rep, rp_body = Ok b\<rparr>)))))"

text \<open>
  A store reaches the network over plain HTTP only where it was told to: if the library keeps to
  \<open>https_only\<close>, a connection made without \<open>allow_http\<close> answers no request to an \<open>http\<close> URL.
\<close>

lemma plain_http_needs_permission:
  assumes "\<And>opts r rep. hl_execute hl opts r = Inr rep \<Longrightarrow> cp_https_only opts \<Longrightarrow> \<not> starts_with ''http://'' (rq_url r)"
    and "connect hl allow_http = Inr opts" and "service_call hl opts r = Inr rep"
    and "hl_url hl (ob_uri r) = Inr u" and "starts_with ''http://'' u"
  shows "allow_http = Some ''true''"
proof (rule ccontr)
  assume "allow_http \<noteq> Some ''true''"
  then have "cp_https_only opts" using assms(2) by (auto simp: connect_def and_then_Inr_iff Let_def)
  moreover obtain b rep' where "hl_execute hl opts \<lparr>rq_method = ob_method r, rq_url = u, rq_headers = ob_headers r, rq_body = b\<rparr> = Inr rep'"
    using assms(3,4) by (auto simp: service_call_def and_then_Inr_iff)
  ultimately show False using assms(1,5) by fastforce
qed

end
