(* ===== verification/Concurrency.thy ===== *)
theory Concurrency
  imports Client
begin

text \<open>
  Background tasks of one client running at once (\<^verbatim>\<open>crates/core/src/lib.rs\<close>). The runtime has several
  threads, so between two accesses of a task to what the tasks share (the sink, the throttle table, the
  alert book, the in-flight count) any other task may run. A task is a small machine whose step is one
  such access; an execution is a list of (task, event) pairs over the shared client. Three
  properties: deliveries at once do what the same deliveries do one after another, every task ends, and
  when the wait of \<open>flush\<close> is over, no task is left and what they had to store is stored.
\<close>

subsection \<open>Tasks as machines\<close>

text \<open>What is left to do after the delivery: settle sends, note the alerts, store a signal's result.\<close>

datatype op =
    Settle admission
  | Note_Alerts
  | Store signal

datatype phase =
    Recording closed_group
  | Planning closed_group
  | Delivering delivery_plan "op list" "chain_pos list"
  | Ending delivery_result "op list"
  | Done delivery_result
  | Aborted

record job =
  jb_world :: world
  jb_signal :: signal
  jb_providers :: providers
  jb_prior_refs :: "(string \<times> string) list"
  jb_outcomes :: "provider_outcome list"
  jb_refs :: "(string \<times> string) list"
  jb_phase :: phase

text \<open>The tracker holds a reference to the shared sink, so it is put together anew at each step.\<close>

definition tracker_of :: "job \<Rightarrow> 's \<Rightarrow> 's tracker" where
  "tracker_of j s = \<lparr>tk_signal = jb_signal j, tk_outcomes = jb_outcomes j,
     tk_prior_refs = jb_prior_refs j, tk_refs = jb_refs j, tk_sink = s\<rparr>"

definition group_ops :: "closed_group \<Rightarrow> signal \<Rightarrow> admission \<Rightarrow> op list" where
  "group_ops c sg adm = Settle adm # map (\<lambda>m. Settle (mb_admission m)) (cg_members c) @
     (if length (cg_members c) = 1 then [] else [Store sg]) @
     map (\<lambda>m. Store (mb_signal m)) (filter mb_owns_row (cg_members c))"

fun start_job :: "world \<Rightarrow> task \<Rightarrow> job" where
  "start_job w (Deliver_Task pl pp) =
     \<lparr>jb_world = w, jb_signal = pp_signal pp, jb_providers = pl_providers pl,
      jb_prior_refs = pp_prior_refs pp, jb_outcomes = [], jb_refs = [],
      jb_phase = Delivering (pp_plan pp) [Settle (pp_admission pp), Note_Alerts, Store (pp_signal pp)]
        (start_chains (pp_plan pp))\<rparr>"
| "start_job w (Group_Task c) =
     \<lparr>jb_world = w, jb_signal = group_signal w c, jb_providers = [],
      jb_prior_refs = [], jb_outcomes = [], jb_refs = [],
      jb_phase = (if length (cg_members c) = 1 then Planning c else Recording c)\<rparr>"

fun end_op :: "'s sink \<Rightarrow> job \<Rightarrow> delivery_result \<Rightarrow> op \<Rightarrow> 's client \<Rightarrow> 's client" where
  "end_op sk j r (Settle adm) cl = cl\<lparr>cl_rows := settle (jb_world j) adm r (cl_rows cl)\<rparr>"
| "end_op sk j r Note_Alerts cl =
     cl\<lparr>cl_alerts := map_option (record_alerts (w_write_fault (jb_world j)) (w_stamp (jb_world j))
          (jb_signal j) r (jb_refs j)) (cl_alerts cl)\<rparr>"
| "end_op sk j r (Store sg) cl = snd (complete_signal sk sg r cl)"

text \<open>
  One step of a task. The number says which chain is resumed while the providers are tried. The guard
  counted in flight is dropped last. A step takes one lock once, but for planning a digest, which also
  reads the pipeline, and for storing a result, which takes the sink's lock for the row and again for the
  outcomes: what can happen in between concerns other signals' rows.
\<close>

definition work_step :: "'s sink \<Rightarrow> nat \<Rightarrow> job \<times> 's client \<Rightarrow> job \<times> 's client" where
  "work_step sk i = (\<lambda>(j, cl).
     case jb_phase j of
       Recording c \<Rightarrow> (j\<lparr>jb_phase := Planning c\<rparr>, record_signal sk (jb_signal j) cl)
     | Planning c \<Rightarrow>
         (let (p, adm, rows') = group_plan (jb_world j) c (jb_signal j) (cl_rows cl)
          in (j\<lparr>jb_providers := pl_providers (cl_pipeline cl),
                jb_phase := Delivering p (group_ops c (jb_signal j) adm) (start_chains p)\<rparr>,
              cl\<lparr>cl_rows := rows'\<rparr>))
     | Delivering p ops cs \<Rightarrow>
         (let (cs', tk) = poll sk (jb_providers j) i (cs, tracker_of j (cl_sink cl))
          in (j\<lparr>jb_outcomes := tk_outcomes tk, jb_refs := tk_refs tk,
                jb_phase := (if all_finished cs' then Ending (summarize p (tk_outcomes tk) None) ops
                             else Delivering p ops cs')\<rparr>,
              cl\<lparr>cl_sink := tk_sink tk\<rparr>))
     | Ending r [] \<Rightarrow> (j\<lparr>jb_phase := Done r\<rparr>, finish_task cl)
     | Ending r (x # ops) \<Rightarrow> (j\<lparr>jb_phase := Ending r ops\<rparr>, end_op sk j r x cl)
     | _ \<Rightarrow> (j, cl))"

text \<open>
  A provider that panics, or the runtime shutting down, ends a task at an await; its guard is dropped all
  the same. The model lets it happen before any step.
\<close>

datatype event = Poll nat | Abort

definition ended :: "job \<Rightarrow> bool" where
  "ended j = (case jb_phase j of Done _ \<Rightarrow> True | Aborted \<Rightarrow> True | _ \<Rightarrow> False)"

definition job_step :: "'s sink \<Rightarrow> event \<Rightarrow> job \<times> 's client \<Rightarrow> job \<times> 's client" where
  "job_step sk e = (\<lambda>(j, cl).
     if ended j then (j, cl)
     else (case e of
        Poll i \<Rightarrow> work_step sk i (j, cl)
      | Abort \<Rightarrow> (j\<lparr>jb_phase := Aborted\<rparr>, finish_task cl)))"

definition step_at :: "'s sink \<Rightarrow> nat \<times> event \<Rightarrow> job list \<times> 's client \<Rightarrow> job list \<times> 's client" where
  "step_at sk x = (\<lambda>(js, cl).
     if fst x < length js then
       (let (j, cl') = job_step sk (snd x) (js ! fst x, cl) in (js[fst x := j], cl'))
     else (js, cl))"

definition run_jobs :: "'s sink \<Rightarrow> (nat \<times> event) list \<Rightarrow> job list \<times> 's client \<Rightarrow> job list \<times> 's client" where
  "run_jobs sk = fold (step_at sk)"

subsection \<open>Steps that commute\<close>

text \<open>
  Steps of different owners that commute up to an equivalence: a run is then equivalent to the run in
  which each owner's steps come in one block.
\<close>

locale commuting_steps =
  fixes step :: "'e \<Rightarrow> 's \<Rightarrow> 's" and owner :: "'e \<Rightarrow> 'k" and eqv :: "'s \<Rightarrow> 's \<Rightarrow> bool" and ok :: "'s \<Rightarrow> bool"
  assumes eqv_refl: "eqv s s"
    and eqv_trans: "eqv s t \<Longrightarrow> eqv t u \<Longrightarrow> eqv s u"
    and ok_step: "ok s \<Longrightarrow> ok (step e s)"
    and step_cong: "ok s \<Longrightarrow> eqv s t \<Longrightarrow> eqv (step e s) (step e t)"
    and commute: "ok s \<Longrightarrow> owner e \<noteq> owner f \<Longrightarrow> eqv (step e (step f s)) (step f (step e s))"
begin

lemma ok_fold: "ok s \<Longrightarrow> ok (fold step es s)"
  by (induction es arbitrary: s) (simp_all add: ok_step)

lemma fold_eqv: "ok s \<Longrightarrow> eqv s t \<Longrightarrow> eqv (fold step es s) (fold step es t)"
  by (induction es arbitrary: s t) (simp_all add: step_cong ok_step)

lemma past_block:
  "ok s \<Longrightarrow> \<forall>f \<in> set fs. owner f \<noteq> owner e \<Longrightarrow> eqv (fold step fs (step e s)) (step e (fold step fs s))"
proof (induction fs arbitrary: s)
  case (Cons f fs)
  have "eqv (fold step fs (step f (step e s))) (fold step fs (step e (step f s)))"
    using Cons.prems by (intro fold_eqv commute ok_step) auto
  with Cons.IH [of "step f s"] Cons.prems ok_step show ?case by (auto intro: eqv_trans)
qed (simp add: eqv_refl)

lemma block_first:
  "ok s \<Longrightarrow> eqv (fold step es s)
     (fold step (filter (\<lambda>e. owner e = k) es @ filter (\<lambda>e. owner e \<noteq> k) es) s)"
proof (induction es arbitrary: s)
  case (Cons e es)
  let ?mine = "filter (\<lambda>e. owner e = k) es" and ?rest = "filter (\<lambda>e. owner e \<noteq> k) es"
  have IH: "eqv (fold step es (step e s)) (fold step (?mine @ ?rest) (step e s))"
    using Cons ok_step by blast
  show ?case
  proof (cases "owner e = k")
    case False
    with past_block [of s ?mine e] Cons.prems
    have "eqv (fold step ?rest (fold step ?mine (step e s))) (fold step ?rest (step e (fold step ?mine s)))"
      by (intro fold_eqv ok_fold ok_step) auto
    with IH False show ?thesis by (auto intro: eqv_trans)
  qed (use IH in simp)
qed (simp add: eqv_refl)

lemma in_blocks:
  "ok s \<Longrightarrow> distinct ks \<Longrightarrow> owner ` set es \<subseteq> set ks \<Longrightarrow>
     eqv (fold step es s) (fold step (concat (map (\<lambda>k. filter (\<lambda>e. owner e = k) es) ks)) s)"
proof (induction ks arbitrary: es s)
  case (Cons k ks)
  let ?mine = "filter (\<lambda>e. owner e = k) es" and ?rest = "filter (\<lambda>e. owner e \<noteq> k) es"
  have "filter (\<lambda>e. owner e = k') ?rest = filter (\<lambda>e. owner e = k') es" if "k' \<in> set ks" for k'
    using that Cons.prems(2) by (auto intro!: filter_cong)
  then have blocks: "map (\<lambda>k. filter (\<lambda>e. owner e = k) ?rest) ks = map (\<lambda>k. filter (\<lambda>e. owner e = k) es) ks"
    by simp
  have "eqv (fold step ?rest (fold step ?mine s))
      (fold step (concat (map (\<lambda>k. filter (\<lambda>e. owner e = k) ?rest) ks)) (fold step ?mine s))"
    using Cons.prems by (intro Cons.IH ok_fold) auto
  with block_first [OF Cons.prems(1), of es k] show ?case
    unfolding blocks by (auto intro: eqv_trans)
qed (simp add: eqv_refl)

end

subsection \<open>What a step does to the shared client\<close>

text \<open>
  The step of a task that has its plan, split into what becomes of the task, which does not depend on
  the shared state, and its effect on that.
\<close>

datatype effect =
    Nothing
  | Outcome signal provider_outcome
  | Ended job delivery_result op
  | Leave

fun apply_effect :: "'s sink \<Rightarrow> effect \<Rightarrow> 's client \<Rightarrow> 's client" where
  "apply_effect sk Nothing cl = cl"
| "apply_effect sk (Outcome sg x) cl = cl\<lparr>cl_sink := snd (sk_outcome sk sg x (cl_sink cl))\<rparr>"
| "apply_effect sk (Ended j r x) cl = end_op sk j r x cl"
| "apply_effect sk Leave cl = finish_task cl"

fun reported :: "providers \<Rightarrow> (string \<Rightarrow> nat \<Rightarrow> (signal_error, string option) res) \<Rightarrow> chain_pos \<Rightarrow> provider_outcome option" where
  "reported ps ans (Trying (n # ns)) = (if known ps n then Some (pending_outcome n) else None)"
| "reported ps ans (Sending n ns k) =
     (if \<not> known ps n then None
      else (case ans n k of
         Inr _ \<Rightarrow> Some \<lparr>po_provider = n, po_status = Delivered, po_error = None, po_attempts = k\<rparr>
       | Inl e \<Rightarrow> (if k < MAX_RETRY_ATTEMPTS then None
           else Some \<lparr>po_provider = n, po_status = Failed, po_error = Some (error_display e),
             po_attempts = MAX_RETRY_ATTEMPTS\<rparr>)))"
| "reported ps ans _ = None"

definition planned :: "job \<Rightarrow> bool" where
  "planned j = (case jb_phase j of Recording _ \<Rightarrow> False | Planning _ \<Rightarrow> False | _ \<Rightarrow> True)"

definition answers :: "job \<Rightarrow> string \<Rightarrow> nat \<Rightarrow> (signal_error, string option) res" where
  "answers j = answer (jb_providers j) (jb_signal j) (jb_prior_refs j)"

definition job_after :: "event \<Rightarrow> job \<Rightarrow> job" where
  "job_after e j = (if ended j then j else
     (case e of
        Abort \<Rightarrow> j\<lparr>jb_phase := Aborted\<rparr>
      | Poll i \<Rightarrow>
          (case jb_phase j of
             Delivering p ops cs \<Rightarrow>
               (let (cs', tk) = poll quiet_sink (jb_providers j) i (cs, tracker_of j ())
                in j\<lparr>jb_outcomes := tk_outcomes tk, jb_refs := tk_refs tk,
                     jb_phase := (if all_finished cs' then Ending (summarize p (tk_outcomes tk) None) ops
                                  else Delivering p ops cs')\<rparr>)
           | Ending r [] \<Rightarrow> j\<lparr>jb_phase := Done r\<rparr>
           | Ending r (x # ops) \<Rightarrow> j\<lparr>jb_phase := Ending r ops\<rparr>
           | _ \<Rightarrow> j)))"

definition effect_of :: "event \<Rightarrow> job \<Rightarrow> effect" where
  "effect_of e j = (if ended j then Nothing else
     (case e of
        Abort \<Rightarrow> Leave
      | Poll i \<Rightarrow>
          (case jb_phase j of
             Delivering p ops cs \<Rightarrow>
               (if i < length cs
                then (case reported (jb_providers j) (answers j) (cs ! i) of
                        Some x \<Rightarrow> Outcome (jb_signal j) x
                      | None \<Rightarrow> Nothing)
                else Nothing)
           | Ending r [] \<Rightarrow> Leave
           | Ending r (x # ops) \<Rightarrow> Ended j r x
           | _ \<Rightarrow> Nothing)))"

lemma tracker_of_simps [simp]:
  "tk_signal (tracker_of j s) = jb_signal j" "tk_outcomes (tracker_of j s) = jb_outcomes j"
  "tk_prior_refs (tracker_of j s) = jb_prior_refs j" "tk_refs (tracker_of j s) = jb_refs j"
  "tk_sink (tracker_of j s) = s"
  by (simp_all add: tracker_of_def)

lemma chain_step_split:
  fixes tk :: "'s tracker" and tu :: "unit tracker"
  assumes "chain_step sk ps (c, tk) = (c', tk')" and "chain_step quiet_sink ps (c, tu) = (cu, tu')"
    and "tk_signal tu = tk_signal tk" "tk_prior_refs tu = tk_prior_refs tk"
    "tk_outcomes tu = tk_outcomes tk" "tk_refs tu = tk_refs tk"
  shows "c' = cu \<and> tk_outcomes tk' = tk_outcomes tu' \<and> tk_refs tk' = tk_refs tu' \<and>
    tk_sink tk' = (case reported ps (answer ps (tk_signal tk) (tk_prior_refs tk)) c of
       Some x \<Rightarrow> snd (sk_outcome sk (tk_signal tk) x (tk_sink tk)) | None \<Rightarrow> tk_sink tk)"
  using assms
  by (cases "(sk, ps, c, tk)" rule: chain_step.cases)
     (auto simp: Let_def known_def answer_def report_def keep_ref_def pending_outcome_def
       split: option.splits sum.splits if_splits)

lemma poll_split:
  assumes "poll sk (jb_providers j) i (cs, tracker_of j s) = (cs', tk)"
    and "poll quiet_sink (jb_providers j) i (cs, tracker_of j ()) = (cu, tu)"
  shows "cs' = cu \<and> tk_outcomes tk = tk_outcomes tu \<and> tk_refs tk = tk_refs tu \<and>
    tk_sink tk = (case (if i < length cs then reported (jb_providers j) (answers j) (cs ! i) else None) of
       Some x \<Rightarrow> snd (sk_outcome sk (jb_signal j) x s) | None \<Rightarrow> s)"
proof (cases "i < length cs")
  case True
  obtain c1 t1 where 1: "chain_step sk (jb_providers j) (cs ! i, tracker_of j s) = (c1, t1)" by fastforce
  obtain c2 t2 where 2: "chain_step quiet_sink (jb_providers j) (cs ! i, tracker_of j ()) = (c2, t2)" by fastforce
  from chain_step_split [OF 1 2] assms True show ?thesis by (simp add: poll_def 1 2 answers_def split: option.splits)
next
  case False
  with assms show ?thesis by (auto simp: poll_def)
qed

lemma job_step_split:
  assumes "planned j"
  shows "job_step sk e (j, cl) = (job_after e j, apply_effect sk (effect_of e j) cl)"
proof (cases "ended j")
  case False
  show ?thesis
  proof (cases e)
    case (Poll i)
    show ?thesis
    proof (cases "jb_phase j")
      case (Delivering p ops cs)
      obtain c1 t1 where 1: "poll sk (jb_providers j) i (cs, tracker_of j (cl_sink cl)) = (c1, t1)" by fastforce
      obtain c2 t2 where 2: "poll quiet_sink (jb_providers j) i (cs, tracker_of j ()) = (c2, t2)" by fastforce
      note poll_split [OF 1 2]
      with False Poll Delivering show ?thesis
        by (simp add: job_step_def work_step_def job_after_def effect_of_def 1 2 split: option.splits)
    next
      case (Ending r ops)
      with False Poll show ?thesis
        by (cases ops) (simp_all add: job_step_def work_step_def job_after_def effect_of_def)
    qed (use assms False in \<open>simp_all add: planned_def ended_def\<close>)
  qed (simp add: job_step_def job_after_def effect_of_def False)
qed (simp add: job_step_def job_after_def effect_of_def)

subsection \<open>Updates under keys\<close>

text \<open>Updates that each change one key's part of a state, as a function of that part alone.\<close>

locale keyed_update =
  fixes upd :: "'u \<Rightarrow> 's \<Rightarrow> 's" and key_at :: "'u \<Rightarrow> 'k option" and view :: "'s \<Rightarrow> 'k \<Rightarrow> 'v"
  assumes frame: "key_at u \<noteq> Some n \<Longrightarrow> view (upd u s) n = view s n"
    and at_key: "key_at u = Some n \<Longrightarrow> view s n = view t n \<Longrightarrow> view (upd u s) n = view (upd u t) n"
begin

lemma upd_cong: "view s = view t \<Longrightarrow> view (upd u s) = view (upd u t)"
proof (rule ext)
  fix n
  assume "view s = view t"
  then show "view (upd u s) n = view (upd u t) n"
    using frame [of u n] at_key [of u n s t] by (cases "key_at u = Some n") auto
qed

lemma upd_commute:
  assumes "key_at u \<noteq> key_at v"
  shows "view (upd u (upd v s)) = view (upd v (upd u s))"
proof (rule ext)
  fix n
  show "view (upd u (upd v s)) n = view (upd v (upd u s)) n"
  proof (cases "key_at u = Some n")
    case True
    with assms have v: "key_at v \<noteq> Some n" by auto
    with at_key [OF True frame [OF v]] frame [OF v] show ?thesis by simp
  next
    case False
    note u = this
    show ?thesis
    proof (cases "key_at v = Some n")
      case True
      from at_key [OF True frame [OF u]] frame [OF u] show ?thesis by simp
    qed (simp add: frame u)
  qed
qed

end

text \<open>The writes to a sink, each under the id of its signal.\<close>

datatype sink_write =
    Put_Signal signal
  | Put_Result signal delivery_result
  | Put_Outcome signal provider_outcome

fun write_to :: "'s sink \<Rightarrow> sink_write \<Rightarrow> 's \<Rightarrow> 's" where
  "write_to sk (Put_Signal sg) s = snd (sk_record sk sg s)"
| "write_to sk (Put_Result sg r) s = snd (sk_complete sk sg r s)"
| "write_to sk (Put_Outcome sg x) s = snd (sk_outcome sk sg x s)"

fun written_id :: "sink_write \<Rightarrow> string option" where
  "written_id (Put_Signal sg) = Some (sg_id sg)"
| "written_id (Put_Result sg r) = Some (sg_id sg)"
| "written_id (Put_Outcome sg x) = Some (sg_id sg)"

text \<open>All rows the SQLite sink has for a signal.\<close>

definition signal_rows :: "tables \<Rightarrow> string \<Rightarrow> signal_row option \<times> (string \<Rightarrow> delivery_row option)" where
  "signal_rows t n = (map_of (tb_signals t) n, \<lambda>p. map_of (tb_deliveries t) (n, p))"

lemma insert_row_rows:
  "n \<noteq> sg_id sg \<Longrightarrow> signal_rows (snd (insert_row env sg r oc t)) n = signal_rows t n"
  "signal_rows t (sg_id sg) = signal_rows t' (sg_id sg) \<Longrightarrow>
     fst (insert_row env sg r oc t) = fst (insert_row env sg r oc t') \<and>
     signal_rows (snd (insert_row env sg r oc t)) (sg_id sg) = signal_rows (snd (insert_row env sg r oc t')) (sg_id sg)"
  by (auto simp: signal_rows_def insert_row_def map_of_update Let_def split: option.splits)

lemma upsert_outcome_rows:
  "n \<noteq> sg_id sg \<Longrightarrow> signal_rows (snd (upsert_outcome env sg x t)) n = signal_rows t n"
  "signal_rows t (sg_id sg) = signal_rows t' (sg_id sg) \<Longrightarrow>
     fst (upsert_outcome env sg x t) = fst (upsert_outcome env sg x t') \<and>
     signal_rows (snd (upsert_outcome env sg x t)) (sg_id sg) = signal_rows (snd (upsert_outcome env sg x t')) (sg_id sg)"
  by (auto simp: signal_rows_def upsert_outcome_def map_of_update fun_eq_iff split: option.splits)

lemma upsert_outcomes_rows:
  "n \<noteq> sg_id sg \<Longrightarrow> signal_rows (snd (upsert_outcomes env sg xs t)) n = signal_rows t n"
  "signal_rows t (sg_id sg) = signal_rows t' (sg_id sg) \<Longrightarrow>
     signal_rows (snd (upsert_outcomes env sg xs t)) (sg_id sg) = signal_rows (snd (upsert_outcomes env sg xs t')) (sg_id sg)"
proof (induction xs arbitrary: t t')
  case (Cons x xs)
  {
    case 1
    obtain v u where x: "upsert_outcome env sg x t = (v, u)" by fastforce
    from upsert_outcome_rows(1) [OF 1, of env x t] Cons.IH(1) [OF 1, of u] x show ?case by (cases v) simp_all
  next
    case 2
    obtain v u where x: "upsert_outcome env sg x t = (v, u)" by fastforce
    obtain v' u' where x': "upsert_outcome env sg x t' = (v', u')" by fastforce
    from upsert_outcome_rows(2) [OF 2, of env x] Cons.IH(2) [of u u'] x x' show ?case by (cases v) auto
  }
qed simp_all

lemma sqlite_complete_rows:
  "n \<noteq> sg_id sg \<Longrightarrow> signal_rows (snd (sqlite_complete env sg r t)) n = signal_rows t n"
  "signal_rows t (sg_id sg) = signal_rows t' (sg_id sg) \<Longrightarrow>
     signal_rows (snd (sqlite_complete env sg r t)) (sg_id sg) = signal_rows (snd (sqlite_complete env sg r t')) (sg_id sg)"
proof -
  obtain v u where i: "insert_row env sg r (Some keep_new_outcome) t = (v, u)" by fastforce
  obtain v' u' where i': "insert_row env sg r (Some keep_new_outcome) t' = (v', u')" by fastforce
  show "signal_rows (snd (sqlite_complete env sg r t)) n = signal_rows t n" if "n \<noteq> sg_id sg"
    using insert_row_rows(1) [OF that, of env r "Some keep_new_outcome" t] upsert_outcomes_rows(1) [OF that, of env _ u] i
    by (cases v) (simp_all add: sqlite_complete_def)
  show "signal_rows (snd (sqlite_complete env sg r t)) (sg_id sg) = signal_rows (snd (sqlite_complete env sg r t')) (sg_id sg)"
    if "signal_rows t (sg_id sg) = signal_rows t' (sg_id sg)"
    using insert_row_rows(2) [OF that, of env r "Some keep_new_outcome"] upsert_outcomes_rows(2) [of u sg u' env] i i'
    by (cases v) (auto simp: sqlite_complete_def)
qed

lemma sqlite_write_rows:
  "written_id u \<noteq> Some n \<Longrightarrow> signal_rows (write_to (sqlite_sink env) u t) n = signal_rows t n"
  "written_id u = Some n \<Longrightarrow> signal_rows t n = signal_rows t' n \<Longrightarrow>
     signal_rows (write_to (sqlite_sink env) u t) n = signal_rows (write_to (sqlite_sink env) u t') n"
proof -
  show "signal_rows (write_to (sqlite_sink env) u t) n = signal_rows t n" if "written_id u \<noteq> Some n"
  proof (cases u)
    case (Put_Signal sg)
    with that insert_row_rows(1) [of n sg] show ?thesis by (simp add: sqlite_sink_def sqlite_record_def)
  next
    case (Put_Result sg r)
    with that sqlite_complete_rows(1) [of n sg] show ?thesis by (simp add: sqlite_sink_def)
  next
    case (Put_Outcome sg x)
    with that upsert_outcome_rows(1) [of n sg] show ?thesis by (simp add: sqlite_sink_def sqlite_outcome_def)
  qed
  show "signal_rows (write_to (sqlite_sink env) u t) n = signal_rows (write_to (sqlite_sink env) u t') n"
    if "written_id u = Some n" "signal_rows t n = signal_rows t' n"
  proof (cases u)
    case (Put_Signal sg)
    with that insert_row_rows(2) [of t sg t'] show ?thesis by (simp add: sqlite_sink_def sqlite_record_def)
  next
    case (Put_Result sg r)
    with that sqlite_complete_rows(2) [of t sg t'] show ?thesis by (simp add: sqlite_sink_def)
  next
    case (Put_Outcome sg x)
    with that upsert_outcome_rows(2) [of t sg t'] show ?thesis by (simp add: sqlite_sink_def sqlite_outcome_def)
  qed
qed

text \<open>The rows of the alert book under a dedup key, and a delivery's update of them.\<close>

datatype alert_note = Note "provider_outcome \<Rightarrow> bool" string signal delivery_result "(string \<times> string) list"

fun note_alerts :: "alert_note \<Rightarrow> alert_book \<Rightarrow> alert_book" where
  "note_alerts (Note fails now sg r refs) book = record_alerts fails now sg r refs book"

fun noted_key :: "alert_note \<Rightarrow> string option" where
  "noted_key (Note fails now sg r refs) = sg_dedup_key sg"

definition key_rows :: "alert_book \<Rightarrow> string \<Rightarrow> string \<Rightarrow> alert_row option" where
  "key_rows book k p = map_of book (k, p)"

lemma record_outcome_rows:
  "k \<noteq> key \<Longrightarrow> key_rows (record_outcome key sg refs now x book) k = key_rows book k"
  "key_rows book key = key_rows book' key \<Longrightarrow>
     key_rows (record_outcome key sg refs now x book) key = key_rows (record_outcome key sg refs now x book') key"
  by (auto simp: key_rows_def record_outcome_def set_state_def map_of_update fun_eq_iff split: action.splits option.splits)

lemma fold_record_rows:
  "k \<noteq> key \<Longrightarrow> key_rows (fold (\<lambda>x book. if fails x then book else record_outcome key sg refs now x book) xs book) k =
     key_rows book k"
  by (induction xs arbitrary: book) (simp_all add: record_outcome_rows(1))

lemma fold_record_rows_at:
  "key_rows book key = key_rows book' key \<Longrightarrow>
     key_rows (fold (\<lambda>x book. if fails x then book else record_outcome key sg refs now x book) xs book) key =
     key_rows (fold (\<lambda>x book. if fails x then book else record_outcome key sg refs now x book) xs book') key"
proof (induction xs arbitrary: book book')
  case (Cons x xs)
  from Cons.IH [OF Cons.prems] Cons.IH [OF record_outcome_rows(2) [OF Cons.prems, of sg refs now x]]
  show ?case by simp
qed simp

interpretation alert_keys: keyed_update note_alerts noted_key key_rows
proof unfold_locales
  fix u k and book book' :: alert_book
  obtain fails now sg r refs where u: "u = Note fails now sg r refs" by (cases u)
  show "key_rows (note_alerts u book) k = key_rows book k" if "noted_key u \<noteq> Some k"
  proof (cases "sg_dedup_key sg")
    case (Some key)
    with that u have "k \<noteq> key" by auto
    with Some u fold_record_rows [of k key fails sg refs now] show ?thesis by (simp add: record_alerts_def)
  qed (simp add: u record_alerts_def)
  show "key_rows (note_alerts u book) k = key_rows (note_alerts u book') k"
    if "noted_key u = Some k" "key_rows book k = key_rows book' k"
    using that fold_record_rows_at [of book k book' fails sg refs now] by (simp add: u record_alerts_def)
qed

subsection \<open>Tasks that share no signal and no alert\<close>

locale isolated_sink = keyed_update "write_to sk" written_id view
  for sk :: "'s sink" and view :: "'s \<Rightarrow> string \<Rightarrow> 'v"

text \<open>Two clients with the same rows for every signal and alert, and otherwise equal.\<close>

definition same_client :: "('s \<Rightarrow> string \<Rightarrow> 'v) \<Rightarrow> 's client \<Rightarrow> 's client \<Rightarrow> bool" where
  "same_client view cl cl' \<longleftrightarrow> view (cl_sink cl) = view (cl_sink cl') \<and> cl_rows cl = cl_rows cl' \<and>
     map_option key_rows (cl_alerts cl) = map_option key_rows (cl_alerts cl') \<and>
     cl_groups cl = cl_groups cl' \<and> cl_pipeline cl = cl_pipeline cl' \<and>
     cl_timers cl = cl_timers cl' \<and> cl_tasks cl = cl_tasks cl'"

definition job_ops :: "job \<Rightarrow> op list" where
  "job_ops j = (case jb_phase j of Delivering p ops cs \<Rightarrow> ops | Ending r ops \<Rightarrow> ops | _ \<Rightarrow> [])"

definition job_ids :: "job \<Rightarrow> string set" where
  "job_ids j = insert (sg_id (jb_signal j)) {sg_id sg | sg. Store sg \<in> set (job_ops j)}"

definition job_keys :: "job \<Rightarrow> string set" where
  "job_keys j = (if Note_Alerts \<in> set (job_ops j) then set_option (sg_dedup_key (jb_signal j)) else {})"

fun effect_write :: "effect \<Rightarrow> sink_write option" where
  "effect_write (Outcome sg x) = Some (Put_Outcome sg x)"
| "effect_write (Ended j r (Store sg)) = Some (Put_Result sg r)"
| "effect_write _ = None"

fun effect_note :: "effect \<Rightarrow> alert_note option" where
  "effect_note (Ended j r Note_Alerts) =
     Some (Note (w_write_fault (jb_world j)) (w_stamp (jb_world j)) (jb_signal j) r (jb_refs j))"
| "effect_note _ = None"

fun effect_settles :: "effect \<Rightarrow> row list option \<Rightarrow> row list option" where
  "effect_settles (Ended j r (Settle adm)) rows = settle (jb_world j) adm r rows"
| "effect_settles _ rows = rows"

definition opt_apply :: "('u \<Rightarrow> 's \<Rightarrow> 's) \<Rightarrow> 'u option \<Rightarrow> 's \<Rightarrow> 's" where
  "opt_apply f x s = (case x of None \<Rightarrow> s | Some u \<Rightarrow> f u s)"

lemma opt_apply_simps [simp]: "opt_apply f None = id" "opt_apply f (Some u) = f u"
  by (simp_all add: opt_apply_def fun_eq_iff)

lemma apply_effect_parts:
  "apply_effect sk e cl = cl\<lparr>cl_sink := opt_apply (write_to sk) (effect_write e) (cl_sink cl),
     cl_rows := effect_settles e (cl_rows cl),
     cl_alerts := map_option (opt_apply note_alerts (effect_note e)) (cl_alerts cl),
     cl_groups := (if e = Leave then cl_groups (finish_task cl) else cl_groups cl)\<rparr>"
proof (cases e)
  case (Ended j r x)
  then show ?thesis
    by (cases cl; cases x) (simp_all add: complete_signal_def case_prod_beta Let_def option.map_id)
qed (cases cl; simp add: finish_task_def option.map_id)+

lemma apply_effect_simps:
  "cl_sink (apply_effect sk e cl) = opt_apply (write_to sk) (effect_write e) (cl_sink cl)"
  "cl_rows (apply_effect sk e cl) = effect_settles e (cl_rows cl)"
  "cl_alerts (apply_effect sk e cl) = map_option (opt_apply note_alerts (effect_note e)) (cl_alerts cl)"
  "cl_groups (apply_effect sk e cl) = (if e = Leave then (cl_groups cl)\<lparr>gs_in_flight :=
     in_flight_finish (gs_in_flight (cl_groups cl))\<rparr> else cl_groups cl)"
  "cl_pipeline (apply_effect sk e cl) = cl_pipeline cl" "cl_timers (apply_effect sk e cl) = cl_timers cl"
  "cl_tasks (apply_effect sk e cl) = cl_tasks cl"
  by (simp_all add: apply_effect_parts [of sk e cl] finish_task_def)

lemma release_commute: "release f a (release g b rows) = release g b (release f a rows)"
proof -
  have one: "release f a (if P then rows else remove1 x rows) = (if P then release f a rows else remove1 x (release f a rows))"
    for P x rows by (induction a arbitrary: rows) (auto simp: remove1_commute)
  show ?thesis by (induction b arbitrary: rows) (simp_all add: one)
qed

lemma settle_eq: "settle w adm r rows =
   (if dr_status r = Failed then map_option (release (w_release_fault w) adm) rows else rows)"
  by (cases rows; cases "dr_status r") (simp_all add: settle_def)

lemma effect_settles_commute: "effect_settles e (effect_settles f rows) = effect_settles f (effect_settles e rows)"
proof -
  have settles: "effect_settles e = id \<or> (\<exists>g adm. effect_settles e = map_option (release g adm))" for e
  proof (cases e)
    case (Ended j r x)
    then show ?thesis by (cases x) (auto simp: settle_eq fun_eq_iff)
  qed (auto simp: fun_eq_iff)
  from settles [of e] settles [of f] show ?thesis
    by (cases rows) (auto simp: release_commute)
qed

context isolated_sink
begin

lemma effect_cong:
  assumes "same_client view cl cl'"
  shows "same_client view (apply_effect sk e cl) (apply_effect sk e cl')"
proof -
  have sink: "view (opt_apply (write_to sk) x s) = view (opt_apply (write_to sk) x s')" if "view s = view s'" for x s s'
    using that upd_cong [of s s'] by (cases x) simp_all
  have alerts: "map_option key_rows (map_option (opt_apply note_alerts x) b) = map_option key_rows (map_option (opt_apply note_alerts x) b')"
    if "map_option key_rows b = map_option key_rows b'" for x b b'
    using that alert_keys.upd_cong [of "the b" "the b'"] by (cases x; cases b; cases b') simp_all
  from assms have eq: "view (cl_sink cl) = view (cl_sink cl')" "map_option key_rows (cl_alerts cl) = map_option key_rows (cl_alerts cl')"
    and rest: "cl_rows cl = cl_rows cl'" "cl_groups cl = cl_groups cl'" "cl_pipeline cl = cl_pipeline cl'"
      "cl_timers cl = cl_timers cl'" "cl_tasks cl = cl_tasks cl'" by (simp_all add: same_client_def)
  show ?thesis unfolding same_client_def apply_effect_simps
    by (intro conjI sink [OF eq(1)] alerts [OF eq(2)]) (simp_all add: rest)
qed

lemma effect_commute:
  assumes ids: "\<And>u v. effect_write e = Some u \<Longrightarrow> effect_write f = Some v \<Longrightarrow> written_id u \<noteq> written_id v"
    and keys: "\<And>u v k. effect_note e = Some u \<Longrightarrow> effect_note f = Some v \<Longrightarrow> noted_key u = Some k \<Longrightarrow> noted_key v \<noteq> Some k"
  shows "same_client view (apply_effect sk e (apply_effect sk f cl)) (apply_effect sk f (apply_effect sk e cl))"
proof -
  have sink: "view (opt_apply (write_to sk) (effect_write e) (opt_apply (write_to sk) (effect_write f) s)) =
      view (opt_apply (write_to sk) (effect_write f) (opt_apply (write_to sk) (effect_write e) s))" for s
  proof (cases "effect_write e"; cases "effect_write f")
    fix u v
    assume "effect_write e = Some u" "effect_write f = Some v"
    with upd_commute [OF ids [OF this]] show ?thesis by simp
  qed simp_all
  have "key_rows (opt_apply note_alerts (effect_note e) (opt_apply note_alerts (effect_note f) b)) =
      key_rows (opt_apply note_alerts (effect_note f) (opt_apply note_alerts (effect_note e) b))" for b
  proof (cases "effect_note e"; cases "effect_note f")
    fix u v
    assume uv: "effect_note e = Some u" "effect_note f = Some v"
    show ?thesis
    proof (cases "noted_key u = noted_key v")
      case True
      have none: "noted_key u = None" using keys [OF uv] unfolding True by (cases "noted_key v") blast+
      then have "noted_key v = None" unfolding True by this
      with none show ?thesis using uv by (cases u; cases v) (simp add: record_alerts_def)
    qed (simp add: uv alert_keys.upd_commute)
  qed simp_all
  then have alerts: "map_option key_rows (map_option (opt_apply note_alerts (effect_note e)) (map_option (opt_apply note_alerts (effect_note f)) b)) =
      map_option key_rows (map_option (opt_apply note_alerts (effect_note f)) (map_option (opt_apply note_alerts (effect_note e)) b))" for b
    by (cases b) simp_all
  show ?thesis unfolding same_client_def apply_effect_simps
    by (intro conjI sink alerts effect_settles_commute) simp_all
qed

end

interpretation sqlite_rows: isolated_sink "sqlite_sink env" signal_rows
  by unfold_locales (fact sqlite_write_rows)+

subsection \<open>Independent tasks\<close>

definition independent :: "job list \<Rightarrow> bool" where
  "independent js \<longleftrightarrow> (\<forall>j \<in> set js. planned j) \<and>
     (\<forall>k < length js. \<forall>l < length js. k \<noteq> l \<longrightarrow>
        job_ids (js ! k) \<inter> job_ids (js ! l) = {} \<and> job_keys (js ! k) \<inter> job_keys (js ! l) = {})"

definition same_state :: "('s \<Rightarrow> string \<Rightarrow> 'v) \<Rightarrow> job list \<times> 's client \<Rightarrow> job list \<times> 's client \<Rightarrow> bool" where
  "same_state view st st' \<longleftrightarrow> fst st = fst st' \<and> same_client view (snd st) (snd st')"

lemma same_client_refl: "same_client view cl cl"
  by (simp add: same_client_def)

lemma same_client_trans: "same_client view a b \<Longrightarrow> same_client view b c \<Longrightarrow> same_client view a c"
  by (simp add: same_client_def)

lemma job_after_shrinks:
  assumes "planned j"
  shows "planned (job_after e j)" "job_ids (job_after e j) \<subseteq> job_ids j" "job_keys (job_after e j) \<subseteq> job_keys j"
  using assms
  by (auto simp: job_after_def planned_def job_ids_def job_keys_def job_ops_def Let_def
      split: event.splits phase.splits list.splits prod.splits if_splits)

lemma effect_within:
  "effect_write (effect_of e j) = Some u \<Longrightarrow> \<exists>n \<in> job_ids j. written_id u = Some n"
  "effect_note (effect_of e j) = Some v \<Longrightarrow> noted_key v = Some k \<Longrightarrow> k \<in> job_keys j"
proof -
  show "\<exists>n \<in> job_ids j. written_id u = Some n" if "effect_write (effect_of e j) = Some u"
    using that by (auto simp: effect_of_def job_ids_def job_ops_def elim!: effect_write.elims
        split: event.splits phase.splits list.splits option.splits if_splits)
  show "k \<in> job_keys j" if "effect_note (effect_of e j) = Some v" "noted_key v = Some k"
    using that by (auto simp: effect_of_def job_keys_def job_ops_def elim!: effect_note.elims
        split: event.splits phase.splits list.splits option.splits if_splits)
qed

lemma independent_update:
  assumes "independent js" and "k < length js"
  shows "independent (js[k := job_after e (js ! k)])"
proof -
  have pl: "planned (js ! k)" using assms by (simp add: independent_def)
  note shrink = job_after_shrinks [OF pl, of e]
  have ids: "job_ids (js[k := job_after e (js ! k)] ! l) \<subseteq> job_ids (js ! l)"
    and keys: "job_keys (js[k := job_after e (js ! k)] ! l) \<subseteq> job_keys (js ! l)" for l
    using shrink assms(2) by (cases "l = k"; simp)+
  have "job_ids (js[k := job_after e (js ! k)] ! l) \<inter> job_ids (js[k := job_after e (js ! k)] ! m) = {} \<and>
      job_keys (js[k := job_after e (js ! k)] ! l) \<inter> job_keys (js[k := job_after e (js ! k)] ! m) = {}"
    if "l < length js" "m < length js" "l \<noteq> m" for l m
    using that assms(1) ids [of l] ids [of m] keys [of l] keys [of m] unfolding independent_def by blast
  moreover have "\<forall>j \<in> set (js[k := job_after e (js ! k)]). planned j"
    using assms(1) shrink(1) set_update_subset_insert [of js k] unfolding independent_def by blast
  ultimately show ?thesis by (simp add: independent_def)
qed

lemma step_at_split:
  assumes "independent js"
  shows "step_at sk x (js, cl) =
    (if fst x < length js
     then (js[fst x := job_after (snd x) (js ! fst x)], apply_effect sk (effect_of (snd x) (js ! fst x)) cl)
     else (js, cl))"
  using assms by (simp add: step_at_def job_step_split independent_def)

lemma independent_step: "independent (fst st) \<Longrightarrow> independent (fst (step_at sk x st))"
  by (cases st) (simp add: step_at_split independent_update)

context isolated_sink
begin

lemma step_at_cong:
  "independent (fst s) \<Longrightarrow> same_state view s t \<Longrightarrow> same_state view (step_at sk x s) (step_at sk x t)"
  by (cases s; cases t) (simp add: same_state_def step_at_split effect_cong)

lemma step_at_commute:
  assumes "independent (fst s)" and "fst x \<noteq> fst y"
  shows "same_state view (step_at sk x (step_at sk y s)) (step_at sk y (step_at sk x s))"
proof -
  obtain js cl where s: "s = (js, cl)" by (cases s)
  note ind = assms(1) [unfolded s fst_conv]
  note upd = independent_update [OF ind]
  show ?thesis
  proof (cases "fst x < length js \<and> fst y < length js")
    case True
    let ?a = "effect_of (snd x) (js ! fst x)" and ?b = "effect_of (snd y) (js ! fst y)"
    have apart: "job_ids (js ! fst x) \<inter> job_ids (js ! fst y) = {}" "job_keys (js ! fst x) \<inter> job_keys (js ! fst y) = {}"
      using ind True assms(2) by (simp_all add: independent_def)
    have "same_client view (apply_effect sk ?a (apply_effect sk ?b cl)) (apply_effect sk ?b (apply_effect sk ?a cl))"
    proof (rule effect_commute)
      fix u v
      assume "effect_write ?a = Some u" "effect_write ?b = Some v"
      from effect_within(1) [OF this(1)] effect_within(1) [OF this(2)] apart(1)
      show "written_id u \<noteq> written_id v" by fastforce
    next
      fix u v k
      assume "effect_note ?a = Some u" "effect_note ?b = Some v" "noted_key u = Some k"
      from effect_within(2) [OF this(1,3)] effect_within(2) [OF this(2), of k] apart(2)
      show "noted_key v \<noteq> Some k" by blast
    qed
    with True assms(2) show ?thesis
      by (simp add: s same_state_def step_at_split ind upd list_update_swap)
  next
    case False
    then show ?thesis
      by (auto simp: s same_state_def step_at_split ind upd same_client_refl)
  qed
qed

end

interpretation background: commuting_steps "step_at (sqlite_sink env)" fst "same_state signal_rows" "\<lambda>st. independent (fst st)"
proof unfold_locales
  fix s t u :: "job list \<times> tables client" and x y :: "nat \<times> event"
  show "same_state signal_rows s s" by (simp add: same_state_def same_client_refl)
  show "same_state signal_rows s t \<Longrightarrow> same_state signal_rows t u \<Longrightarrow> same_state signal_rows s u"
    by (auto simp: same_state_def intro: same_client_trans)
  show "independent (fst s) \<Longrightarrow> independent (fst (step_at (sqlite_sink env) x s))" by (rule independent_step)
  show "independent (fst s) \<Longrightarrow> same_state signal_rows s t \<Longrightarrow>
      same_state signal_rows (step_at (sqlite_sink env) x s) (step_at (sqlite_sink env) x t)"
    by (rule sqlite_rows.step_at_cong)
  show "independent (fst s) \<Longrightarrow> fst x \<noteq> fst y \<Longrightarrow>
      same_state signal_rows (step_at (sqlite_sink env) x (step_at (sqlite_sink env) y s))
        (step_at (sqlite_sink env) y (step_at (sqlite_sink env) x s))"
    by (rule sqlite_rows.step_at_commute)
qed

subsection \<open>A task alone\<close>

text \<open>
  Without anything between its steps, a task's machine is the background task of \<open>Client\<close>, run under
  the schedule its events give.
\<close>

fun polls :: "event list \<Rightarrow> nat list" where
  "polls [] = []"
| "polls (Poll i # es) = i # polls es"
| "polls (Abort # es) = polls es"

lemma ended_stays: "ended j \<Longrightarrow> fold (job_step sk) es (j, cl) = (j, cl)"
  by (induction es) (simp_all add: job_step_def)

lemma job_step_live:
  "\<not> ended j \<Longrightarrow> job_step sk (Poll i) (j, cl) = work_step sk i (j, cl)"
  "\<not> ended j \<Longrightarrow> job_step sk Abort (j, cl) = (j\<lparr>jb_phase := Aborted\<rparr>, finish_task cl)"
  by (simp_all add: job_step_def)

lemma aborted_stays: "jb_phase (fst (fold (job_step sk) es (j\<lparr>jb_phase := Aborted\<rparr>, cl))) = Aborted"
  by (subst ended_stays) (simp_all add: ended_def)

lemma finished_stays:
  assumes "all_finished cs"
  shows "run_schedule sk ps sched (cs, tk) = (cs, tk)"
proof (induction sched)
  case (Cons i sched)
  have "poll sk ps i (cs, tk) = (cs, tk)"
  proof (cases "i < length cs")
    case True
    with assms have "cs ! i = Finished" by (simp add: all_finished_def)
    with True show ?thesis by (simp add: poll_def list_update_same_conv)
  qed (simp add: poll_def)
  with Cons show ?case by simp
qed simp

lemma poll_const:
  "poll sk ps i (cs, tk) = (cs', tk') \<Longrightarrow> tk_signal tk' = tk_signal tk \<and> tk_prior_refs tk' = tk_prior_refs tk"
  using chain_step_const [of sk ps "cs ! i" tk] by (auto simp: poll_def split: if_splits prod.splits)

lemma end_op_job [simp]:
  "end_op sk (j\<lparr>jb_phase := ph\<rparr>) = end_op sk j"
  "end_op sk (j\<lparr>jb_outcomes := outs, jb_refs := refs\<rparr>) = end_op sk (j\<lparr>jb_refs := refs\<rparr>)"
  "end_op sk (j\<lparr>jb_outcomes := outs, jb_phase := ph, jb_refs := refs\<rparr>) = end_op sk (j\<lparr>jb_refs := refs\<rparr>)"
proof -
  have eq: "end_op sk j = end_op sk j'" if "jb_world j = jb_world j'" "jb_signal j = jb_signal j'" "jb_refs j = jb_refs j'" for j j'
  proof (intro ext)
    fix r x cl
    show "end_op sk j r x cl = end_op sk j' r x cl" using that by (cases x) simp_all
  qed
  show "end_op sk (j\<lparr>jb_phase := ph\<rparr>) = end_op sk j"
    "end_op sk (j\<lparr>jb_outcomes := outs, jb_refs := refs\<rparr>) = end_op sk (j\<lparr>jb_refs := refs\<rparr>)"
    "end_op sk (j\<lparr>jb_outcomes := outs, jb_phase := ph, jb_refs := refs\<rparr>) = end_op sk (j\<lparr>jb_refs := refs\<rparr>)"
    by (rule eq; simp)+
qed

lemma ending_alone:
  "fold (job_step sk) es (j, cl) = (j', cl') \<Longrightarrow> jb_phase j = Ending r ops \<Longrightarrow> jb_phase j' = Done r' \<Longrightarrow>
     r' = r \<and> cl' = finish_task (fold (end_op sk j r) ops cl)"
proof (induction es arbitrary: j cl ops)
  case (Cons e es)
  have alive: "\<not> ended j" using Cons.prems(2) by (simp add: ended_def)
  show ?case
  proof (cases e)
    case Abort
    with Cons.prems aborted_stays [of sk es j "finish_task cl"] alive show ?thesis by (simp add: job_step_live)
  next
    case (Poll i)
    note step = Poll alive Cons.prems(2)
    show ?thesis
    proof (cases ops)
      case Nil
      with step Cons.prems(1) have "(j', cl') = fold (job_step sk) es (j\<lparr>jb_phase := Done r\<rparr>, finish_task cl)"
        by (simp add: job_step_live work_step_def)
      with ended_stays [of "j\<lparr>jb_phase := Done r\<rparr>" sk es] Cons.prems(3) Nil show ?thesis by (simp add: ended_def)
    next
      case (Cons x xs)
      with step Cons.prems(1) have "fold (job_step sk) es (j\<lparr>jb_phase := Ending r xs\<rparr>, end_op sk j r x cl) = (j', cl')"
        by (simp add: job_step_live work_step_def)
      from Cons.IH [OF this _ Cons.prems(3)] Cons show ?thesis by simp
    qed
  qed
qed simp

lemma delivering_alone:
  "fold (job_step sk) es (j, cl) = (j', cl') \<Longrightarrow> jb_phase j = Delivering p ops cs \<Longrightarrow> jb_phase j' = Done r \<Longrightarrow>
     \<exists>cs' tk. run_schedule sk (jb_providers j) (polls es) (cs, tracker_of j (cl_sink cl)) = (cs', tk) \<and>
       all_finished cs' \<and> r = summarize p (tk_outcomes tk) None \<and>
       cl' = finish_task (fold (end_op sk (j\<lparr>jb_refs := tk_refs tk\<rparr>) r) ops (cl\<lparr>cl_sink := tk_sink tk\<rparr>))"
proof (induction es arbitrary: j cl cs)
  case (Cons e es)
  have alive: "\<not> ended j" using Cons.prems(2) by (simp add: ended_def)
  show ?case
  proof (cases e)
    case Abort
    with Cons.prems aborted_stays [of sk es j "finish_task cl"] alive show ?thesis by (simp add: job_step_live)
  next
    case (Poll i)
    obtain cs1 tk1 where p: "poll sk (jb_providers j) i (cs, tracker_of j (cl_sink cl)) = (cs1, tk1)" by fastforce
    let ?j = "j\<lparr>jb_outcomes := tk_outcomes tk1, jb_refs := tk_refs tk1,
      jb_phase := (if all_finished cs1 then Ending (summarize p (tk_outcomes tk1) None) ops else Delivering p ops cs1)\<rparr>"
    let ?cl = "cl\<lparr>cl_sink := tk_sink tk1\<rparr>"
    have run: "fold (job_step sk) es (?j, ?cl) = (j', cl')"
      using Cons.prems(1,2) alive by (simp add: Poll job_step_live work_step_def p)
    have tk: "tracker_of ?j (cl_sink ?cl) = tk1" using poll_const [OF p] by (cases tk1) (simp add: tracker_of_def)
    show ?thesis
    proof (cases "all_finished cs1")
      case True
      have "run_schedule sk (jb_providers j) (polls (e # es)) (cs, tracker_of j (cl_sink cl)) = (cs1, tk1)"
        by (simp add: Poll p finished_stays [OF True])
      moreover from ending_alone [OF run _ Cons.prems(3)] True have
        "r = summarize p (tk_outcomes tk1) None \<and>
         cl' = finish_task (fold (end_op sk (j\<lparr>jb_refs := tk_refs tk1\<rparr>) r) ops ?cl)" by simp
      ultimately show ?thesis using True by blast
    next
      case False
      from Cons.IH [OF run _ Cons.prems(3)] False tk show ?thesis by (simp add: Poll p)
    qed
  qed
qed simp

lemma deliver_task_alone:
  assumes "fold (job_step sk) es (start_job w (Deliver_Task pl pp), cl) = (j', cl')" and "jb_phase j' = Done r"
  shows "run_deliver_task sk w (polls es) pl pp cl = Some (r, cl')"
proof -
  let ?j = "start_job w (Deliver_Task pl pp)"
  obtain cs tk where run: "run_schedule sk (pl_providers pl) (polls es) (start_chains (pp_plan pp), tracker_of ?j (cl_sink cl)) = (cs, tk)"
    and fin: "all_finished cs" and r: "r = summarize (pp_plan pp) (tk_outcomes tk) None"
    and cl': "cl' = finish_task (fold (end_op sk (?j\<lparr>jb_refs := tk_refs tk\<rparr>) r)
      [Settle (pp_admission pp), Note_Alerts, Store (pp_signal pp)] (cl\<lparr>cl_sink := tk_sink tk\<rparr>))"
    using delivering_alone [OF assms(1) _ assms(2)] by auto
  have "tracker_of ?j (cl_sink cl) = new_tracker (pp_signal pp) (cl_sink cl) (pp_prior_refs pp)"
    by (simp add: tracker_of_def new_tracker_def)
  with run fin r have "deliver sk (pl_providers pl) (pp_plan pp) (polls es)
      (new_tracker (pp_signal pp) (cl_sink cl) (pp_prior_refs pp)) = Some (r, tk)"
    by (simp add: deliver_def)
  then show ?thesis by (simp add: run_deliver_task_def cl' after_delivery_def case_prod_beta Let_def)
qed

lemma fold_settles:
  "fold (end_op sk j r) (map (\<lambda>m. Settle (mb_admission m)) ms) cl =
     cl\<lparr>cl_rows := settle_members (jb_world j) r ms (cl_rows cl)\<rparr>"
  by (induction ms arbitrary: cl) (simp_all add: settle_members_def)

lemma fold_stores:
  "fold (end_op sk j r) (map (\<lambda>m. Store (mb_signal m)) ms) cl =
     fold (\<lambda>m cl. snd (complete_signal sk (mb_signal m) r cl)) ms cl"
  by (induction ms arbitrary: cl) simp_all

lemma group_task_alone:
  assumes "fold (job_step sk) es (start_job w (Group_Task c), cl) = (j', cl')" and "jb_phase j' = Done r"
  shows "\<exists>sched. run_group_task sk w sched c cl = Some (r, cl')"
proof -
  have planning: "\<exists>sched. run_group_task sk w sched c cl0 = Some (r, cl')"
    if run: "fold (job_step sk) es (j, cl) = (j', cl')" and j: "jb_phase j = Planning c" "jb_world j = w"
      "jb_signal j = group_signal w c" "jb_prior_refs j = []" "jb_outcomes j = []" "jb_refs j = []"
      and cl: "cl = (if length (cg_members c) = 1 then cl0 else record_signal sk (group_signal w c) cl0)"
    for es j cl cl0
  proof (cases es)
    case Nil
    with run j(1) assms(2) show ?thesis by simp
  next
    case (Cons e es')
    show ?thesis
    proof (cases e)
      case Abort
      with Cons run j(1) assms(2) aborted_stays [of sk es' j "finish_task cl"] show ?thesis
        by (simp add: job_step_live ended_def)
    next
      case (Poll i)
      obtain p adm rows' where plan: "group_plan w c (group_signal w c) (cl_rows cl) = (p, adm, rows')"
        by (metis prod_cases3)
      let ?j = "j\<lparr>jb_providers := pl_providers (cl_pipeline cl),
        jb_phase := Delivering p (group_ops c (group_signal w c) adm) (start_chains p)\<rparr>"
      let ?cl = "cl\<lparr>cl_rows := rows'\<rparr>"
      have run': "fold (job_step sk) es' (?j, ?cl) = (j', cl')"
        using run j Poll Cons by (simp add: job_step_live work_step_def ended_def plan)
      obtain cs tk where sch: "run_schedule sk (pl_providers (cl_pipeline cl)) (polls es') (start_chains p, tracker_of ?j (cl_sink cl)) = (cs, tk)"
        and fin: "all_finished cs" and r: "r = summarize p (tk_outcomes tk) None"
        and cl': "cl' = finish_task (fold (end_op sk (?j\<lparr>jb_refs := tk_refs tk\<rparr>) r)
          (group_ops c (group_signal w c) adm) (?cl\<lparr>cl_sink := tk_sink tk\<rparr>))"
        using delivering_alone [OF run' _ assms(2)] by auto
      have "tracker_of ?j (cl_sink cl) = new_tracker (group_signal w c) (cl_sink cl) []"
        by (simp add: tracker_of_def new_tracker_def j)
      with sch fin r have d: "deliver sk (pl_providers (cl_pipeline cl)) p (polls es')
          (new_tracker (group_signal w c) (cl_sink cl) []) = Some (r, tk)"
        by (simp add: deliver_def)
      then have "run_group_task sk w (polls es') c cl0 = Some (r, cl')"
        unfolding cl' run_group_task_def Let_def cl [symmetric] plan
        by (simp add: group_ops_def fold_settles fold_stores complete_members_def j)
      then show ?thesis by blast
    qed
  qed
  show ?thesis
  proof (cases "length (cg_members c) = 1")
    case True
    with planning [OF assms(1)] show ?thesis by simp
  next
    case False
    show ?thesis
    proof (cases es)
      case Nil
      with assms False show ?thesis by auto
    next
      case (Cons e es')
      let ?j = "start_job w (Group_Task c)"
      have alive: "\<not> ended ?j" using False by (simp add: ended_def)
      show ?thesis
      proof (cases e)
        case Abort
        with Cons assms alive aborted_stays [of sk es' ?j "finish_task cl"] show ?thesis
          by (simp add: job_step_live)
      next
        case (Poll i)
        have "fold (job_step sk) es' (?j\<lparr>jb_phase := Planning c\<rparr>, record_signal sk (group_signal w c) cl) = (j', cl')"
          using Cons Poll assms(1) alive False by (simp add: job_step_live work_step_def)
        from planning [OF this] False show ?thesis by simp
      qed
    qed
  qed
qed

subsection \<open>Deliveries one after another\<close>

type_synonym delivery_run = "world \<times> pipeline \<times> prepared"

text \<open>The background tasks of \<open>notify_async\<close>, each run to its end before the next one starts.\<close>

fun one_by_one :: "'s sink \<Rightarrow> (delivery_run \<times> nat list) list \<Rightarrow> 's client \<Rightarrow> (delivery_result list \<times> 's client) option" where
  "one_by_one sk [] cl = Some ([], cl)"
| "one_by_one sk (((w, pl, pp), sched) # ts) cl =
     (case run_deliver_task sk w sched pl pp cl of
        None \<Rightarrow> None
      | Some (r, cl1) \<Rightarrow>
          (case one_by_one sk ts cl1 of None \<Rightarrow> None | Some (rs, cl2) \<Rightarrow> Some (r # rs, cl2)))"

definition start_delivery :: "delivery_run \<Rightarrow> job" where
  "start_delivery = (\<lambda>(w, pl, pp). start_job w (Deliver_Task pl pp))"

definition run_signal :: "delivery_run \<Rightarrow> signal" where
  "run_signal t = pp_signal (snd (snd t))"

definition events_of :: "nat \<Rightarrow> (nat \<times> event) list \<Rightarrow> event list" where
  "events_of k xs = map snd (filter (\<lambda>x. fst x = k) xs)"

definition in_turn :: "(nat \<times> event) list \<Rightarrow> delivery_run list \<Rightarrow> (delivery_run \<times> nat list) list" where
  "in_turn xs ts = map (\<lambda>k. (ts ! k, polls (events_of k xs))) [0..<length ts]"

lemma step_at_length [simp]: "length (fst (step_at sk x st)) = length (fst st)"
  by (cases st) (simp add: step_at_def case_prod_beta)

lemma fold_step_at_length [simp]: "length (fst (fold (step_at sk) xs st)) = length (fst st)"
  by (induction xs arbitrary: st) simp_all

lemma step_at_other: "fst x \<noteq> k \<Longrightarrow> fst (step_at sk x st) ! k = fst st ! k"
  by (cases st) (simp add: step_at_def case_prod_beta)

lemma fold_step_at_other:
  "\<forall>x \<in> set xs. fst x \<noteq> k \<Longrightarrow> fst (fold (step_at sk) xs st) ! k = fst st ! k"
  by (induction xs arbitrary: st) (simp_all add: step_at_other)

lemma fold_block:
  "k < length js \<Longrightarrow> \<forall>x \<in> set xs. fst x = k \<Longrightarrow> fold (step_at sk) xs (js, cl) =
     (js[k := fst (fold (job_step sk) (map snd xs) (js ! k, cl))], snd (fold (job_step sk) (map snd xs) (js ! k, cl)))"
proof (induction xs arbitrary: js cl)
  case (Cons x xs)
  obtain j cl1 where s: "job_step sk (snd x) (js ! k, cl) = (j, cl1)" by fastforce
  with Cons.prems have "step_at sk x (js, cl) = (js[k := j], cl1)" by (simp add: step_at_def)
  with Cons.IH [of "js[k := j]" cl1] Cons.prems s show ?case by simp
qed simp

lemma blocks_one_by_one:
  assumes "distinct ks" and "\<forall>k \<in> set ks. k < length js \<and> js ! k = start_delivery (ts ! k)"
    and "fold (step_at sk) (concat (map (\<lambda>k. filter (\<lambda>x. fst x = k) xs) ks)) (js, cl) = (js', cl')"
    and "\<forall>k \<in> set ks. jb_phase (js' ! k) = Done (rs k)"
  shows "one_by_one sk (map (\<lambda>k. (ts ! k, polls (events_of k xs))) ks) cl = Some (map rs ks, cl')"
  using assms
proof (induction ks arbitrary: js cl)
  case (Cons k ks)
  let ?mine = "filter (\<lambda>x. fst x = k) xs"
  let ?rest = "concat (map (\<lambda>k. filter (\<lambda>x. fst x = k) xs) ks)"
  obtain w pl pp where t: "ts ! k = (w, pl, pp)" by (metis prod_cases3)
  obtain j1 cl1 where alone: "fold (job_step sk) (events_of k xs) (js ! k, cl) = (j1, cl1)" by fastforce
  have k: "k < length js" and jk: "js ! k = start_job w (Deliver_Task pl pp)"
    using Cons.prems(2) by (simp_all add: start_delivery_def t)
  have first: "fold (step_at sk) ?mine (js, cl) = (js[k := j1], cl1)"
    using fold_block [OF k, of ?mine sk cl] alone by (simp add: events_of_def)
  then have rest: "fold (step_at sk) ?rest (js[k := j1], cl1) = (js', cl')" using Cons.prems(3) by simp
  have "\<forall>x \<in> set ?rest. fst x \<noteq> k" using Cons.prems(1) by auto
  from fold_step_at_other [OF this, of sk "(js[k := j1], cl1)"] have "js' ! k = j1" using rest k by simp
  with Cons.prems(4) have "jb_phase j1 = Done (rs k)" by simp
  with deliver_task_alone [OF alone [unfolded jk]] have "run_deliver_task sk w (polls (events_of k xs)) pl pp cl = Some (rs k, cl1)"
    by simp
  moreover have "one_by_one sk (map (\<lambda>k. (ts ! k, polls (events_of k xs))) ks) cl1 = Some (map rs ks, cl')"
    using Cons.prems by (intro Cons.IH [OF _ _ rest]) (auto simp: nth_list_update)
  ultimately show ?case by (simp add: t)
qed simp

lemma start_independent:
  assumes "distinct (map (\<lambda>t. sg_id (run_signal t)) ts)" and "distinct (map (\<lambda>t. sg_dedup_key (run_signal t)) ts)"
  shows "independent (map start_delivery ts)"
proof -
  have job: "job_ids (start_delivery t) = {sg_id (run_signal t)}"
    "job_keys (start_delivery t) = set_option (sg_dedup_key (run_signal t))" "planned (start_delivery t)" for t
    by (cases t; auto simp: start_delivery_def run_signal_def job_ids_def job_keys_def job_ops_def planned_def)+
  have "sg_id (run_signal (ts ! k)) \<noteq> sg_id (run_signal (ts ! l)) \<and>
      set_option (sg_dedup_key (run_signal (ts ! k))) \<inter> set_option (sg_dedup_key (run_signal (ts ! l))) = {}"
    if "k < length ts" "l < length ts" "k \<noteq> l" for k l
  proof -
    have "sg_id (run_signal (ts ! k)) \<noteq> sg_id (run_signal (ts ! l))"
      "sg_dedup_key (run_signal (ts ! k)) \<noteq> sg_dedup_key (run_signal (ts ! l))"
      using assms that by (simp_all add: distinct_conv_nth)
    then show ?thesis by (cases "sg_dedup_key (run_signal (ts ! k))") auto
  qed
  then show ?thesis by (auto simp: independent_def job)
qed

lemma interleaved_in_turn:
  assumes "independent (map start_delivery ts)" and "fst ` set xs \<subseteq> {..<length ts}"
    and run: "run_jobs (sqlite_sink env) xs (map start_delivery ts, cl) = (js, cl')"
    and fin: "map jb_phase js = map Done rs"
  shows "\<exists>cl2. one_by_one (sqlite_sink env) (in_turn xs ts) cl = Some (rs, cl2) \<and> same_client signal_rows cl' cl2"
proof -
  let ?sk = "sqlite_sink env" and ?ks = "[0..<length ts]"
  obtain js2 cl2 where blocks: "fold (step_at ?sk) (concat (map (\<lambda>k. filter (\<lambda>x. fst x = k) xs) ?ks))
      (map start_delivery ts, cl) = (js2, cl2)" by fastforce
  have "same_state signal_rows (js, cl') (js2, cl2)"
    using background.in_blocks [of "(map start_delivery ts, cl)" ?ks xs env] assms(1,2) run blocks
    by (simp add: run_jobs_def lessThan_atLeast0)
  then have js: "js2 = js" and same: "same_client signal_rows cl' cl2" by (simp_all add: same_state_def)
  have len: "length js = length ts"
    using fold_step_at_length [of ?sk xs "(map start_delivery ts, cl)"] unfolding run [unfolded run_jobs_def] by simp
  with fin have "length rs = length ts" by (metis length_map)
  moreover have "jb_phase (js2 ! k) = Done (rs ! k)" if "k < length ts" for k
    using fin that len \<open>length rs = length ts\<close> unfolding js by (metis nth_map)
  ultimately have "one_by_one ?sk (in_turn xs ts) cl = Some (map ((!) rs) ?ks, cl2)"
    unfolding in_turn_def
    by (intro blocks_one_by_one [OF _ _ blocks]) auto
  moreover have "map ((!) rs) ?ks = rs" using \<open>length rs = length ts\<close> map_nth [of rs] by simp
  ultimately show ?thesis using same by simp
qed

subsection \<open>The in-flight count\<close>

definition running :: "job list \<Rightarrow> nat" where
  "running js = length (filter (\<lambda>j. \<not> ended j) js)"

definition in_flight :: "'s client \<Rightarrow> nat" where
  "in_flight cl = gs_in_flight (cl_groups cl)"

lemma end_op_groups [simp]: "cl_groups (end_op sk j r x cl) = cl_groups cl"
  by (cases x) simp_all

text \<open>A task leaves the count alone until its last step, which takes one off.\<close>

lemma job_step_in_flight:
  assumes "job_step sk e (j, cl) = (j', cl')"
  shows "in_flight cl' = (if ended j' \<and> \<not> ended j then in_flight_finish (in_flight cl) else in_flight cl)"
    and "ended j \<Longrightarrow> ended j'"
proof -
  have work: "in_flight cl' = (if ended j' \<and> \<not> ended j then in_flight_finish (in_flight cl) else in_flight cl)"
    if "work_step sk i (j, cl) = (j', cl')" "\<not> ended j" for i
    using that
    by (auto simp: work_step_def ended_def in_flight_def finish_task_def Let_def
        split: phase.splits list.splits prod.splits if_splits)
  show "in_flight cl' = (if ended j' \<and> \<not> ended j then in_flight_finish (in_flight cl) else in_flight cl)"
  proof (cases "ended j \<or> e = Abort")
    case True
    with assms show ?thesis
      by (auto simp: job_step_def in_flight_def finish_task_def ended_def split: if_splits)
  next
    case False
    with assms work show ?thesis by (cases e) (auto simp: job_step_def)
  qed
  show "ended j \<Longrightarrow> ended j'" using assms by (simp add: job_step_def)
qed

lemma running_update:
  "k < length js \<Longrightarrow> running (js[k := j]) + (if ended (js ! k) then 0 else 1) = running js + (if ended j then 0 else 1)"
proof (induction js arbitrary: k)
  case (Cons x js)
  have run: "running (y # ys) = (if ended y then 0 else 1) + running ys" for y ys by (simp add: running_def)
  show ?case
  proof (cases k)
    case (Suc n)
    with Cons.IH [of n] Cons.prems show ?thesis by (simp add: run)
  qed (simp add: run)
qed simp

lemma step_at_in_flight:
  assumes "running js \<le> in_flight cl" and "step_at sk x (js, cl) = (js', cl')"
  shows "in_flight cl' + running js = in_flight cl + running js'"
proof (cases "fst x < length js")
  case True
  obtain j cl1 where s: "job_step sk (snd x) (js ! fst x, cl) = (j, cl1)" by fastforce
  with True assms(2) have js': "js' = js[fst x := j]" and cl': "cl' = cl1" by (simp_all add: step_at_def)
  have "\<not> ended (js ! fst x) \<Longrightarrow> 0 < running js" using True by (auto simp: running_def filter_empty_conv)
  with assms(1) running_update [OF True, of j] job_step_in_flight [OF s] show ?thesis
    by (auto simp: js' cl' in_flight_finish_def split: if_splits)
qed (use assms in \<open>auto simp: step_at_def\<close>)

lemma run_jobs_in_flight:
  "running js \<le> in_flight cl \<Longrightarrow> run_jobs sk xs (js, cl) = (js', cl') \<Longrightarrow>
     in_flight cl' + running js = in_flight cl + running js'"
proof (induction xs arbitrary: js cl)
  case (Cons x xs)
  obtain js1 cl1 where s: "step_at sk x (js, cl) = (js1, cl1)" by fastforce
  with Cons.prems(2) have r: "run_jobs sk xs (js1, cl1) = (js', cl')" by (simp add: run_jobs_def)
  from step_at_in_flight [OF Cons.prems(1) s] Cons.prems(1) Cons.IH [OF _ r] show ?case by linarith
qed (simp add: run_jobs_def)

lemma running_0: "running js = 0 \<longleftrightarrow> (\<forall>j \<in> set js. ended j)"
  by (simp add: running_def filter_empty_conv)

subsection \<open>What is still to be stored\<close>

definition store_ids :: "op list \<Rightarrow> string set" where
  "store_ids ops = {sg_id sg | sg. Store sg \<in> set ops}"

text \<open>
  The ids of the signals in whose rows a task has its result yet to store, and of those whose rows it
  may still write at all: a digest is also recorded first.
\<close>

definition owed_ids :: "job \<Rightarrow> string set" where
  "owed_ids j = (case jb_phase j of
      Recording c \<Rightarrow> store_ids (group_ops c (jb_signal j) [])
    | Planning c \<Rightarrow> store_ids (group_ops c (jb_signal j) [])
    | Delivering p ops cs \<Rightarrow> store_ids ops
    | Ending r ops \<Rightarrow> store_ids ops
    | _ \<Rightarrow> {})"

definition pending_ids :: "job \<Rightarrow> string set" where
  "pending_ids j = owed_ids j \<union> (case jb_phase j of Recording c \<Rightarrow> {sg_id (jb_signal j)} | _ \<Rightarrow> {})"

lemma store_ids_simps [simp]:
  "store_ids [] = {}" "store_ids (Settle adm # ops) = store_ids ops" "store_ids (Note_Alerts # ops) = store_ids ops"
  "store_ids (Store sg # ops) = insert (sg_id sg) (store_ids ops)"
  by (auto simp: store_ids_def)

lemma store_ids_group: "store_ids (group_ops c sg adm) = store_ids (group_ops c sg [])"
  by (simp add: group_ops_def)

lemma pending_ids_shrink:
  assumes "job_step sk e (j, cl) = (j', cl')"
  shows "pending_ids j' \<subseteq> pending_ids j"
proof -
  have work: "pending_ids j' \<subseteq> pending_ids j" if w: "work_step sk i (j, cl) = (j', cl')" for i
  proof (cases "jb_phase j")
    case (Recording c)
    with w show ?thesis by (auto simp: work_step_def pending_ids_def owed_ids_def)
  next
    case (Planning c)
    obtain p adm rows' where plan: "group_plan (jb_world j) c (jb_signal j) (cl_rows cl) = (p, adm, rows')"
      by (metis prod_cases3)
    from w have "jb_phase j' = Delivering p (group_ops c (jb_signal j) adm) (start_chains p)"
      by (auto simp: work_step_def Planning plan)
    then have "pending_ids j' = store_ids (group_ops c (jb_signal j) adm)" by (simp add: pending_ids_def owed_ids_def)
    then show ?thesis by (simp add: store_ids_group [of c _ adm] pending_ids_def owed_ids_def Planning)
  next
    case (Delivering p ops cs)
    with w have "(\<exists>r. jb_phase j' = Ending r ops) \<or> (\<exists>cs'. jb_phase j' = Delivering p ops cs')"
      by (auto simp: work_step_def split: prod.splits if_splits)
    then show ?thesis by (auto simp: pending_ids_def owed_ids_def Delivering)
  next
    case (Ending r ops)
    with w show ?thesis by (cases ops) (auto simp: work_step_def pending_ids_def owed_ids_def store_ids_def)
  qed (use w in \<open>auto simp: work_step_def pending_ids_def owed_ids_def\<close>)
  show ?thesis
  proof (cases "ended j")
    case False
    with assms work show ?thesis by (cases e) (auto simp: job_step_live pending_ids_def owed_ids_def)
  qed (use assms in \<open>simp add: job_step_def\<close>)
qed

lemma poll_sink:
  "poll sk (jb_providers j) i (cs, tracker_of j s) = (cs', tk) \<Longrightarrow>
     tk_sink tk = s \<or> (\<exists>x. tk_sink tk = snd (sk_outcome sk (jb_signal j) x s))"
  using poll_split [of sk j i cs s cs' tk "fst (poll quiet_sink (jb_providers j) i (cs, tracker_of j ()))"]
  by (cases "poll quiet_sink (jb_providers j) i (cs, tracker_of j ())") (auto split: option.splits)

text \<open>What a task owes to the row of signal \<open>n\<close>: it is yet to be written, or it holds the result.\<close>

definition row_due :: "('s \<Rightarrow> (delivery_status \<times> string option \<times> string option) option) \<Rightarrow> string \<Rightarrow> job \<Rightarrow> 's \<Rightarrow> bool" where
  "row_due row n j s = (case jb_phase j of
      Aborted \<Rightarrow> True
    | Done r \<Rightarrow> row s = Some (dr_status r, dr_provider r, dr_error r)
    | Ending r ops \<Rightarrow> n \<in> store_ids ops \<or> row s = Some (dr_status r, dr_provider r, dr_error r)
    | _ \<Rightarrow> n \<in> owed_ids j)"

context client_sink
begin

lemma step_keeps_other_rows:
  assumes "job_step sk e (j, cl) = (j', cl')" and "n \<notin> pending_ids j"
  shows "stored (cl_sink cl') n = stored (cl_sink cl) n"
proof -
  have work: "stored (cl_sink cl') n = stored (cl_sink cl) n" if w: "work_step sk i (j, cl) = (j', cl')" for i
  proof (cases "jb_phase j")
    case (Recording c)
    with assms(2) have "n \<noteq> sg_id (jb_signal j)" by (auto simp: pending_ids_def owed_ids_def)
    with w Recording record_frame show ?thesis by (auto simp: work_step_def sk_record)
  next
    case (Planning c)
    with w show ?thesis by (auto simp: work_step_def split: prod.splits)
  next
    case (Delivering p ops cs)
    obtain cs' tk where p: "poll sk (jb_providers j) i (cs, tracker_of j (cl_sink cl)) = (cs', tk)" by fastforce
    with w Delivering have "cl_sink cl' = tk_sink tk" by (auto simp: work_step_def)
    with poll_sink [OF p] outcome_frame show ?thesis by (auto simp: sk_outcome)
  next
    case (Ending r ops)
    show ?thesis
    proof (cases ops)
      case Nil
      with w Ending show ?thesis by (auto simp: work_step_def)
    next
      case (Cons x xs)
      with w Ending have cl': "cl' = end_op sk j r x cl" by (auto simp: work_step_def)
      show ?thesis
      proof (cases x)
        case (Store sg)
        with assms(2) Cons Ending have "n \<noteq> sg_id sg" by (auto simp: pending_ids_def owed_ids_def)
        with complete_frame show ?thesis by (simp add: cl' Store sk_complete)
      qed (simp_all add: cl')
    qed
  qed (use w in \<open>auto simp: work_step_def\<close>)
  show ?thesis
  proof (cases "ended j")
    case False
    with assms(1) work show ?thesis by (cases e) (auto simp: job_step_live)
  qed (use assms in \<open>simp add: job_step_def\<close>)
qed

lemma step_pays_row:
  assumes works: "\<And>sg r s. fst (compl sg r s) = Inr ()"
    and step: "job_step sk e (j, cl) = (j', cl')" and due: "row_due (\<lambda>s. stored s n) n j (cl_sink cl)"
  shows "row_due (\<lambda>s. stored s n) n j' (cl_sink cl')"
proof -
  have work: "row_due (\<lambda>s. stored s n) n j' (cl_sink cl')"
    if w: "work_step sk i (j, cl) = (j', cl')" and alive: "\<not> ended j" for i
  proof (cases "jb_phase j")
    case (Recording c)
    with w due show ?thesis by (auto simp: work_step_def row_due_def pending_ids_def owed_ids_def)
  next
    case (Planning c)
    obtain p adm rows' where plan: "group_plan (jb_world j) c (jb_signal j) (cl_rows cl) = (p, adm, rows')"
      by (metis prod_cases3)
    from w have "jb_phase j' = Delivering p (group_ops c (jb_signal j) adm) (start_chains p)"
      by (auto simp: work_step_def Planning plan)
    with due show ?thesis by (simp add: row_due_def pending_ids_def owed_ids_def Planning store_ids_group [of c _ adm])
  next
    case (Delivering p ops cs)
    with w have "(\<exists>r. jb_phase j' = Ending r ops) \<or> (\<exists>cs'. jb_phase j' = Delivering p ops cs')"
      by (auto simp: work_step_def split: prod.splits if_splits)
    with due show ?thesis by (auto simp: row_due_def pending_ids_def owed_ids_def Delivering)
  next
    case (Ending r ops)
    show ?thesis
    proof (cases ops)
      case Nil
      with w due Ending show ?thesis by (auto simp: work_step_def row_due_def)
    next
      case (Cons x xs)
      with w Ending have j': "jb_phase j' = Ending r xs" and cl': "cl' = end_op sk j r x cl" by (auto simp: work_step_def)
      from due have d: "n \<in> store_ids (x # xs) \<or> stored (cl_sink cl) n = Some (dr_status r, dr_provider r, dr_error r)"
        by (simp add: row_due_def Ending Cons)
      show ?thesis
      proof (cases x)
        case (Store sg)
        show ?thesis
        proof (cases "n = sg_id sg")
          case True
          with complete_ok [OF works] show ?thesis by (simp add: row_due_def j' cl' Store sk_complete)
        next
          case False
          with d complete_frame [OF False] show ?thesis by (simp add: row_due_def j' cl' Store sk_complete)
        qed
      qed (use d in \<open>simp_all add: row_due_def j' cl'\<close>)
    qed
  qed (use alive in \<open>simp_all add: ended_def\<close>)
  show ?thesis
  proof (cases "ended j")
    case False
    with step work show ?thesis by (cases e) (auto simp: job_step_live row_due_def)
  qed (use step due in \<open>simp add: job_step_def\<close>)
qed

lemma run_pays_row:
  assumes works: "\<And>sg r s. fst (compl sg r s) = Inr ()"
    and run: "run_jobs sk xs (js, cl) = (js', cl')" and k: "k < length js"
    and due: "row_due (\<lambda>s. stored s n) n (js ! k) (cl_sink cl)"
    and mine: "\<forall>l < length js. l \<noteq> k \<longrightarrow> n \<notin> pending_ids (js ! l)"
  shows "row_due (\<lambda>s. stored s n) n (js' ! k) (cl_sink cl')"
  using run k due mine
proof (induction xs arbitrary: js cl)
  case (Cons x xs)
  obtain js1 cl1 where s: "step_at sk x (js, cl) = (js1, cl1)" by fastforce
  with Cons.prems(1) have r: "run_jobs sk xs (js1, cl1) = (js', cl')" by (simp add: run_jobs_def)
  show ?case
  proof (cases "fst x < length js")
    case True
    obtain j cl2 where step: "job_step sk (snd x) (js ! fst x, cl) = (j, cl2)" by fastforce
    with s True have js1: "js1 = js[fst x := j]" and cl1: "cl1 = cl2" by (simp_all add: step_at_def)
    have others: "\<forall>l < length js1. l \<noteq> k \<longrightarrow> n \<notin> pending_ids (js1 ! l)"
      using Cons.prems(4) pending_ids_shrink [OF step] True by (auto simp: js1 nth_list_update)
    have "row_due (\<lambda>s. stored s n) n (js1 ! k) (cl_sink cl1)"
    proof (cases "fst x = k")
      case True
      with step_pays_row [OF works step, of n] Cons.prems(2,3) show ?thesis by (simp add: js1 cl1)
    next
      case False
      with Cons.prems(4) True have "n \<notin> pending_ids (js ! fst x)" by blast
      from step_keeps_other_rows [OF step this] Cons.prems(3) False show ?thesis
        by (simp add: js1 cl1 row_due_def split: phase.splits)
    qed
    with Cons.IH [OF r] others Cons.prems(2) show ?thesis by (simp add: js1)
  next
    case False
    with s r Cons show ?thesis by (simp add: step_at_def)
  qed
qed (simp add: run_jobs_def)

end

subsection \<open>Every task ends\<close>

definition task_targets :: "task \<Rightarrow> string list list" where
  "task_targets t = (case t of Deliver_Task pl pp \<Rightarrow> targets (pp_plan pp) | Group_Task c \<Rightarrow> route_targets (cg_route c))"

definition chain_polls :: "string list list \<Rightarrow> nat" where
  "chain_polls ts = sum_list (map (\<lambda>c. 6 * length c + 1) ts)"

text \<open>Polls of each chain that see a task through: the providers, the two steps before and those after.\<close>

definition task_polls :: "world \<Rightarrow> task \<Rightarrow> nat" where
  "task_polls w t = chain_polls (task_targets t) +
     (case t of Deliver_Task pl pp \<Rightarrow> 6 | Group_Task c \<Rightarrow> length (group_ops c (group_signal w c) []) + 4)"

text \<open>
  With \<open>c i\<close> more polls of each chain \<open>i\<close> below \<open>width\<close> a task will end: while providers are tried every
  chain that is not finished has what it needs and what is left to do afterwards.
\<close>

definition enough :: "nat \<Rightarrow> (nat \<Rightarrow> nat) \<Rightarrow> job \<Rightarrow> bool" where
  "enough width c j = (case jb_phase j of
      Recording g \<Rightarrow> length (route_targets (cg_route g)) \<le> width \<and> (\<forall>i < width.
        chain_polls (route_targets (cg_route g)) + length (group_ops g (jb_signal j) []) + 3 < c i)
    | Planning g \<Rightarrow> length (route_targets (cg_route g)) \<le> width \<and> (\<forall>i < width.
        chain_polls (route_targets (cg_route g)) + length (group_ops g (jb_signal j) []) + 2 < c i)
    | Delivering p ops cs \<Rightarrow> length cs \<le> width \<and>
        (\<forall>i < length cs. cs ! i \<noteq> Finished \<longrightarrow> polls_left (cs ! i) + length ops < c i) \<and>
        (all_finished cs \<longrightarrow> (\<exists>i < width. length ops + 1 < c i))
    | Ending r ops \<Rightarrow> \<exists>i < width. length ops < c i
    | _ \<Rightarrow> True)"

lemma length_group_ops: "length (group_ops c sg adm) = length (group_ops c sg [])"
  by (simp add: group_ops_def)

lemma chain_polls_nth: "i < length ts \<Longrightarrow> 6 * length (ts ! i) + 1 \<le> chain_polls ts"
  unfolding chain_polls_def by (rule order_trans [OF _ elem_le_sum_list]) auto

lemma all_finished_nth: "all_finished cs \<longleftrightarrow> (\<forall>i < length cs. cs ! i = Finished)"
  by (simp add: all_finished_def all_set_conv_all_nth)

lemma group_plan_targets:
  "group_plan w c sg rows = (p, adm, rows') \<Longrightarrow> targets p = route_targets (cg_route c) \<or> targets p = []"
  by (auto simp: group_plan_def Let_def split: option.splits prod.splits sum.splits)

lemma enough_delivering:
  assumes e: "enough width c j" and j: "jb_phase j = Delivering p ops cs"
    and poll: "poll sk ps i (cs, tk) = (cs', tk')"
  shows "if all_finished cs' then \<exists>i' < width. length ops < (c(i := c i - 1)) i'
    else length cs' \<le> width \<and> (\<forall>l < length cs'. cs' ! l \<noteq> Finished \<longrightarrow> polls_left (cs' ! l) + length ops < (c(i := c i - 1)) l)"
proof -
  from e j have w: "length cs \<le> width" and un: "\<And>l. l < length cs \<Longrightarrow> cs ! l \<noteq> Finished \<Longrightarrow> polls_left (cs ! l) + length ops < c l"
    and fin: "all_finished cs \<Longrightarrow> \<exists>l < width. length ops + 1 < c l" by (auto simp: enough_def)
  have len: "length cs' = length cs" using poll_polls_left [OF poll] by blast
  have left: "polls_left (cs' ! l) \<le> polls_left (cs ! l) - (if l = i then 1 else 0)" if "l < length cs" for l
    using poll_polls_left [OF poll] that by blast
  show ?thesis
  proof (cases "all_finished cs'")
    case False
    have "polls_left (cs' ! l) + length ops < (c(i := c i - 1)) l" if l: "l < length cs'" "cs' ! l \<noteq> Finished" for l
    proof -
      have "0 < polls_left (cs' ! l)" using l(2) by (simp add: neq0_conv [symmetric] del: neq0_conv)
      with left [of l] l len have pos: "0 < polls_left (cs ! l)" by simp
      then have "cs ! l \<noteq> Finished" by auto
      from un [OF _ this] left [of l] l len pos show ?thesis by (auto split: if_splits)
    qed
    with False w len show ?thesis by simp
  next
    case True
    show ?thesis
    proof (cases "i < length cs \<and> cs ! i \<noteq> Finished")
      case T: True
      then have "0 < polls_left (cs ! i)" by (simp add: neq0_conv [symmetric] del: neq0_conv)
      with un [of i] T have "length ops < c i - 1" by linarith
      with True T w show ?thesis by (auto intro!: exI [of _ i])
    next
      case False
      have "cs ! l = Finished" if "l < length cs" for l
      proof (cases "l = i")
        case True
        with False that show ?thesis by blast
      next
        case ne: False
        from poll ne that have "cs' ! l = cs ! l" by (auto simp: poll_def split: if_splits prod.splits)
        with True that len show ?thesis by (simp add: all_finished_nth)
      qed
      with fin obtain l where "l < width" "length ops + 1 < c l" by (auto simp: all_finished_nth)
      then show ?thesis using True by (auto intro!: exI [of _ l])
    qed
  qed
qed

lemma enough_step:
  assumes e: "enough width c j" and width: "0 < width" and step: "job_step sk (Poll i) (j, cl) = (j', cl')"
  shows "enough width (c(i := c i - 1)) j'"
proof (cases "ended j")
  case True
  with step show ?thesis by (auto simp: job_step_def enough_def ended_def split: phase.splits)
next
  case False
  with step have w: "work_step sk i (j, cl) = (j', cl')" by (simp add: job_step_live)
  show ?thesis
  proof (cases "jb_phase j")
    case (Recording g)
    with w have j': "jb_phase j' = Planning g" "jb_signal j' = jb_signal j" by (auto simp: work_step_def)
    let ?m = "chain_polls (route_targets (cg_route g)) + length (group_ops g (jb_signal j) [])"
    have "?m + 2 < (c(i := c i - 1)) l" if "l < width" for l
    proof -
      from e Recording that have "?m + 3 < c l" by (auto simp: enough_def)
      then show ?thesis by (cases "l = i") simp_all
    qed
    with e Recording show ?thesis by (simp add: enough_def j')
  next
    case (Planning g)
    obtain p adm rows' where plan: "group_plan (jb_world j) g (jb_signal j) (cl_rows cl) = (p, adm, rows')"
      by (metis prod_cases3)
    from w have j': "jb_phase j' = Delivering p (group_ops g (jb_signal j) adm) (start_chains p)"
      by (auto simp: work_step_def Planning plan)
    from e Planning have tw: "length (route_targets (cg_route g)) \<le> width"
      and c: "\<And>l. l < width \<Longrightarrow> chain_polls (route_targets (cg_route g)) + length (group_ops g (jb_signal j) adm) + 1 < (c(i := c i - 1)) l"
      by (auto simp: enough_def length_group_ops [of g _ adm] less_diff_conv)
    have "polls_left (start_chains p ! l) \<le> chain_polls (route_targets (cg_route g))" "l < width"
      if "l < length (start_chains p)" for l
      using group_plan_targets [OF plan] that tw chain_polls_nth [of l "targets p"] by (auto simp: start_chains_def)
    moreover have "length (start_chains p) \<le> width"
      using group_plan_targets [OF plan] tw by (auto simp: start_chains_def)
    moreover have "\<exists>l < width. length (group_ops g (jb_signal j) adm) + 1 < (c(i := c i - 1)) l"
      using c [OF width] width by (intro exI [of _ 0]) simp
    moreover have "polls_left (start_chains p ! l) + length (group_ops g (jb_signal j) adm) < (c(i := c i - 1)) l"
      if "l < length (start_chains p)" for l
      using calculation(1,2) [OF that] c by fastforce
    ultimately show ?thesis unfolding enough_def j' by simp
  next
    case (Delivering p ops cs)
    obtain cs' tk' where poll: "poll sk (jb_providers j) i (cs, tracker_of j (cl_sink cl)) = (cs', tk')" by fastforce
    from w Delivering poll have j': "jb_phase j' = (if all_finished cs' then Ending (summarize p (tk_outcomes tk') None) ops
        else Delivering p ops cs')" by (auto simp: work_step_def)
    from enough_delivering [OF e Delivering poll] show ?thesis
      by (cases "all_finished cs'") (simp_all add: enough_def j' del: fun_upd_apply)
  next
    case (Ending r ops)
    with e obtain l where l: "l < width" "length ops < c l" by (auto simp: enough_def)
    show ?thesis
    proof (cases ops)
      case Nil
      with w Ending show ?thesis by (auto simp: work_step_def enough_def)
    next
      case (Cons x xs)
      with w Ending have "jb_phase j' = Ending r xs" by (auto simp: work_step_def)
      with l Cons show ?thesis by (auto simp: enough_def intro!: exI [of _ l])
    qed
  qed (use False in \<open>simp_all add: ended_def\<close>)
qed

lemma enough_ends:
  "run_jobs sk xs (js, cl) = (js', cl') \<Longrightarrow> k < length js \<Longrightarrow> 0 < width \<Longrightarrow>
     enough width (\<lambda>i. count_list xs (k, Poll i)) (js ! k) \<Longrightarrow> ended (js' ! k)"
proof (induction xs arbitrary: js cl)
  case Nil
  then have "enough width (\<lambda>i. 0) (js' ! k)" by (simp add: run_jobs_def)
  with Nil(3) show ?case by (auto simp: enough_def ended_def all_finished_nth split: phase.splits)
next
  case (Cons x xs)
  let ?c = "\<lambda>i. count_list xs (k, Poll i)"
  obtain js1 cl1 where s: "step_at sk x (js, cl) = (js1, cl1)" by fastforce
  with Cons.prems(1) have r: "run_jobs sk xs (js1, cl1) = (js', cl')" by (simp add: run_jobs_def)
  have len: "length js1 = length js" using step_at_length [of sk x "(js, cl)"] by (simp add: s)
  have "enough width ?c (js1 ! k)"
  proof (cases "fst x = k")
    case False
    then have "(\<lambda>i. count_list (x # xs) (k, Poll i)) = ?c" by (auto simp: fun_eq_iff)
    with Cons.prems(4) step_at_other [OF False, of sk "(js, cl)"] show ?thesis by (simp add: s)
  next
    case True
    obtain j cl2 where step: "job_step sk (snd x) (js ! k, cl) = (j, cl2)" by fastforce
    with s True Cons.prems(2) have js1: "js1 ! k = j" by (auto simp: step_at_def)
    show ?thesis
    proof (cases "snd x")
      case Abort
      with step Cons.prems(4) show ?thesis
        by (auto simp: js1 job_step_def enough_def ended_def split: if_splits phase.splits)
    next
      case (Poll i)
      with True have x: "x = (k, Poll i)" by (cases x) simp
      have "(\<lambda>l. count_list (x # xs) (k, Poll l))(i := count_list (x # xs) (k, Poll i) - 1) = ?c"
        by (auto simp: fun_eq_iff x)
      with enough_step [OF Cons.prems(4,3) step [unfolded Poll]] show ?thesis by (simp add: js1)
    qed
  qed
  with Cons.IH [OF r] len Cons.prems(2,3) show ?case by simp
qed

lemma start_enough:
  assumes "\<forall>i < max 1 (length (task_targets t)). task_polls w t \<le> c i"
  shows "enough (max 1 (length (task_targets t))) c (start_job w t)"
proof (cases t)
  case (Deliver_Task pl pp)
  let ?ts = "targets (pp_plan pp)" and ?ops = "[Settle (pp_admission pp), Note_Alerts, Store (pp_signal pp)]"
  have "polls_left (start_chains (pp_plan pp) ! l) + length ?ops < c l" if l: "l < length (start_chains (pp_plan pp))" for l
  proof -
    from l have l': "l < length ?ts" by (simp add: start_chains_def)
    with assms have "chain_polls ?ts + 6 \<le> c l" by (simp add: Deliver_Task task_polls_def task_targets_def)
    with chain_polls_nth [OF l'] l' show ?thesis by (simp add: start_chains_def)
  qed
  moreover have "\<exists>i < max 1 (length ?ts). length ?ops + 1 < c i"
  proof (intro exI conjI)
    from assms have "task_polls w t \<le> c 0" by simp
    then show "length ?ops + 1 < c 0" by (simp add: Deliver_Task task_polls_def)
  qed simp
  ultimately show ?thesis
    by (simp add: enough_def Deliver_Task task_targets_def start_chains_def)
next
  case (Group_Task g)
  have "chain_polls (route_targets (cg_route g)) + length (group_ops g (group_signal w g) []) + 3 < c l"
    if "l < max 1 (length (task_targets t))" for l
    using assms that by (fastforce simp: Group_Task task_polls_def task_targets_def)
  then show ?thesis by (fastforce simp: enough_def Group_Task task_targets_def)
qed

subsection \<open>The client and its tasks\<close>

text \<open>
  What a process can come to: calls of the client, timers that fire, reloads, tasks that start in any
  order and steps of the started ones, in any sequence.
\<close>

inductive reachable :: "'s sink \<Rightarrow> job list \<times> 's client \<Rightarrow> bool" for sk where
  fresh_client: "cl_groups cl = new_groups \<Longrightarrow> cl_tasks cl = [] \<Longrightarrow> reachable sk ([], cl)"
| call_notify: "reachable sk (js, cl) \<Longrightarrow> reachable sk (js, notify_async sk w i cl)"
| call_send: "reachable sk (js, cl) \<Longrightarrow> reachable sk (js, snd (send sk w ms sched i cl))"
| timer: "reachable sk (js, cl) \<Longrightarrow> reachable sk (js, timer_fires key seq cl)"
| call_flush: "reachable sk (js, cl) \<Longrightarrow> reachable sk (js, flush_start cl)"
| reload: "reachable sk (js, cl) \<Longrightarrow> reachable sk (js, cl\<lparr>cl_pipeline := pl\<rparr>)"
| task_starts: "reachable sk (js, cl) \<Longrightarrow> cl_tasks cl = ts @ t # ts' \<Longrightarrow>
    reachable sk (js @ [start_job w t], cl\<lparr>cl_tasks := ts @ ts'\<rparr>)"
| task_steps: "reachable sk st \<Longrightarrow> reachable sk (step_at sk x st)"

text \<open>The count and the tasks not yet started move together in every call.\<close>

definition spare :: "'s client \<Rightarrow> int" where
  "spare cl = int (in_flight cl) - int (length (cl_tasks cl))"

lemma spare_fields: "cl_groups cl = cl_groups cl' \<Longrightarrow> cl_tasks cl = cl_tasks cl' \<Longrightarrow> spare cl = spare cl'"
  by (simp add: spare_def in_flight_def)

lemma record_signal_tasks [simp]: "cl_tasks (record_signal sk sg cl) = cl_tasks cl"
  by (simp add: record_signal_def)

lemma spawn_group_tasks [simp]: "cl_tasks (spawn_group c cl) = cl_tasks cl @ [Group_Task c]"
  by (simp add: spawn_group_def)

lemma hold_one_spare: "spare (snd (hold_one w rs sg own x (adm, cl))) = spare cl"
  by (auto simp: hold_one_def add_member_def close_group_def spare_def in_flight_def in_flight_start_def Let_def
      split: prod.splits option.splits if_splits)

lemma hold_spare:
  fixes cl :: "'s client"
  shows "spare (snd (hold w rs p sg own adm cl)) = spare cl"
proof -
  have "spare (snd (fold (hold_one w rs sg own) xs ac)) = spare (snd ac)" for xs and ac :: "admission \<times> 's client"
  proof (induction xs arbitrary: ac)
    case (Cons x xs)
    with hold_one_spare [of w rs sg own x "fst ac" "snd ac"] show ?case by simp
  qed simp
  then show ?thesis by (simp add: hold_def)
qed

lemma settle_unsent_spare: "spare (snd (settle_unsent sk w pl pp cl)) = spare cl"
proof -
  let ?c = "snd (complete_signal sk (pp_signal pp) (summarize (pp_plan pp) [] None) cl)"
  have "spare ?c = spare cl" by (rule spare_fields) simp_all
  with hold_spare [of w "pl_routes pl" "pp_plan pp" "pp_signal pp" True "pp_admission pp" ?c] show ?thesis
    by (simp add: settle_unsent_def Let_def case_prod_beta)
qed

lemma prepared_spare: "spare (record_signal sk sg (cl\<lparr>cl_rows := rows\<rparr>)) = spare cl"
  by (rule spare_fields) simp_all

lemma notify_spare: "spare (notify_async sk w i cl) = spare cl"
proof (cases "validate i")
  case (Inr u)
  obtain pp rows where p: "prepare w (cl_pipeline cl) i (cl_rows cl) (cl_alerts cl) = (pp, rows)" by fastforce
  let ?cl1 = "record_signal sk (pp_signal pp) (cl\<lparr>cl_rows := rows\<rparr>)"
  obtain adm cl2 where h: "hold w (pl_routes (cl_pipeline cl)) (pp_plan pp) (pp_signal pp) False (pp_admission pp) ?cl1 = (adm, cl2)"
    by fastforce
  have "spare cl2 = spare cl"
    using hold_spare [of w "pl_routes (cl_pipeline cl)" "pp_plan pp" "pp_signal pp" False "pp_admission pp" ?cl1]
    by (simp add: h prepared_spare)
  note hs = this
  show ?thesis
  proof (cases "targets (pp_plan pp) = []")
    case True
    with Inr p show ?thesis by (simp add: notify_async_def Let_def settle_unsent_spare prepared_spare)
  next
    case False
    with Inr p h have "notify_async sk w i cl = cl2\<lparr>cl_groups := (cl_groups cl2)\<lparr>gs_in_flight :=
        in_flight_start (gs_in_flight (cl_groups cl2))\<rparr>,
        cl_tasks := cl_tasks cl2 @ [Deliver_Task (cl_pipeline cl) (pp\<lparr>pp_admission := adm\<rparr>)]\<rparr>"
      by (simp add: notify_async_def Let_def)
    with hs show ?thesis by (simp add: spare_def in_flight_def in_flight_start_def)
  qed
qed (simp add: notify_async_def)

lemma send_spare: "spare (snd (send sk w ms sched i cl)) = spare cl"
proof (cases "validate i")
  case (Inr u)
  obtain pp rows where p: "prepare w (cl_pipeline cl) i (cl_rows cl) (cl_alerts cl) = (pp, rows)" by fastforce
  let ?cl1 = "record_signal sk (pp_signal pp) (cl\<lparr>cl_rows := rows\<rparr>)"
  obtain adm cl2 where h: "hold w (pl_routes (cl_pipeline cl)) (pp_plan pp) (pp_signal pp) False (pp_admission pp) ?cl1 = (adm, cl2)"
    by fastforce
  have hs: "spare cl2 = spare cl"
    using hold_spare [of w "pl_routes (cl_pipeline cl)" "pp_plan pp" "pp_signal pp" False "pp_admission pp" ?cl1]
    by (simp add: h prepared_spare)
  obtain r tk where d: "deliver_within sk (pl_providers (cl_pipeline cl)) (pp_plan pp) ms sched
      (new_tracker (pp_signal pp) (cl_sink cl2) (pp_prior_refs pp)) = (r, tk)" by fastforce
  obtain v cl3 where c: "complete_signal sk (pp_signal pp) r (after_delivery w pp adm r tk cl2) = (v, cl3)" by fastforce
  have "cl3 = snd (complete_signal sk (pp_signal pp) r (after_delivery w pp adm r tk cl2))" by (simp add: c)
  then have "spare cl3 = spare cl2" by (intro spare_fields) (simp_all add: after_delivery_def)
  note hc = this
  show ?thesis
  proof (cases "targets (pp_plan pp) = []")
    case True
    with Inr p show ?thesis
      by (simp add: send_def Let_def case_prod_beta settle_unsent_spare prepared_spare)
  next
    case False
    with Inr p h d c have "snd (send sk w ms sched i cl) = cl3" by (simp add: send_def Let_def split: sum.splits)
    with hs hc show ?thesis by simp
  qed
qed (simp add: send_def)

lemma timer_spare: "spare (timer_fires key seq cl) = spare cl"
  by (auto simp: timer_fires_def take_group_def close_group_def spare_def in_flight_def in_flight_start_def Let_def
      split: option.splits)

lemma flush_spare:
  fixes cl :: "'s client"
  shows "spare (flush_start cl) = spare cl"
proof -
  have close: "int (gs_in_flight (snd (close_groups al gs))) - int (length (fst (close_groups al gs))) = int (gs_in_flight gs)" for al gs
  proof (induction al arbitrary: gs)
    case (Cons x al)
    from Cons [of "snd (close_group (snd x) gs)"] show ?case
      by (cases x) (simp add: case_prod_beta Let_def close_group_def in_flight_start_def)
  qed simp
  have spawn: "spare (fold spawn_group cs c) = spare c - int (length cs)" for cs and c :: "'s client"
    by (induction cs arbitrary: c) (simp_all add: spare_def in_flight_def)
  show ?thesis using close [of "gs_open (cl_groups cl)" "(cl_groups cl)\<lparr>gs_open := []\<rparr>"]
    by (simp add: flush_start_def take_all_groups_def case_prod_beta Let_def spawn) (simp add: spare_def in_flight_def)
qed

lemma step_at_tasks: "cl_tasks (snd (step_at sk x st)) = cl_tasks (snd st)"
proof -
  have op: "cl_tasks (end_op sk j r y c) = cl_tasks c" for j r y c by (cases y) simp_all
  have "cl_tasks (snd (job_step sk e jc)) = cl_tasks (snd jc)" for e jc
    by (cases jc; cases e)
      (auto simp: job_step_def work_step_def finish_task_def op Let_def split: phase.splits list.splits prod.splits)
  then show ?thesis by (cases st) (simp add: step_at_def case_prod_beta)
qed

lemma balanced_spare: "spare cl' = spare cl \<Longrightarrow> in_flight cl = length (cl_tasks cl) + n \<Longrightarrow> in_flight cl' = length (cl_tasks cl') + n"
  by (simp add: spare_def)

lemma count_is_balanced:
  "reachable sk st \<Longrightarrow> in_flight (snd st) = length (cl_tasks (snd st)) + running (fst st)"
proof (induction rule: reachable.induct)
  case (fresh_client cl)
  then show ?case by (simp add: in_flight_def running_def new_groups_def)
next
  case (call_notify js cl w i)
  from balanced_spare [OF notify_spare] call_notify.IH show ?case by simp
next
  case (call_send js cl w ms sched i)
  from balanced_spare [OF send_spare] call_send.IH show ?case by simp
next
  case (timer js cl key seq)
  from balanced_spare [OF timer_spare] timer.IH show ?case by simp
next
  case (call_flush js cl)
  from balanced_spare [OF flush_spare] call_flush.IH show ?case by simp
next
  case (reload js cl pl)
  then show ?case by (simp add: in_flight_def)
next
  case (task_starts js cl ts t ts' w)
  have "\<not> ended (start_job w t)" by (cases t) (simp_all add: ended_def)
  with task_starts show ?case by (simp add: running_def in_flight_def)
next
  case (task_steps st x)
  obtain js cl where st: "st = (js, cl)" by (cases st)
  obtain js' cl' where s: "step_at sk x (js, cl) = (js', cl')" by fastforce
  with step_at_in_flight [OF _ s] task_steps.IH step_at_tasks [of sk x st] show ?case by (simp add: st)
qed

subsection \<open>Sample tasks\<close>

definition sample_run :: "string \<Rightarrow> string \<Rightarrow> delivery_run" where
  "sample_run n key = (sample_world,
     \<lparr>pl_routes = [], pl_providers = [(''console'', plain_provider ''console'' (\<lambda>_ _. Ok ()))]\<rparr>,
     \<lparr>pp_signal = sample_signal\<lparr>sg_id := n, sg_dedup_key := Some key\<rparr>,
      pp_plan = \<lparr>targets = [[''console'']], suppressed = [], grouped = []\<rparr>,
      pp_admission = [], pp_prior_refs = []\<rparr>)"

definition sample_runs :: "delivery_run list" where
  "sample_runs = [sample_run ''id-1'' ''a'', sample_run ''id-2'' ''b'']"

text \<open>Two deliveries, taking turns.\<close>

definition sample_turns :: "(nat \<times> event) list" where
  "sample_turns = concat (replicate 6 [(0, Poll 0), (1, Poll 0)])"

definition busy_client :: "nat \<Rightarrow> tables client" where
  "busy_client n = (sample_client None None [])\<lparr>cl_groups := new_groups\<lparr>gs_in_flight := n\<rparr>\<rparr>"

definition console_result :: delivery_result where
  "console_result = \<lparr>dr_status = Delivered, dr_provider = Some ''console'', dr_error = None, dr_attempts = 1,
     dr_deliveries = [\<lparr>po_provider = ''console'', po_status = Delivered, po_error = None, po_attempts = 1\<rparr>],
     dr_suppressed = [], dr_grouped = []\<rparr>"

lemma sample_turns_run:
  "map jb_phase (fst (run_jobs (sqlite_sink sample_sink_env) sample_turns (map start_delivery sample_runs, busy_client 2))) =
     map Done [console_result, console_result]"
  by code_simp

text \<open>A delivery and a digest of two signals, taking turns.\<close>

definition sample_digest :: closed_group where
  "sample_digest = \<lparr>cg_route = sample_route [] [''console''], cg_by = [],
     cg_members = map (\<lambda>n. \<lparr>mb_signal = sample_signal\<lparr>sg_id := n\<rparr>, mb_admission = [], mb_owns_row = True\<rparr>) [''m-1'', ''m-2'']\<rparr>"

definition sample_tasks :: "(world \<times> task) list" where
  "sample_tasks = [(sample_world, Group_Task sample_digest),
     (case sample_run ''id-2'' ''b'' of (w, pl, pp) \<Rightarrow> (w, Deliver_Task pl pp))]"

definition sample_long_turns :: "(nat \<times> event) list" where
  "sample_long_turns = concat (replicate 11 [(0, Poll 0), (1, Poll 0)])"

lemma sample_long_turns_run:
  "let (js, cl) = run_jobs (sqlite_sink sample_sink_env) sample_long_turns (map (\<lambda>(w, t). start_job w t) sample_tasks, busy_client 2)
   in map jb_phase js = map Done [console_result, console_result] \<and> in_flight cl = 0"
  by code_simp

text \<open>The task \<open>notify_async\<close> leaves behind.\<close>

definition sample_task :: task where
  "sample_task = Deliver_Task
     \<lparr>pl_routes = [], pl_providers = [(''console'', plain_provider ''console'' (\<lambda>_ _. Ok ()))]\<rparr>
     \<lparr>pp_signal = from_input (\<lambda>x. x) ''id-1'' 0 sample_input,
      pp_plan = \<lparr>targets = [[''console'']], suppressed = [], grouped = []\<rparr>, pp_admission = [], pp_prior_refs = []\<rparr>"

lemma sample_notify:
  "cl_tasks (notify_async (sqlite_sink sample_sink_env) sample_world sample_input (sample_client None None [])) = [sample_task]"
proof -
  have "cl_tasks (sample_client None None []) = []" by (simp add: sample_client_def)
  then show ?thesis using sample_prepare [of None None, simplified]
    by (simp add: notify_async_def sample_input_valid Let_def hold_none sample_task_def)
qed

lemma sample_notify_run:
  "let (js, cl) = run_jobs (sqlite_sink sample_sink_env) (replicate 6 (0, Poll 0))
       ([start_job sample_world sample_task],
        (notify_async (sqlite_sink sample_sink_env) sample_world sample_input (sample_client None None []))\<lparr>cl_tasks := []\<rparr>)
   in map jb_phase js = [Done console_result] \<and> in_flight cl = 0"
  by code_simp

subsection \<open>Properties\<close>

lemma owed_row_due: "n \<in> owed_ids j \<Longrightarrow> row_due row n j s"
  by (simp add: row_due_def owed_ids_def split: phase.splits)

lemma reachable_run: "reachable sk st \<Longrightarrow> reachable sk (run_jobs sk xs st)"
  by (induction xs arbitrary: st) (simp_all add: run_jobs_def task_steps)

lemma start_running: "running (map (\<lambda>(w, t). start_job w t) ts) = length ts"
proof -
  have "\<not> ended (start_job w t)" for w t by (cases t) (simp_all add: ended_def)
  then have "filter (\<lambda>j. \<not> ended j) (map (\<lambda>(w, t). start_job w t) ts) = map (\<lambda>(w, t). start_job w t) ts"
    by (auto simp: filter_id_conv)
  then show ?thesis by (simp only: running_def length_map)
qed

text \<open>
  C8. Deliveries in the background at the same time do what they do one after another: for signals with
  ids and dedup keys of their own, however the tasks' accesses to the SQLite sink, the send history, the
  alert book and the in-flight count interleave, the results, the stored rows, the history, the alerts
  and the count are those of running each task to its end before the next one starts.
\<close>

theorem deliveries_at_once_as_one_by_one:
  assumes "distinct (map (\<lambda>t. sg_id (run_signal t)) ts)"
    and "distinct (map (\<lambda>t. sg_dedup_key (run_signal t)) ts)"
    and "fst ` set xs \<subseteq> {..<length ts}"
    and "run_jobs (sqlite_sink env) xs (map start_delivery ts, cl) = (js, cl')"
    and "map jb_phase js = map Done rs"
  shows "\<exists>cl2. one_by_one (sqlite_sink env) (in_turn xs ts) cl = Some (rs, cl2) \<and> same_client signal_rows cl' cl2"
  by (rule interleaved_in_turn [OF start_independent [OF assms(1,2)] assms(3-5)])

text \<open>
  C9. When the wait of \<open>flush\<close> ends with nothing in flight, everything is done and stored. From whatever
  state calls, timers, reloads and tasks can lead to, if the tasks that have started go on in any
  interleaving until the count is zero, then no task is left to start, all have ended, and unless a
  panic ended it early, a task's result is in the row of every signal it alone had to write (the
  signal, the digest, a member waiting on it), over a SQLite sink that can be written.
\<close>

theorem flush_finds_everything_stored:
  assumes "reachable (sqlite_sink env) (js0, cl)" and "run_jobs (sqlite_sink env) xs (js0, cl) = (js, cl')"
    and "flush_wait [] cl'"
    and "\<And>sg. se_payload env sg \<noteq> None" and "\<And>sg. se_insert_fault env sg = None" and "\<And>sg p. se_outcome_fault env sg p = None"
    and "k < length js0" and "n \<in> owed_ids (js0 ! k)" and "\<forall>l < length js0. l \<noteq> k \<longrightarrow> n \<notin> pending_ids (js0 ! l)"
  shows "cl_tasks cl' = [] \<and> (\<forall>j \<in> set js. ended j) \<and>
    (jb_phase (js ! k) = Aborted \<or>
     (\<exists>r. jb_phase (js ! k) = Done r \<and>
        stored_status (cl_sink cl') n = Some (dr_status r, dr_provider r, dr_error r)))"
proof -
  have works: "fst (sqlite_complete env sg r s) = Inr ()" for sg r s
    using assms(4-6) by (intro sqlite_complete_works) auto
  have "in_flight cl' = length (cl_tasks cl') + running js"
    using count_is_balanced [OF reachable_run [OF assms(1)], of xs] by (simp add: assms(2))
  with assms(3) have idle: "cl_tasks cl' = []" "running js = 0" by (simp_all add: flush_wait_def in_flight_def)
  have "length js = length js0"
    using fold_step_at_length [of "sqlite_sink env" xs "(js0, cl)"] unfolding assms(2) [unfolded run_jobs_def] by simp
  with idle(2) assms(7) have "ended (js ! k)" by (simp add: running_0)
  moreover have "row_due (\<lambda>s. stored_status s n) n (js ! k) (cl_sink cl')"
    by (rule sqlite_client.run_pays_row [OF works assms(2,7) owed_row_due [OF assms(8)] assms(9)])
  ultimately show ?thesis using idle by (auto simp: ended_def row_due_def running_0 split: phase.splits)
qed

text \<open>
  C22. Background work ends, and the count with it: under any interleaving that resumes each chain of each
  delivery or digest often enough (six times per provider of its targets, and a few times more for
  the steps before and after), every task ends, and each takes exactly one off the in-flight count.
\<close>

theorem background_work_ends:
  assumes "run_jobs sk xs (map (\<lambda>(w, t). start_job w t) ts, cl) = (js, cl')"
    and "length ts \<le> gs_in_flight (cl_groups cl)"
    and "\<forall>k < length ts. \<forall>i < max 1 (length (task_targets (snd (ts ! k)))).
           task_polls (fst (ts ! k)) (snd (ts ! k)) \<le> count_list xs (k, Poll i)"
  shows "(\<forall>j \<in> set js. ended j) \<and> gs_in_flight (cl_groups cl') = gs_in_flight (cl_groups cl) - length ts"
proof -
  let ?js = "map (\<lambda>(w, t). start_job w t) ts"
  have len: "length js = length ts"
    using fold_step_at_length [of sk xs "(?js, cl)"] unfolding assms(1) [unfolded run_jobs_def] by simp
  have "ended (js ! k)" if k: "k < length ts" for k
  proof -
    obtain w t where t: "ts ! k = (w, t)" by fastforce
    from assms(3) k have "\<forall>i < max 1 (length (task_targets t)). task_polls w t \<le> count_list xs (k, Poll i)"
      by (metis t fst_conv snd_conv)
    from start_enough [of t w "\<lambda>i. count_list xs (k, Poll i)", OF this]
    show ?thesis using enough_ends [OF assms(1), of k "max 1 (length (task_targets t))"] k by (simp add: t)
  qed
  then have ended: "\<forall>j \<in> set js. ended j" by (simp add: all_set_conv_all_nth len)
  then have "running js = 0" by (simp add: running_0)
  with run_jobs_in_flight [OF _ assms(1)] start_running [of ts] assms(2) ended show ?thesis
    by (simp add: in_flight_def)
qed

theorem deliveries_at_once_as_one_by_one_witness:
  "\<exists>cl' cl2. run_jobs (sqlite_sink sample_sink_env) sample_turns (map start_delivery sample_runs, busy_client 2) = cl' \<and>
     one_by_one (sqlite_sink sample_sink_env) (in_turn sample_turns sample_runs) (busy_client 2) =
       Some ([console_result, console_result], cl2) \<and> same_client signal_rows (snd cl') cl2"
proof -
  obtain js cl' where run: "run_jobs (sqlite_sink sample_sink_env) sample_turns (map start_delivery sample_runs, busy_client 2) = (js, cl')"
    by fastforce
  have "map jb_phase js = map Done [console_result, console_result]" using sample_turns_run by (simp add: run)
  moreover have "distinct (map (\<lambda>t. sg_id (run_signal t)) sample_runs)"
    "distinct (map (\<lambda>t. sg_dedup_key (run_signal t)) sample_runs)"
    by (simp_all add: sample_runs_def sample_run_def run_signal_def)
  moreover have "fst ` set sample_turns \<subseteq> {..<length sample_runs}" by (auto simp: sample_turns_def sample_runs_def)
  ultimately show ?thesis using deliveries_at_once_as_one_by_one [OF _ _ _ run] run by auto
qed

theorem flush_finds_everything_stored_witness:
  "\<exists>cl. reachable (sqlite_sink sample_sink_env) ([start_job sample_world sample_task], cl) \<and>
     stored_status (cl_sink (snd (run_jobs (sqlite_sink sample_sink_env) (replicate 6 (0, Poll 0))
       ([start_job sample_world sample_task], cl)))) ''id-1'' = Some (Delivered, Some ''console'', None)"
proof -
  let ?sk = "sqlite_sink sample_sink_env" and ?j = "start_job sample_world sample_task"
  let ?cl = "(notify_async ?sk sample_world sample_input (sample_client None None []))\<lparr>cl_tasks := []\<rparr>"
  have "reachable ?sk ([], sample_client None None [])"
    by (rule fresh_client) (simp_all add: sample_client_def)
  note called = call_notify [OF this, of sample_world sample_input]
  from task_starts [OF called, of "[]" _ "[]"] sample_notify have reach: "reachable ?sk ([?j], ?cl)" by simp
  obtain js cl' where run: "run_jobs ?sk (replicate 6 (0, Poll 0)) ([?j], ?cl) = (js, cl')" by fastforce
  from sample_notify_run run have p: "map jb_phase js = [Done console_result]" and f: "flush_wait [] cl'"
    by (simp_all add: flush_wait_def in_flight_def)
  have owed: "''id-1'' \<in> owed_ids ([?j] ! 0)" by (simp add: owed_ids_def sample_task_def from_input_def Let_def)
  have "jb_phase (js ! 0) = Done console_result" using p by (cases js) auto
  with flush_finds_everything_stored [OF reach run f _ _ _ _ owed] reach run show ?thesis
    by (auto simp: sample_sink_env_def console_result_def)
qed

text \<open>Each chain resumed often enough for the digest, which takes more polls than the delivery.\<close>

theorem background_work_ends_witness:
  "\<exists>js cl'. run_jobs (sqlite_sink sample_sink_env) (concat (replicate 20 [(0, Poll 0), (1, Poll 0)]))
     (map (\<lambda>(w, t). start_job w t) sample_tasks, busy_client 2) = (js, cl') \<and>
     (\<forall>j \<in> set js. ended j) \<and> flush_wait [] cl'"
proof -
  let ?xs = "concat (replicate 20 [(0, Poll 0), (1, Poll 0)]) :: (nat \<times> event) list"
  obtain js cl' where run: "run_jobs (sqlite_sink sample_sink_env) ?xs
      (map (\<lambda>(w, t). start_job w t) sample_tasks, busy_client 2) = (js, cl')" by fastforce
  have "count_list ?xs (0, Poll 0) = 20" "count_list ?xs (1, Poll 0) = 20" by (simp_all add: numeral_eq_Suc)
  then have polls: "\<forall>k < length sample_tasks. \<forall>i < max 1 (length (task_targets (snd (sample_tasks ! k)))).
      task_polls (fst (sample_tasks ! k)) (snd (sample_tasks ! k)) \<le> count_list ?xs (k, Poll i)"
    by (auto simp: sample_tasks_def sample_run_def task_targets_def task_polls_def chain_polls_def sample_digest_def
        group_ops_def sample_route_def route_targets_def less_Suc_eq nth_Cons')
  have "length sample_tasks \<le> gs_in_flight (cl_groups (busy_client 2))"
    by (simp add: sample_tasks_def busy_client_def)
  from background_work_ends [OF run this polls] run show ?thesis
    by (simp add: flush_wait_def sample_tasks_def busy_client_def)
qed

end
