(* ===== verification/Spec2Isabelle.thy ===== *)
theory Spec2Isabelle
  imports Bindings Native_Reads Stores Transports Concurrency
begin

text \<open>
  A verification development of OpsSignal, a library that turns operational signals (a failed task, a
  finished job) into alerts on Slack, PagerDuty, Opsgenie, Teams, e-mail, webhooks and the console.

  \<^bold>\<open>The program.\<close> A signal (\<^verbatim>\<open>signal.rs\<close>) is validated, given a dedup key and matched against the
  routes of a config (\<^verbatim>\<open>routing.rs\<close>); the plan that results has one target per provider of a fanout
  route and one chain of providers for all failover routes. On the way each route may refuse it, as a
  duplicate or for its rate limit (\<^verbatim>\<open>throttle.rs\<close>), or hold it for a digest (\<^verbatim>\<open>group.rs\<close>). The engine
  (\<^verbatim>\<open>lib.rs\<close>) delivers to all targets at once, retrying each provider three times, and records the
  outcomes in the sink (\<^verbatim>\<open>sink.rs\<close>) and the alerts that are open in the alert book (\<^verbatim>\<open>lifecycle.rs\<close>), where
  an acknowledge or resolve finds its providers again. The config is read from files, web servers and
  clouds (\<^verbatim>\<open>source.rs\<close>, \<^verbatim>\<open>cloud/\<close>), follows \<^verbatim>\<open>extends\<close> from file to file (\<^verbatim>\<open>chain.rs\<close>), has its
  placeholders filled from the environment and secret stores (\<^verbatim>\<open>secrets.rs\<close>), is merged and checked
  (\<^verbatim>\<open>config.rs\<close>), and is polled for changes (\<^verbatim>\<open>reload.rs\<close>). A command line, a C library and a Python
  module use the client. Paths here are below \<^verbatim>\<open>src/crates/core/src\<close> unless they name a crate.

  \<^bold>\<open>Theories and code.\<close>
    \<^item> \<open>Prelude\<close>, \<open>Rust_Str\<close>, \<open>Json\<close>: results and association lists, the string functions of Rust's
      standard library, JSON values.
    \<^item> \<open>Signals\<close>: \<^verbatim>\<open>signal.rs\<close>. \<open>Routing\<close>: \<^verbatim>\<open>routing.rs\<close>, with the planning loop \<open>plan_with\<close> over any
      admission gate. \<open>Throttle_Store\<close>: \<^verbatim>\<open>throttle.rs\<close>, the table of sends as a list of rows and
      \<open>try_admit\<close> as a transaction whose statements may fail.
    \<^item> \<open>Deliveries\<close>: \<^verbatim>\<open>delivery.rs\<close>. \<open>Sinks\<close>: \<^verbatim>\<open>sink.rs\<close>. \<open>Lifecycle\<close>: \<^verbatim>\<open>lifecycle.rs\<close>. \<open>Signal_Groups\<close>:
      \<^verbatim>\<open>group.rs\<close> and \<^verbatim>\<open>inflight.rs\<close>. \<open>Engine\<close>: the delivery functions of \<^verbatim>\<open>lib.rs\<close>, one step of a chain
      per poll. \<open>Client\<close>: the client of \<^verbatim>\<open>lib.rs\<close> and what its background tasks do to it.
      \<open>Concurrency\<close>: the same tasks running at once, each a machine whose steps are its accesses to
      what they share, and the states calls, timers and tasks lead to.
    \<^item> \<open>Templates\<close>, \<open>Config_Data\<close>, \<open>Provider_Payloads\<close>, \<open>Addons\<close>: \<^verbatim>\<open>template.rs\<close>, the data of
      \<^verbatim>\<open>config.rs\<close>, \<^verbatim>\<open>providers/\<close>, and the registries of add-ons in \<^verbatim>\<open>source.rs\<close> and
      \<^verbatim>\<open>providers/external.rs\<close>.
    \<^item> \<open>Sources\<close>, \<open>Source_Reads\<close>, \<open>Secrets\<close>, \<open>Secret_Values\<close>: \<^verbatim>\<open>source.rs\<close> and \<^verbatim>\<open>secrets.rs\<close>, where
      things live and how they are read and cached. \<open>Configs\<close>, \<open>Chains\<close>, \<open>Loads\<close>: the rest of
      \<^verbatim>\<open>config.rs\<close>, \<^verbatim>\<open>chain.rs\<close>, and the initial load. \<open>Pipelines\<close>, \<open>Reloads\<close>: \<open>Pipeline\<close> and the
      constructors of \<^verbatim>\<open>lib.rs\<close>, and \<^verbatim>\<open>reload.rs\<close>. \<open>Stores\<close>: opening the three stores of a client on
      one SQLite file, and what a restart finds there.
    \<^item> \<open>Cloud_Base\<close>, \<open>Cloud_Aws\<close>, \<open>Cloud_Azure\<close>, \<open>Cloud_Gcp\<close>: \<^verbatim>\<open>cloud/\<close>, with the tokens, polling
      sessions and ETags it keeps as the state \<open>cloud_state\<close>. \<open>Native_Reads\<close>: which of these functions
      reads a source or a secret in a build with the clouds compiled in. \<open>Transports\<close>: the SMTP transport
      of \<^verbatim>\<open>providers/email.rs\<close> and the HTTP client lent to the object stores in \<^verbatim>\<open>cloud/mod.rs\<close>.
    \<^item> \<open>Cli\<close>: \<^verbatim>\<open>src/crates/cli/src/main.rs\<close>. \<open>Bindings\<close>: \<^verbatim>\<open>src/crates/ffi/src/lib.rs\<close>,
      \<^verbatim>\<open>src/crates/python/src/lib.rs\<close> and the wheels \<^verbatim>\<open>src/crates/python-aws\<close>, \<^verbatim>\<open>-gcp\<close> and \<^verbatim>\<open>-azure\<close>.

  \<^bold>\<open>How code is modelled.\<close> A struct is a record, an enum a datatype, \<open>Result<T, E>\<close> a sum, a table a list
  of rows, a map an association list. A function that changes state takes the state and returns it; a
  lock is held for the whole of a call, as in the code, except that completing a signal takes the sink's
  lock twice, between which only the rows of other signals can change. What the code cannot decide is an argument: the
  network, the file system, SHA-256, YAML, serde and minijinja are fields of records of functions
  (\<open>net\<close>, \<open>chain_env\<close>, \<open>source_env\<close>, \<open>secret_env\<close>, \<open>cloud_env\<close>, \<open>host\<close>), a clock reading or id is part of a
  \<open>world\<close>, a database statement fails when a fault predicate says so, the order in which tokio polls
  the targets of a delivery is a schedule, and a panic of foreign code is a value. Nothing is assumed of
  them except where a theorem has it as a premise.

  \<^bold>\<open>Interfaces.\<close> The locale \<open>send_log\<close> (\<open>Routing\<close>) is what planning asks of the history of sends and what
  taking them back restores; it is interpreted by the throttle table and by no throttle at all. The
  locale \<open>signal_sink\<close> (\<open>Sinks\<close>) is the contract of a sink, \<open>client_sink\<close> (\<open>Client\<close>) what the client
  makes of it; both are interpreted by the SQLite sink. The locale \<open>conditional_source\<close>
  (\<open>Native_Reads\<close>) is a source read with ETags, interpreted by App Configuration and by Cosmos DB.
  The locales of \<open>Concurrency\<close> say what lets steps of tasks commute: \<open>keyed_update\<close> (an update changes the
  part under its own key), interpreted by the alert book, \<open>isolated_sink\<close>, a sink whose writes are such
  updates, interpreted by the SQLite sink, and \<open>commuting_steps\<close>, interpreted by the tasks over it.

  \<^bold>\<open>What the lemmas show.\<close>
    \<^item> Planning: the loop with its list of seen names and index of the failover target computes a
      declarative plan read off the fates of the routes.
    \<^item> Throttling: of the sends the table has recorded and not taken back, two of one route and key are
      a window apart and no window holds more than the limit, whichever statements failed in between;
      pruning is not seen, storage failures let signals through (unrecorded), and a send that reached
      nobody is taken back, unless a copy of it is held for a digest.
    \<^item> Delivery: it ends under every schedule, its result does not depend on the schedule and is truthful
      about every target, also when it is cut off, and the stored outcomes are the reported ones.
    \<^item> Background work: deliveries at once do what they do one after another, every task ends, and when the
      wait of \<open>flush\<close> is over everything is stored.
    \<^item> Groups and lifecycle: no member is lost or sent twice, digests reach their members, and a later
      acknowledge or resolve goes where the alert is and names it.
    \<^item> Configs: chains load parents first within their limits, remote chains read no local file, the
      merge is by layer, interpolation is one pass, what loads is well formed, a reload is all or
      nothing (the pipeline and the recorded texts are those of the latest load, and a poll that fails
      changes nothing), and a restart in an outage finds what the last start wrote.
    \<^item> Clouds: the ETag cache of App Configuration is not seen, an AppConfig session reads what is deployed,
      no token is served about to expire, and an insecure endpoint is not contacted where the code checks
      it (Firestore's emulator host and the object stores' own settings are not checked). The ETag
      cache of Cosmos DB is seen: it mixes up the fields of any item.
    \<^item> Restarts: the stores a process leaves are the ones the next one finds, so a restart changes no plan.
    \<^item> Hosts: an exit code 0 of a command that sends means that every target was reached, a batch is
      checked before it is sent, a C caller gets a result exactly on success, Python and C report the
      same, and a Python client with add-on wheels reads what a build with the clouds compiled in reads,
      as long as the thread of the read answers in time.

  \<^bold>\<open>Bounds and fuel.\<close> No definition uses fuel except the schedule of a delivery or of several tasks at
  once: polling every chain six times per provider plus once is enough, since a provider takes at most six polls (one to start, three
  attempts, two pauses) and a chain one more to see that it is at its end; a task takes a step more for
  each thing it does before and after. Recursion over a chain of
  config files ends because the stack grows to at most \<open>MAX_DEPTH\<close> (8); a chain has at most 71 files,
  which is \<open>MAX_FILES\<close> (64) and the files still open on the path. Seconds and milliseconds of a \<open>u64\<close>
  are naturals with the bounds and saturation of the code written out; clock times are integers.

  \<^bold>\<open>Not modelled.\<close> The argument parser of the command line (clap); PyO3's conversions, the interpreter
  lock, and freeing a string handed to C; the columns of the SQLite tables as SQL text; the timer
  between two polls of a reload; log lines. They are glue around libraries, and what the rest of the code sees
  of them is an outcome of the environment. Cloud reads are taken one after another, although two tasks
  may read at once and find the caches between each other's accesses. A token lifetime so long that
  adding it to the clock would panic is an integer like any other.
\<close>

end
